(* ===== verification/Croco_Prelude.thy ===== *)
theory Croco_Prelude
  imports Main "HOL-Library.Word"
begin

text \<open>
  Shared vocabulary of the development: C++ exceptions as values, the procedure type that
  threads a mutable state through code which may throw (the state reached at the throw is
  kept, as it is in C++), first-match search in a vector, and the decimal conversions of the
  standard library that the sources call (\<open>std::to_string\<close>, \<open>std::to_chars\<close>,
  \<open>std::from_chars\<close>, \<open>std::stoi\<close>).
\<close>

unbundle bit_operations_syntax

section \<open>Machine integers and exceptions\<close>

type_synonym u8 = "8 word"
type_synonym u16 = "16 word"
type_synonym u32 = "32 word"
type_synonym u64 = "64 word"

text \<open>A C++ \<open>int\<close> is an integer in the 32-bit two's complement range.\<close>

definition int32_range :: "int \<Rightarrow> bool" where
  "int32_range i \<longleftrightarrow> - (2 ^ 31) \<le> i \<and> i < 2 ^ 31"

datatype exn =
    Out_of_range string
  | Runtime_error string
  | Logic_error string
  | Invalid_argument string
  | Length_error string
  | Undefined_behaviour string

text \<open>\<open>std::exception::what\<close>; undefined behaviour is an outcome, not an exception that can be caught.\<close>

fun what :: "exn \<Rightarrow> string" where
  "what (Out_of_range t) = t"
| "what (Runtime_error t) = t"
| "what (Logic_error t) = t"
| "what (Invalid_argument t) = t"
| "what (Length_error t) = t"
| "what (Undefined_behaviour t) = t"

fun is_undefined :: "exn \<Rightarrow> bool" where
  "is_undefined (Undefined_behaviour _) = True"
| "is_undefined _ = False"

section \<open>Procedures: state passing with exceptions\<close>

type_synonym ('s, 'a) proc = "'s \<Rightarrow> (exn + 'a) \<times> 's"

named_theorems proc_simps

definition returnP :: "'a \<Rightarrow> ('s, 'a) proc" where
  "returnP x = (\<lambda>s. (Inr x, s))"

definition throwP :: "exn \<Rightarrow> ('s, 'a) proc" where
  "throwP e = (\<lambda>s. (Inl e, s))"

definition bindP :: "('s, 'a) proc \<Rightarrow> ('a \<Rightarrow> ('s, 'b) proc) \<Rightarrow> ('s, 'b) proc" where
  "bindP m f = (\<lambda>s. case m s of (Inl e, s') \<Rightarrow> (Inl e, s') | (Inr x, s') \<Rightarrow> f x s')"

definition seqP :: "('s, 'a) proc \<Rightarrow> ('s, 'b) proc \<Rightarrow> ('s, 'b) proc" where
  "seqP m n = bindP m (\<lambda>_. n)"

definition getP :: "('s \<Rightarrow> 'a) \<Rightarrow> ('s, 'a) proc" where
  "getP f = (\<lambda>s. (Inr (f s), s))"

definition modifyP :: "('s \<Rightarrow> 's) \<Rightarrow> ('s, unit) proc" where
  "modifyP f = (\<lambda>s. (Inr (), f s))"

definition liftP :: "exn + 'a \<Rightarrow> ('s, 'a) proc" where
  "liftP r = (\<lambda>s. (r, s))"

definition whenP :: "bool \<Rightarrow> ('s, unit) proc \<Rightarrow> ('s, unit) proc" where
  "whenP b m = (if b then m else returnP ())"

text \<open>\<open>guardP c m\<close> is the C++ idiom \<open>if (!c()) return; m\<close>, with \<open>d\<close> the value returned early.\<close>

definition guardP :: "('s, bool) proc \<Rightarrow> 'a \<Rightarrow> ('s, 'a) proc \<Rightarrow> ('s, 'a) proc" where
  "guardP c d m = bindP c (\<lambda>ok. if ok then m else returnP d)"

lemma returnP_apply [simp]: "returnP x s = (Inr x, s)"
  by (simp add: returnP_def)

lemma throwP_apply [simp]: "throwP e s = (Inl e, s)"
  by (simp add: throwP_def)

lemma getP_apply [simp]: "getP f s = (Inr (f s), s)"
  by (simp add: getP_def)

lemma modifyP_apply [simp]: "modifyP f s = (Inr (), f s)"
  by (simp add: modifyP_def)

lemma liftP_apply [simp]: "liftP r s = (r, s)"
  by (simp add: liftP_def)

lemma whenP_simps [simp]: "whenP True m = m" "whenP False m = returnP ()"
  by (simp_all add: whenP_def)

lemma bindP_Inr [simp]: "m s = (Inr x, s') \<Longrightarrow> bindP m f s = f x s'"
  by (simp add: bindP_def)

lemma bindP_Inl [simp]: "m s = (Inl e, s') \<Longrightarrow> bindP m f s = (Inl e, s')"
  by (simp add: bindP_def)

lemma seqP_Inr [simp]: "m s = (Inr x, s') \<Longrightarrow> seqP m n s = n s'"
  by (simp add: seqP_def)

lemma seqP_Inl [simp]: "m s = (Inl e, s') \<Longrightarrow> seqP m n s = (Inl e, s')"
  by (simp add: seqP_def)

lemma guardP_True [simp]: "c s = (Inr True, s') \<Longrightarrow> guardP c d m s = m s'"
  by (simp add: guardP_def bindP_def)

lemma guardP_False [simp]: "c s = (Inr False, s') \<Longrightarrow> guardP c d m s = (Inr d, s')"
  by (simp add: guardP_def bindP_def)

lemma guardP_Inl [simp]: "c s = (Inl e, s') \<Longrightarrow> guardP c d m s = (Inl e, s')"
  by (simp add: guardP_def bindP_def)

lemma seqP_assoc: "seqP (seqP a b) c = seqP a (seqP b c)"
  by (rule ext) (simp add: seqP_def bindP_def split: prod.splits sum.splits)

subsection \<open>Relations kept by every run\<close>

text \<open>
  \<open>keeps R m\<close>: whatever \<open>m\<close> does, the state after it is related by \<open>R b\<close> to the state before,
  where \<open>b\<close> tells whether \<open>m\<close> returned or threw. Where the relations compose, so do the
  combinators: a frame condition or a trace property of a handler follows from those of the
  operations it calls. A relation that does not look at the outcome ignores its first argument.
\<close>

fun returned :: "exn + 'a \<Rightarrow> bool" where
  "returned (Inl _) = False"
| "returned (Inr _) = True"

definition keeps :: "(bool \<Rightarrow> 's \<Rightarrow> 's \<Rightarrow> bool) \<Rightarrow> ('s, 'a) proc \<Rightarrow> bool" where
  "keeps R m \<longleftrightarrow> (\<forall>s. R (returned (fst (m s))) s (snd (m s)))"

lemma keepsI [intro?]: "(\<And>s. R (returned (fst (m s))) s (snd (m s))) \<Longrightarrow> keeps R m"
  by (simp add: keeps_def)

lemma keepsD: "keeps R m \<Longrightarrow> m s = (r, s') \<Longrightarrow> R (returned r) s s'"
  by (metis keeps_def fst_conv snd_conv)


locale kept_relation =
  fixes R :: "bool \<Rightarrow> 's \<Rightarrow> 's \<Rightarrow> bool"
  assumes refl_R: "R b s s"
    and trans_R: "R True s t \<Longrightarrow> R b t u \<Longrightarrow> R b s u"
begin

lemma keeps_return: "keeps R (returnP x)"
  by (simp add: keeps_def refl_R)

lemma keeps_throw: "keeps R (throwP e)"
  by (simp add: keeps_def refl_R)

lemma keeps_get: "keeps R (getP f)"
  by (simp add: keeps_def refl_R)

lemma keeps_lift: "keeps R (liftP r)"
  by (simp add: keeps_def refl_R)

lemma keeps_modify: "(\<And>s. R True s (f s)) \<Longrightarrow> keeps R (modifyP f)"
  by (simp add: keeps_def)

text \<open>Pointwise forms, for a step that depends on what was tested before it.\<close>

definition kept_at :: "('s, 'a) proc \<Rightarrow> 's \<Rightarrow> bool" where
  "kept_at m s \<longleftrightarrow> R (returned (fst (m s))) s (snd (m s))"

lemma keeps_at: "keeps R m \<Longrightarrow> kept_at m s"
  by (simp add: keeps_def kept_at_def)

lemma keeps_kept_at: "(\<And>s. kept_at m s) \<Longrightarrow> keeps R m"
  by (simp add: keeps_def kept_at_def)

lemma kept_at_bind:
  "kept_at m s \<Longrightarrow> (\<And>x t. m s = (Inr x, t) \<Longrightarrow> kept_at (f x) t) \<Longrightarrow> kept_at (bindP m f) s"
  by (cases "m s"; cases "fst (m s)") (auto simp: kept_at_def bindP_def intro: trans_R)

lemma kept_at_seq:
  "kept_at m s \<Longrightarrow> (\<And>x t. m s = (Inr x, t) \<Longrightarrow> kept_at n t) \<Longrightarrow> kept_at (seqP m n) s"
  unfolding seqP_def by (rule kept_at_bind)

lemma kept_at_return: "kept_at (returnP x) s"
  by (simp add: kept_at_def refl_R)

lemma keeps_bind: "keeps R m \<Longrightarrow> (\<And>x. keeps R (f x)) \<Longrightarrow> keeps R (bindP m f)"
  by (meson kept_at_bind keeps_at keeps_kept_at)

lemma keeps_seq: "keeps R m \<Longrightarrow> keeps R n \<Longrightarrow> keeps R (seqP m n)"
  unfolding seqP_def by (rule keeps_bind)

lemma keeps_when: "(b \<Longrightarrow> keeps R m) \<Longrightarrow> keeps R (whenP b m)"
  by (cases b) (auto simp: keeps_return)

lemma keeps_guard: "keeps R c \<Longrightarrow> keeps R m \<Longrightarrow> keeps R (guardP c d m)"
  unfolding guardP_def by (rule keeps_bind) (auto intro: keeps_return)

lemma keeps_if: "(b \<Longrightarrow> keeps R m) \<Longrightarrow> (\<not> b \<Longrightarrow> keeps R n) \<Longrightarrow> keeps R (if b then m else n)"
  by simp

lemma keeps_option:
  "(x = None \<Longrightarrow> keeps R m) \<Longrightarrow> (\<And>y. x = Some y \<Longrightarrow> keeps R (f y)) \<Longrightarrow>
   keeps R (case x of None \<Rightarrow> m | Some y \<Rightarrow> f y)"
  by (cases x) auto

lemma keeps_sum:
  "(\<And>e. x = Inl e \<Longrightarrow> keeps R (f e)) \<Longrightarrow> (\<And>y. x = Inr y \<Longrightarrow> keeps R (g y)) \<Longrightarrow>
   keeps R (case x of Inl e \<Rightarrow> f e | Inr y \<Rightarrow> g y)"
  by (cases x) auto

lemmas keeps_intros =
  keeps_return keeps_throw keeps_get keeps_lift keeps_bind keeps_seq keeps_when keeps_guard
  keeps_if keeps_option keeps_sum

end

section \<open>First match in a vector\<close>

text \<open>\<open>replace_first P x xs\<close> is \<open>*std::find_if(begin, end, P) = x\<close> where a match exists.\<close>

fun replace_first :: "('a \<Rightarrow> bool) \<Rightarrow> 'a \<Rightarrow> 'a list \<Rightarrow> 'a list" where
  "replace_first P y [] = []"
| "replace_first P y (x # xs) = (if P x then y # xs else x # replace_first P y xs)"

fun erase_first :: "('a \<Rightarrow> bool) \<Rightarrow> 'a list \<Rightarrow> 'a list" where
  "erase_first P [] = []"
| "erase_first P (x # xs) = (if P x then xs else x # erase_first P xs)"

lemma length_replace_first [simp]: "length (replace_first P y xs) = length xs"
  by (induction xs) auto

lemma find_None_not: "List.find P xs = None \<longleftrightarrow> (\<forall>x \<in> set xs. \<not> P x)"
  by (auto simp: find_None_iff)

lemma find_replace_first:
  "P y \<Longrightarrow> List.find P xs \<noteq> None \<Longrightarrow> List.find P (replace_first P y xs) = Some y"
  by (induction xs) auto

lemma find_replace_first_other:
  "(\<And>x. P x \<Longrightarrow> \<not> Q x) \<Longrightarrow> \<not> Q y \<Longrightarrow> List.find Q (replace_first P y xs) = List.find Q xs"
  by (induction xs) auto

lemma find_append: "List.find P (xs @ ys) = (case List.find P xs of None \<Rightarrow> List.find P ys | r \<Rightarrow> r)"
  by (induction xs) auto

lemma replace_first_id: "List.find P xs = None \<Longrightarrow> replace_first P y xs = xs"
  by (induction xs) auto

lemma map_replace_first: "(\<And>x. P x \<Longrightarrow> f y = f x) \<Longrightarrow> map f (replace_first P y xs) = map f xs"
  by (induction xs) auto

lemma replace_first_twice:
  "P y \<Longrightarrow> replace_first P z (replace_first P y xs) = replace_first P z xs"
  by (induction xs) auto

lemma replace_first_restore:
  "List.find P xs = Some x \<Longrightarrow> replace_first P x xs = xs"
  by (induction xs) (auto split: if_splits)

lemma length_erase_first:
  "length (erase_first P xs) = (if List.find P xs = None then length xs else length xs - 1)"
  by (induction xs) (auto simp: find_None_not, (metis One_nat_def Suc_pred length_pos_if_in_set)+)

end
