(* ===== verification/Std_Convert.thy ===== *)
theory Std_Convert
  imports Croco_Prelude
begin

text \<open>
  The decimal conversions of the C++ standard library that the sources call, as functions on
  byte strings: \<open>std::to_string\<close> and \<open>std::to_chars\<close> (printing), \<open>std::from_chars\<close>
  (an optional minus sign, then the longest run of digits) and \<open>std::stoi\<close> (leading white
  space, an optional sign, then the longest run of digits). Both readers ignore what follows
  the digits and fail when there is no digit or when the value is outside \<open>int\<close>.
\<close>

section \<open>Printing\<close>

definition digit_char :: "nat \<Rightarrow> char" where
  "digit_char d = char_of (48 + d)"

fun nat_to_string :: "nat \<Rightarrow> string" where
  "nat_to_string n =
     (if n < 10 then [digit_char n] else nat_to_string (n div 10) @ [digit_char (n mod 10)])"

declare nat_to_string.simps [simp del]

definition int_to_string :: "int \<Rightarrow> string" where
  "int_to_string i = (if i < 0 then CHR ''-'' # nat_to_string (nat (- i)) else nat_to_string (nat i))"

definition u32_to_string :: "u32 \<Rightarrow> string" where
  "u32_to_string w = nat_to_string (unat w)"

definition u64_to_string :: "u64 \<Rightarrow> string" where
  "u64_to_string w = nat_to_string (unat w)"

section \<open>Reading\<close>

definition is_digit :: "char \<Rightarrow> bool" where
  "is_digit c \<longleftrightarrow> 48 \<le> (of_char c :: nat) \<and> (of_char c :: nat) \<le> 57"

definition digit_val :: "char \<Rightarrow> nat" where
  "digit_val c = of_char c - 48"

definition digits_val :: "string \<Rightarrow> nat" where
  "digits_val ds = foldl (\<lambda>a c. 10 * a + digit_val c) 0 ds"

text \<open>The characters \<open>isspace\<close> accepts in the default locale.\<close>

definition is_space :: "char \<Rightarrow> bool" where
  "is_space c \<longleftrightarrow> (of_char c :: nat) = 32 \<or> (9 \<le> (of_char c :: nat) \<and> (of_char c :: nat) \<le> 13)"

definition read_digits :: "string \<Rightarrow> nat option" where
  "read_digits s = (let ds = takeWhile is_digit s in if ds = [] then None else Some (digits_val ds))"

text \<open>\<open>std::from_chars\<close> into an \<open>int\<close>; \<open>None\<close> stands for either error code.\<close>

definition from_chars_int :: "string \<Rightarrow> int option" where
  "from_chars_int s =
     (let neg = (s \<noteq> [] \<and> hd s = CHR ''-'');
          body = (if neg then tl s else s)
      in case read_digits body of
           None \<Rightarrow> None
         | Some n \<Rightarrow> (let v = (if neg then - int n else int n) in if int32_range v then Some v else None))"

definition stoi :: "string \<Rightarrow> exn + int" where
  "stoi s =
     (let t = dropWhile is_space s;
          neg = (t \<noteq> [] \<and> hd t = CHR ''-'');
          pos = (t \<noteq> [] \<and> hd t = CHR ''+'');
          body = (if neg \<or> pos then tl t else t)
      in case read_digits body of
           None \<Rightarrow> Inl (Invalid_argument ''stoi'')
         | Some n \<Rightarrow> (let v = (if neg then - int n else int n)
                      in if int32_range v then Inr v else Inl (Out_of_range ''stoi'')))"

section \<open>Laws\<close>

lemma digit_char_numerals [simp]:
  "digit_char 0 = CHR ''0''" "digit_char 1 = CHR ''1''" "digit_char (Suc 0) = CHR ''1''" "digit_char 2 = CHR ''2''"
  "digit_char 3 = CHR ''3''" "digit_char 4 = CHR ''4''" "digit_char 5 = CHR ''5''" "digit_char 6 = CHR ''6''"
  "digit_char 7 = CHR ''7''" "digit_char 8 = CHR ''8''" "digit_char 9 = CHR ''9''"
  by code_simp+

lemma of_char_digit_char: "d < 10 \<Longrightarrow> (of_char (digit_char d) :: nat) = 48 + d"
  by (simp add: digit_char_def take_bit_nat_eq_self)

lemma is_digit_digit_char [simp]: "d < 10 \<Longrightarrow> is_digit (digit_char d)"
  by (simp add: is_digit_def of_char_digit_char)

lemma digit_val_digit_char [simp]: "d < 10 \<Longrightarrow> digit_val (digit_char d) = d"
  by (simp add: digit_val_def of_char_digit_char)

lemma nat_to_string_not_Nil [simp]: "nat_to_string n \<noteq> []"
  by (subst nat_to_string.simps) simp

lemma nat_to_string_digits: "list_all is_digit (nat_to_string n)"
proof (induction n rule: nat_to_string.induct)
  case (1 n)
  then show ?case by (subst nat_to_string.simps) (auto simp: list_all_iff)
qed

lemma nat_to_string_set: "c \<in> set (nat_to_string n) \<Longrightarrow> is_digit c"
  using nat_to_string_digits[of n] by (simp add: list_all_iff)

lemma digits_val_snoc: "digits_val (ds @ [c]) = 10 * digits_val ds + digit_val c"
  by (simp add: digits_val_def)

lemma digits_val_nat_to_string [simp]: "digits_val (nat_to_string n) = n"
proof (induction n rule: nat_to_string.induct)
  case (1 n)
  show ?case
  proof (cases "n < 10")
    case True
    then show ?thesis by (subst nat_to_string.simps) (simp add: digits_val_def)
  next
    case False
    with 1 show ?thesis by (subst nat_to_string.simps) (simp add: digits_val_snoc)
  qed
qed

lemma nat_to_string_inj: "nat_to_string m = nat_to_string n \<longleftrightarrow> m = n"
  by (metis digits_val_nat_to_string)

lemma takeWhile_nat_to_string:
  "(case rest of [] \<Rightarrow> True | c # _ \<Rightarrow> \<not> is_digit c) \<Longrightarrow>
   takeWhile is_digit (nat_to_string n @ rest) = nat_to_string n"
  by (subst takeWhile_append2) (auto dest: nat_to_string_set split: list.splits)

lemma read_digits_nat_to_string:
  "(case rest of [] \<Rightarrow> True | c # _ \<Rightarrow> \<not> is_digit c) \<Longrightarrow>
   read_digits (nat_to_string n @ rest) = Some n"
  by (simp add: read_digits_def takeWhile_nat_to_string Let_def)

lemma hd_nat_to_string_digit: "is_digit (hd (nat_to_string n))"
  by (rule nat_to_string_set[of _ n]) simp

lemma not_is_digit_minus [simp]: "\<not> is_digit (CHR ''-'')" "\<not> is_digit (CHR ''+'')" "\<not> is_digit (CHR ''='')"
  "\<not> is_digit (CHR 0x01)"
  by (simp_all add: is_digit_def)

lemma is_digit_not_space: "is_digit c \<Longrightarrow> \<not> is_space c"
  by (auto simp: is_digit_def is_space_def)

lemma hd_nat_to_string_append: "hd (nat_to_string n @ rest) = hd (nat_to_string n)"
  by simp

lemma hd_nat_to_string_sign: "hd (nat_to_string n) \<noteq> CHR ''-''" "hd (nat_to_string n) \<noteq> CHR ''+''"
  using hd_nat_to_string_digit[of n] by auto

lemma from_chars_nat_to_string:
  assumes "int n < 2 ^ 31" "case rest of [] \<Rightarrow> True | c # _ \<Rightarrow> \<not> is_digit c"
  shows "from_chars_int (nat_to_string n @ rest) = Some (int n)"
  using assms
  by (simp add: from_chars_int_def hd_nat_to_string_sign read_digits_nat_to_string int32_range_def Let_def)

lemma stoi_nat_to_string:
  assumes "int n < 2 ^ 31"
  shows "stoi (nat_to_string n) = Inr (int n)"
proof -
  have "dropWhile is_space (nat_to_string n) = nat_to_string n"
    using hd_nat_to_string_digit[of n]
    by (cases "nat_to_string n") (auto dest: is_digit_not_space)
  with assms show ?thesis
    using read_digits_nat_to_string[of "[]" n]
    by (simp add: stoi_def hd_nat_to_string_sign int32_range_def Let_def)
qed

lemma from_chars_int_to_string:
  assumes "int32_range i" "case rest of [] \<Rightarrow> True | c # _ \<Rightarrow> \<not> is_digit c"
  shows "from_chars_int (int_to_string i @ rest) = Some i"
proof (cases "i < 0")
  case True
  then have "from_chars_int (int_to_string i @ rest) =
      (if int32_range (- int (nat (- i))) then Some (- int (nat (- i))) else None)"
    using assms(2) by (simp add: from_chars_int_def int_to_string_def read_digits_nat_to_string Let_def)
  with True assms(1) show ?thesis by simp
next
  case False
  with assms show ?thesis
    using from_chars_nat_to_string[of "nat i" rest] by (simp add: int_to_string_def int32_range_def)
qed

lemma stoi_range: "stoi s = Inr i \<Longrightarrow> int32_range i"
  by (auto simp: stoi_def Let_def split: option.splits if_splits)

lemma from_chars_int_range: "from_chars_int s = Some i \<Longrightarrow> int32_range i"
  by (auto simp: from_chars_int_def Let_def split: option.splits if_splits)

lemma int_to_string_no_sep: "CHR ''='' \<notin> set (int_to_string i)" "CHR 0x01 \<notin> set (int_to_string i)"
  by (auto simp: int_to_string_def dest!: nat_to_string_set)

lemma length_nat_to_string_le:
  assumes "0 < k"
  shows "length (nat_to_string n) \<le> k \<longleftrightarrow> n < 10 ^ k"
  using assms
proof (induction n arbitrary: k rule: nat_to_string.induct)
  case (1 n)
  show ?case
  proof (cases "n < 10")
    case True
    with 1(2) show ?thesis
      by (subst nat_to_string.simps) (cases k; simp add: order_less_le_trans[of n 10])
  next
    case False
    show ?thesis
    proof (cases "k = 1")
      case True
      with False show ?thesis
        by (subst nat_to_string.simps) (simp add: Suc_le_eq)
    next
      case neq: False
      with 1(2) obtain j where k: "k = Suc j" "0 < j" by (cases k) auto
      with False 1(1)[of j] have "length (nat_to_string n) \<le> k \<longleftrightarrow> n div 10 < 10 ^ j"
        by (subst nat_to_string.simps) simp
      also have "\<dots> \<longleftrightarrow> n < 10 ^ k"
        using k by (simp add: less_mult_imp_div_less div_less_iff_less_mult mult.commute)
      finally show ?thesis .
    qed
  qed
qed

end
