(* ===== verification/Dictionary.thy ===== *)
theory Dictionary
  imports Std_Convert
begin

text \<open>
  \<open>libcrocofixdictionary\<close>: the metadata classes the generated FIX dictionaries are made of, the
  field table indexed by tag (\<open>orchestration_field_collection\<close>), the message table
  (\<open>message_collection\<close>), and the table layout that \<open>lexicographer\<close> emits for it. The contents of
  the tables come from the build; here they are arguments.
\<close>

section \<open>Metadata\<close>

record field_value =
  fv_name :: string
  fv_value :: string

record pedigree =
  added :: string
  addedEP :: string
  updated :: string
  updatedEP :: string
  deprecated :: string
  deprecatedEP :: string

datatype presence = Presence_required | Presence_optional | Presence_forbidden
  | Presence_ignored | Presence_constant

record orchestration_field =
  of_tag :: int
  of_is_data :: bool
  of_name :: string
  of_type :: string
  of_synopsis :: string
  of_pedigree :: pedigree
  of_values :: "field_value list"

text \<open>\<open>boost::algorithm::to_lower\<close> is the argument \<open>to_lower\<close>.\<close>

definition orchestration_field_is_numeric :: "(string \<Rightarrow> string) \<Rightarrow> orchestration_field \<Rightarrow> bool" where
  "orchestration_field_is_numeric to_lower f \<longleftrightarrow>
     to_lower (of_type f) \<in> {''int'', ''length'', ''tagnum'', ''seqnum'', ''numingroup'',
       ''float'', ''qty'', ''price'', ''priceoffset'', ''amt'', ''percentage''}"

definition orchestration_field_is_valid :: "orchestration_field \<Rightarrow> bool" where
  "orchestration_field_is_valid f \<longleftrightarrow> 0 < of_tag f"

definition orchestration_field_name_of_value :: "orchestration_field \<Rightarrow> string \<Rightarrow> string" where
  "orchestration_field_name_of_value f v =
     (case List.find (\<lambda>d. fv_value d = v) (of_values f) of None \<Rightarrow> '''' | Some d \<Rightarrow> fv_name d)"

record message_field =
  mf_field :: orchestration_field
  mf_presence :: presence
  mf_depth :: nat

record dictionary_message =
  dm_name :: string
  dm_msg_type :: string
  dm_category :: string
  dm_synopsis :: string
  dm_pedigree :: pedigree
  dm_fields :: "message_field list"

section \<open>The field table\<close>

record orchestration_field_collection =
  m_field_offsets :: "u16 list"
  m_of_fields :: "orchestration_field list"
  m_fields_by_name :: "(string \<times> orchestration_field) list"

text \<open>\<open>std::map::emplace\<close> keeps the entry that is already there.\<close>

fun emplace_all :: "('k \<times> 'v) list \<Rightarrow> ('k \<times> 'v) list \<Rightarrow> ('k \<times> 'v) list" where
  "emplace_all m [] = m"
| "emplace_all m ((k, v) # kvs) =
     emplace_all (if map_of m k = None then m @ [(k, v)] else m) kvs"

definition make_orchestration_field_collection ::
  "u16 list \<Rightarrow> orchestration_field list \<Rightarrow> exn + orchestration_field_collection" where
  "make_orchestration_field_collection offsets fs =
     (if length offsets < length fs then
        Inl (Invalid_argument (''field_offsets.size() '' @ nat_to_string (length offsets) @
               '' must be >= fields.size()'' @ nat_to_string (length fs)))
      else if fs = [] then Inl (Undefined_behaviour ''rbegin of an empty vector'')
      else if of_tag (last fs) > 65535 then
        Inl (Invalid_argument (''the maximum field tag '' @ int_to_string (of_tag (last fs)) @
               '' is too large for the field offset type to represent''))
      else Inr \<lparr> m_field_offsets = offsets, m_of_fields = fs,
                 m_fields_by_name = emplace_all [] (map (\<lambda>f. (of_name f, f)) fs) \<rparr>)"

text \<open>The lookup shared by \<open>operator[]\<close>, \<open>name_of_field\<close> and \<open>name_of_value\<close>.\<close>

definition find_field :: "orchestration_field_collection \<Rightarrow> u64 \<Rightarrow> orchestration_field option" where
  "find_field c tag =
     (if unat tag < length (m_field_offsets c) then
        (let offset = unat (m_field_offsets c ! unat tag)
         in if offset < length (m_of_fields c) then Some (m_of_fields c ! offset) else None)
      else None)"

definition field_at :: "orchestration_field_collection \<Rightarrow> u64 \<Rightarrow> exn + orchestration_field" where
  "field_at c tag =
     (case find_field c tag of
        Some f \<Rightarrow> Inr f
      | None \<Rightarrow> Inl (Out_of_range (u64_to_string tag @ '' exceeds the highest tag number '' @
                       int_to_string (of_tag (last (m_of_fields c))))))"

definition field_named :: "orchestration_field_collection \<Rightarrow> string \<Rightarrow> exn + orchestration_field" where
  "field_named c name =
     (case map_of (m_fields_by_name c) name of
        Some f \<Rightarrow> Inr f
      | None \<Rightarrow> Inl (Out_of_range (''no field with name '' @ [CHR 0x27] @ name @ [CHR 0x27])))"

definition name_of_field :: "orchestration_field_collection \<Rightarrow> u64 \<Rightarrow> string" where
  "name_of_field c tag = (case find_field c tag of None \<Rightarrow> '''' | Some f \<Rightarrow> of_name f)"

definition name_of_value :: "orchestration_field_collection \<Rightarrow> u64 \<Rightarrow> string \<Rightarrow> string" where
  "name_of_value c tag v =
     (case find_field c tag of None \<Rightarrow> '''' | Some f \<Rightarrow> orchestration_field_name_of_value f v)"

section \<open>The message table and the orchestration\<close>

record message_collection =
  m_messages :: "dictionary_message list"
  m_messages_by_msg_type :: "string \<rightharpoonup> dictionary_message"

definition make_message_collection :: "dictionary_message list \<Rightarrow> message_collection" where
  "make_message_collection ms =
     \<lparr> m_messages = ms,
       m_messages_by_msg_type = foldl (\<lambda>t m. t(dm_msg_type m \<mapsto> m)) (\<lambda>_. None) ms \<rparr>"

definition message_of_type :: "message_collection \<Rightarrow> string \<Rightarrow> exn + dictionary_message" where
  "message_of_type c t =
     (case m_messages_by_msg_type c t of
        Some m \<Rightarrow> Inr m
      | None \<Rightarrow> Inl (Out_of_range (''unknown msg_type '' @ t)))"

definition name_of_message :: "message_collection \<Rightarrow> string \<Rightarrow> string" where
  "name_of_message c t = (case m_messages_by_msg_type c t of None \<Rightarrow> '''' | Some m \<Rightarrow> dm_name m)"

record orchestration =
  o_messages :: message_collection
  o_fields :: orchestration_field_collection

definition is_field_defined :: "orchestration \<Rightarrow> u64 \<Rightarrow> exn + bool" where
  "is_field_defined orch tag =
     (case field_at (o_fields orch) tag of Inl e \<Rightarrow> Inl e | Inr f \<Rightarrow> Inr (orchestration_field_is_valid f))"

section \<open>The generated layout\<close>

text \<open>
  \<open>orchestration_fields_generator.py\<close> writes the offset table and the field list of
  \<open>fields()\<close>: for the fields in ascending tag order, a 0 for each unused tag and otherwise the
  position of the field in the list, whose position 0 holds a dummy. \<open>field_limit\<close> is the
  generator's cut-off: it stops after the field that follows the 3000th.
\<close>

fun generate_offsets :: "nat \<Rightarrow> int \<Rightarrow> nat list \<Rightarrow> int list" where
  "generate_offsets index offset [] = []"
| "generate_offsets index offset (t # ts) =
     replicate (t - index) 0 @
     (let index' = max index t; offset' = offset + int (t - index)
      in (int index' - offset') # generate_offsets (Suc index') offset' ts)"

definition field_limit :: nat where
  "field_limit = 3001"

definition generate_field_list :: "orchestration_field \<Rightarrow> orchestration_field list \<Rightarrow> orchestration_field list" where
  "generate_field_list dummy fs = dummy # take field_limit fs"

end
