(* ===== verification/Dictionary_Lookup.thy ===== *)
theory Dictionary_Lookup
  imports Dictionary
begin

text \<open>
  The table that \<open>lexicographer/orchestration_fields_generator.py\<close> writes and the lookup by tag of
  \<open>orchestration_field_collection\<close> fit together, up to the generator's cut-off.
\<close>

section \<open>The offset table\<close>

lemma generate_offsets_length:
  "sorted_wrt (<) ts \<Longrightarrow> \<forall>t \<in> set ts. index \<le> t \<Longrightarrow>
   length (generate_offsets index offset ts) = (if ts = [] then 0 else Suc (last ts) - index)"
proof (induction ts arbitrary: index offset)
  case (Cons t ts)
  then have t: "\<forall>u \<in> set ts. Suc t \<le> u" "max index t = t" "index \<le> t" by auto
  have l: "length (generate_offsets (Suc t) o' ts) = (if ts = [] then 0 else Suc (last ts) - Suc t)" for o'
    using Cons t by (intro Cons.IH) auto
  show ?case
  proof (cases "ts = []")
    case False
    then have "Suc t \<le> last ts" using t(1) by simp
    then have "Suc (t + (last ts - t) - index) = Suc (last ts) - index" using t(3) by linarith
    with t(2,3) l False show ?thesis by (simp add: Let_def)
  qed (use t in \<open>simp add: Let_def Suc_diff_le\<close>)
qed simp

lemma generate_offsets_at_tag:
  "sorted_wrt (<) ts \<Longrightarrow> \<forall>t \<in> set ts. index \<le> t \<Longrightarrow> i < length ts \<Longrightarrow>
   generate_offsets index offset ts ! (ts ! i - index) = int index - offset + int i"
proof (induction ts arbitrary: index offset i)
  case (Cons t ts)
  then have t: "\<forall>u \<in> set ts. Suc t \<le> u" "max index t = t" "index \<le> t" by auto
  show ?case
  proof (cases i)
    case 0
    with t show ?thesis by (simp add: Let_def nth_append)
  next
    case (Suc j)
    with Cons.prems have j: "j < length ts" by simp
    then have "Suc t \<le> ts ! j" using t by auto
    then have "ts ! j - index - (t - index) = Suc (ts ! j - Suc t)" "\<not> ts ! j - index < t - index" using t by auto
    with Suc t Cons.IH[of "Suc t" j "offset + int (t - index)"] Cons.prems j show ?thesis
      by (simp add: Let_def nth_append)
  qed
qed simp

lemma generate_offsets_elsewhere:
  "sorted_wrt (<) ts \<Longrightarrow> \<forall>t \<in> set ts. index \<le> t \<Longrightarrow> p < length (generate_offsets index offset ts) \<Longrightarrow>
   index + p \<notin> set ts \<Longrightarrow> generate_offsets index offset ts ! p = 0"
proof (induction ts arbitrary: index offset p)
  case (Cons t ts)
  then have t: "\<forall>u \<in> set ts. Suc t \<le> u" "max index t = t" "index \<le> t" by auto
  show ?case
  proof (cases "p < t - index")
    case True
    with t show ?thesis by (simp add: Let_def nth_append)
  next
    case False
    with Cons.prems t obtain q where q: "p - (t - index) = Suc q" "Suc t + q = index + p"
      by (cases "p - (t - index)") auto
    with False t Cons.IH[of "Suc t" q "offset + int (t - index)"] Cons.prems show ?thesis
      by (auto simp: Let_def nth_append)
  qed
qed simp

section \<open>Lookup\<close>

text \<open>The collection that the generated \<open>fields()\<close> constructs.\<close>

definition generated_fields :: "orchestration_field \<Rightarrow> orchestration_field list \<Rightarrow> orchestration_field_collection" where
  "generated_fields dummy fs =
     \<lparr> m_field_offsets = map of_int (generate_offsets 0 (- 1) (map (\<lambda>f. nat (of_tag f)) fs)),
       m_of_fields = generate_field_list dummy fs,
       m_fields_by_name = emplace_all [] (map (\<lambda>f. (of_name f, f)) (generate_field_list dummy fs)) \<rparr>"

lemma tag_word: "0 \<le> t \<Longrightarrow> t \<le> 65535 \<Longrightarrow> unat (word_of_int t :: u64) = nat t"
  by (simp add: unsigned_of_int take_bit_int_eq_self)

lemma offset_word: "n < 65536 \<Longrightarrow> unat (of_int (int n) :: u16) = n"
  by (simp add: unsigned_of_nat take_bit_nat_eq_self)

lemma generated_tags_ascend:
  assumes "sorted_wrt (<) (map of_tag fs)" "\<forall>f \<in> set fs. 0 < of_tag f \<and> of_tag f \<le> 65535"
  shows "sorted_wrt (<) (map (\<lambda>f. nat (of_tag f)) fs)"
  using assms by (auto simp: sorted_wrt_map elim!: sorted_wrt_mono_rel[rotated])

lemma generated_field_found:
  assumes asc: "sorted_wrt (<) (map of_tag fs)" and pos: "\<forall>f \<in> set fs. 0 < of_tag f \<and> of_tag f \<le> 65535"
    and small: "length fs < 65536" and i: "i < length fs"
  shows "find_field (generated_fields dummy fs) (word_of_int (of_tag (fs ! i))) = (if i < field_limit then Some (fs ! i) else None)"
proof -
  let ?ts = "map (\<lambda>f. nat (of_tag f)) fs"
  let ?o = "generate_offsets 0 (- 1) ?ts"
  note s = generated_tags_ascend[OF asc pos]
  note len = generate_offsets_length[OF s, of 0 "- 1"]
  have m: "fs ! i \<in> set fs" using i by simp
  have v: "?o ! nat (of_tag (fs ! i)) = int (Suc i)" using generate_offsets_at_tag[OF s, of 0 i "- 1"] i by simp
  have "of_tag (fs ! i) \<le> of_tag (last fs)"
  proof (cases "i = length fs - 1")
    case True
    with i last_conv_nth[of fs] show ?thesis by (cases fs) auto
  next
    case False
    then have "i < length fs - 1" "fs \<noteq> []" using i by auto
    with sorted_wrt_nth_less[OF asc, of i "length fs - 1"] last_conv_nth[of fs] show ?thesis by simp
  qed
  then have b: "nat (of_tag (fs ! i)) < length ?o" using len i by (auto simp: last_map)
  have w: "unat (word_of_int (of_tag (fs ! i)) :: u64) = nat (of_tag (fs ! i))"
    using bspec[OF pos m] by (intro tag_word) auto
  have "unat (of_int (int (Suc i)) :: u16) = Suc i" using i small by (intro offset_word) simp
  then have "unat (m_field_offsets (generated_fields dummy fs) ! nat (of_tag (fs ! i))) = Suc i"
    using v b by (simp add: generated_fields_def del: of_nat_Suc)
  with w b i show ?thesis
    by (simp add: find_field_def Let_def) (simp add: generated_fields_def generate_field_list_def)
qed

lemma generated_offsets_length:
  assumes "sorted_wrt (<) (map of_tag fs)" "\<forall>f \<in> set fs. 0 < of_tag f \<and> of_tag f \<le> 65535" "fs \<noteq> []"
  shows "length (m_field_offsets (generated_fields dummy fs)) = Suc (nat (of_tag (last fs)))" "of_tag (last fs) \<le> 65535" "0 < of_tag (last fs)"
  using generate_offsets_length[OF generated_tags_ascend[OF assms(1,2)], of 0 "- 1"] assms(3) bspec[OF assms(2) last_in_set[OF assms(3)]]
  by (simp_all add: generated_fields_def last_map)

lemma generated_tag_unused:
  assumes asc: "sorted_wrt (<) (map of_tag fs)" and pos: "\<forall>f \<in> set fs. 0 < of_tag f \<and> of_tag f \<le> 65535"
    and t: "0 \<le> t" "t \<notin> of_tag ` set fs" "fs \<noteq> []" "t < of_tag (last fs)"
  shows "find_field (generated_fields dummy fs) (word_of_int t) = Some dummy"
proof -
  let ?ts = "map (\<lambda>f. nat (of_tag f)) fs"
  note s = generated_tags_ascend[OF asc pos] and len = generated_offsets_length[OF asc pos t(3)]
  have "nat t \<notin> set ?ts" using t pos by (force simp: nat_eq_iff)
  moreover have l: "nat t < length (generate_offsets 0 (- 1) ?ts)" using len t(1,4) by (simp add: generated_fields_def)
  ultimately have "generate_offsets 0 (- 1) ?ts ! nat t = 0" using generate_offsets_elsewhere[OF s, of 0 "nat t" "- 1"] by simp
  then show ?thesis
    using l len t(1,4) tag_word[of t] by (simp add: find_field_def generated_fields_def generate_field_list_def Let_def)
qed

text \<open>
  C39: for fields in ascending tag order, none above 65535 and fewer than 65536 of them, the
  lookup by tag in the generated collection returns the field with that tag if it is one of the
  first 3001, and fails for every field after them; an unused tag below the highest leads to the
  dummy field.
\<close>

theorem generated_table_lookup:
  assumes asc: "sorted_wrt (<) (map of_tag fs)" and pos: "\<forall>f \<in> set fs. 0 < of_tag f \<and> of_tag f \<le> 65535"
    and small: "length fs < 65536"
  shows "(\<forall>i < length fs. find_field (generated_fields dummy fs) (word_of_int (of_tag (fs ! i))) =
       (if i < field_limit then Some (fs ! i) else None)) \<and>
    (\<forall>t. 0 \<le> t \<longrightarrow> t \<notin> of_tag ` set fs \<longrightarrow> fs \<noteq> [] \<longrightarrow> t < of_tag (last fs) \<longrightarrow>
       find_field (generated_fields dummy fs) (word_of_int t) = Some dummy)"
  using generated_field_found[OF asc pos small] generated_tag_unused[OF asc pos] by blast

definition tagged_field :: "int \<Rightarrow> orchestration_field" where
  "tagged_field t = \<lparr> of_tag = t, of_is_data = False, of_name = ''Sample'', of_type = ''String'', of_synopsis = [],
     of_pedigree = \<lparr> added = [], addedEP = [], updated = [], updatedEP = [], deprecated = [], deprecatedEP = [] \<rparr>, of_values = [] \<rparr>"

theorem generated_table_lookup_witness:
  "find_field (generated_fields (tagged_field 0) [tagged_field 7]) 7 = Some (tagged_field 7) \<and>
   find_field (generated_fields (tagged_field 0) [tagged_field 7]) 3 = Some (tagged_field 0)"
proof -
  have "of_tag (tagged_field 7) = 7" by (simp add: tagged_field_def)
  then show ?thesis
    using generated_table_lookup[of "[tagged_field 7]" "tagged_field 0"] by (auto simp: field_limit_def dest: spec[of _ 3])
qed

end
