(* ===== verification/Field.thy ===== *)
theory Field
  imports Std_Convert Dictionary
begin

text \<open>
  \<open>libcrocofix/field.cppm\<close>, \<open>field.cpp\<close>: a tag and its value as text, the constructors (each
  renders its argument), and the time stamp text. The broken-down UTC time that \<open>gmtime_r\<close>
  and the system clock deliver is an argument of \<open>timestamp_string\<close>. The \<open>double\<close> overload,
  whose text is fixed by \<open>std::to_string(double)\<close>, is not modelled.
\<close>

record field =
  m_tag :: int
  m_value :: string

definition field_string :: "int \<Rightarrow> string \<Rightarrow> field" where
  "field_string tag v = \<lparr> m_tag = tag, m_value = v \<rparr>"

definition field_field_value :: "int \<Rightarrow> field_value \<Rightarrow> field" where
  "field_field_value tag v = field_string tag (fv_value v)"

definition field_bool :: "int \<Rightarrow> bool \<Rightarrow> field" where
  "field_bool tag v = field_string tag (if v then ''Y'' else ''N'')"

definition field_int :: "int \<Rightarrow> int \<Rightarrow> field" where
  "field_int tag v = field_string tag (int_to_string v)"

definition field_u32 :: "int \<Rightarrow> u32 \<Rightarrow> field" where
  "field_u32 tag v = field_string tag (u32_to_string v)"

text \<open>A \<open>uint8_t\<close> and a \<open>uint16_t\<close> are promoted to \<open>int\<close> before \<open>to_string\<close>.\<close>

definition field_u8 :: "int \<Rightarrow> u8 \<Rightarrow> field" where
  "field_u8 tag v = field_int tag (uint v)"

definition field_u16 :: "int \<Rightarrow> u16 \<Rightarrow> field" where
  "field_u16 tag v = field_int tag (uint v)"

definition field_u64 :: "int \<Rightarrow> u64 \<Rightarrow> field" where
  "field_u64 tag v = field_string tag (u64_to_string v)"

text \<open>
  \<open>operator==\<close> and \<open>operator<\<close> compare the values only (the tags play no part); a comparison
  with a dictionary value does the same.
\<close>

definition field_eq :: "field \<Rightarrow> field \<Rightarrow> bool" where
  "field_eq a b \<longleftrightarrow> m_value a = m_value b"

definition field_eq_value :: "field \<Rightarrow> string \<Rightarrow> bool" where
  "field_eq_value a v \<longleftrightarrow> m_value a = v"

section \<open>Time stamps\<close>

datatype timestamp_format = Seconds | Milliseconds

record utc_time =
  tm_year :: nat
  tm_mon :: nat
  tm_mday :: nat
  tm_hour :: nat
  tm_min :: nat
  tm_sec :: nat
  tm_millis :: nat

definition zero_pad :: "nat \<Rightarrow> string \<Rightarrow> string" where
  "zero_pad w s = replicate (w - length s) (CHR ''0'') @ s"

text \<open>\<open>seconds_format\<close>: \<open>%Y%m%d-%H:%M:%S\<close>.\<close>

definition seconds_text :: "utc_time \<Rightarrow> string" where
  "seconds_text t =
     nat_to_string (tm_year t) @ zero_pad 2 (nat_to_string (tm_mon t)) @
     zero_pad 2 (nat_to_string (tm_mday t)) @ ''-'' @ zero_pad 2 (nat_to_string (tm_hour t)) @ '':'' @
     zero_pad 2 (nat_to_string (tm_min t)) @ '':'' @ zero_pad 2 (nat_to_string (tm_sec t))"

fun timestamp_string :: "timestamp_format \<Rightarrow> utc_time \<Rightarrow> string" where
  "timestamp_string Seconds t = seconds_text t"
| "timestamp_string Milliseconds t =
     seconds_text t @ ''.'' @ zero_pad 3 (nat_to_string (tm_millis t))"

lemma field_ctor_simps [simp]:
  "m_tag (field_string t v) = t" "m_value (field_string t v) = v"
  "m_tag (field_bool t b) = t" "m_value (field_bool t b) = (if b then ''Y'' else ''N'')"
  "m_tag (field_u32 t w) = t" "m_value (field_u32 t w) = u32_to_string w"
  "m_tag (field_u64 t x) = t" "m_value (field_u64 t x) = u64_to_string x"
  "m_tag (field_int t i) = t" "m_value (field_int t i) = int_to_string i"
  "m_tag (field_field_value t fv) = t" "m_value (field_field_value t fv) = fv_value fv"
  by (simp_all add: field_string_def field_bool_def field_u32_def field_u64_def field_int_def
      field_field_value_def)

lemma length_zero_pad: "length (zero_pad w s) = max w (length s)"
  by (simp add: zero_pad_def)

lemma set_zero_pad: "set (zero_pad w s) \<subseteq> insert (CHR ''0'') (set s)"
  by (auto simp: zero_pad_def)

end
