(* ===== verification/Field_Collection.thy ===== *)
theory Field_Collection
  imports Field
begin

text \<open>
  \<open>libcrocofix/field_collection.cppm\<close>, \<open>field_collection.cpp\<close>: a vector of fields searched by tag,
  first occurrence first. The collection is modelled by its list of fields. The interface
  \<open>field_store\<close> states what clients of the collection rely on.
\<close>

type_synonym field_collection = "field list"

datatype set_operation = Replace_first | Replace_first_or_append | Append
datatype remove_operation = Remove_first | Remove_all

abbreviation has_tag :: "int \<Rightarrow> field \<Rightarrow> bool" where
  "has_tag t f \<equiv> m_tag f = t"

section \<open>Operations\<close>

text \<open>The set methods return whether a field was added or updated.\<close>

definition fc_set :: "field \<Rightarrow> set_operation \<Rightarrow> field_collection \<Rightarrow> bool \<times> field_collection" where
  "fc_set f operation fs =
     (if operation = Append then (True, fs @ [f])
      else case List.find (has_tag (m_tag f)) fs of
             None \<Rightarrow> (if operation = Replace_first_or_append then (True, fs @ [f]) else (False, fs))
           | Some _ \<Rightarrow> (True, replace_first (has_tag (m_tag f)) f fs))"

definition fc_set_string :: "int \<Rightarrow> string \<Rightarrow> set_operation \<Rightarrow> field_collection \<Rightarrow> bool \<times> field_collection" where
  "fc_set_string tag v operation fs = fc_set (field_string tag v) operation fs"

definition fc_set_u32 :: "int \<Rightarrow> u32 \<Rightarrow> set_operation \<Rightarrow> field_collection \<Rightarrow> bool \<times> field_collection" where
  "fc_set_u32 tag v operation fs = fc_set_string tag (u32_to_string v) operation fs"

definition fc_set_u64 :: "int \<Rightarrow> u64 \<Rightarrow> set_operation \<Rightarrow> field_collection \<Rightarrow> bool \<times> field_collection" where
  "fc_set_u64 tag v operation fs = fc_set_string tag (u64_to_string v) operation fs"

definition fc_set_i64 :: "int \<Rightarrow> int \<Rightarrow> set_operation \<Rightarrow> field_collection \<Rightarrow> bool \<times> field_collection" where
  "fc_set_i64 tag v operation fs = fc_set_string tag (int_to_string v) operation fs"

definition fc_set_bool :: "int \<Rightarrow> bool \<Rightarrow> set_operation \<Rightarrow> field_collection \<Rightarrow> bool \<times> field_collection" where
  "fc_set_bool tag v operation fs = fc_set_string tag (if v then ''Y'' else ''N'') operation fs"

definition fc_set_field_value :: "int \<Rightarrow> field_value \<Rightarrow> set_operation \<Rightarrow> field_collection \<Rightarrow> bool \<times> field_collection" where
  "fc_set_field_value tag v operation fs = fc_set_string tag (fv_value v) operation fs"

definition fc_try_get :: "int \<Rightarrow> field_collection \<Rightarrow> field option" where
  "fc_try_get tag fs = List.find (has_tag tag) fs"

definition fc_get :: "int \<Rightarrow> field_collection \<Rightarrow> exn + field" where
  "fc_get tag fs =
     (case fc_try_get tag fs of
        None \<Rightarrow> Inl (Out_of_range (''field collection does not contain a field with Tag '' @ int_to_string tag))
      | Some f \<Rightarrow> Inr f)"

definition fc_try_get_or_default :: "int \<Rightarrow> field \<Rightarrow> field_collection \<Rightarrow> field" where
  "fc_try_get_or_default tag default_value fs =
     (case fc_try_get tag fs of Some f \<Rightarrow> f | None \<Rightarrow> default_value)"

definition fc_try_get_or_default_string :: "int \<Rightarrow> string \<Rightarrow> field_collection \<Rightarrow> field" where
  "fc_try_get_or_default_string tag default_value fs =
     (case fc_try_get tag fs of Some f \<Rightarrow> f | None \<Rightarrow> field_string tag default_value)"

definition fc_try_get_or_default_u32 :: "int \<Rightarrow> u32 \<Rightarrow> field_collection \<Rightarrow> field" where
  "fc_try_get_or_default_u32 tag default_value fs =
     (case fc_try_get tag fs of Some f \<Rightarrow> f | None \<Rightarrow> field_u32 tag default_value)"

definition fc_try_get_or_default_field_value :: "int \<Rightarrow> field_value \<Rightarrow> field_collection \<Rightarrow> field" where
  "fc_try_get_or_default_field_value tag default_value fs =
     (case fc_try_get tag fs of Some f \<Rightarrow> f | None \<Rightarrow> field_field_value tag default_value)"

definition fc_get_bool :: "int \<Rightarrow> field_collection \<Rightarrow> exn + bool" where
  "fc_get_bool tag fs =
     (case List.find (has_tag tag) fs of
        None \<Rightarrow> Inr False
      | Some f \<Rightarrow>
          (if m_value f = ''Y'' then Inr True
           else if m_value f = ''N'' then Inr False
           else Inl (Runtime_error (''field does not contain a valid boolean value '' @
                       int_to_string (m_tag f) @ ''='' @ m_value f))))"

definition fc_remove :: "int \<Rightarrow> remove_operation \<Rightarrow> field_collection \<Rightarrow> bool \<times> field_collection" where
  "fc_remove tag operation fs =
     (case operation of
        Remove_first \<Rightarrow>
          (case List.find (has_tag tag) fs of None \<Rightarrow> (False, fs) | Some _ \<Rightarrow> (True, erase_first (has_tag tag) fs))
      | Remove_all \<Rightarrow>
          (let kept = filter (\<lambda>f. \<not> has_tag tag f) fs
           in if length kept = length fs then (False, fs) else (True, kept)))"

text \<open>\<open>for (const auto& field : fields) m_fields.set(field, replace_first_or_append)\<close>.\<close>

fun fc_set_all :: "field list \<Rightarrow> field_collection \<Rightarrow> field_collection" where
  "fc_set_all [] fs = fs"
| "fc_set_all (f # gs) fs = fc_set_all gs (snd (fc_set f Replace_first_or_append fs))"

abbreviation tags :: "field_collection \<Rightarrow> int list" where
  "tags fs \<equiv> map m_tag fs"

abbreviation fc_upsert :: "field \<Rightarrow> field_collection \<Rightarrow> field_collection" where
  "fc_upsert f fs \<equiv> snd (fc_set f Replace_first_or_append fs)"

abbreviation fc_replace :: "field \<Rightarrow> field_collection \<Rightarrow> field_collection" where
  "fc_replace f fs \<equiv> snd (fc_set f Replace_first fs)"

section \<open>What clients rely on\<close>

text \<open>
  A store of fields by tag, as messages, orders and sessions use it: \<open>upsert\<close> and \<open>replace\<close>
  change what is found under the tag of their argument and under no other tag, and \<open>replace\<close>
  adds nothing.
\<close>

locale field_store =
  fixes upsert :: "field \<Rightarrow> 'c \<Rightarrow> 'c"
    and replace :: "field \<Rightarrow> 'c \<Rightarrow> 'c"
    and look :: "int \<Rightarrow> 'c \<Rightarrow> field option"
  assumes look_upsert: "look t (upsert f c) = (if t = m_tag f then Some f else look t c)"
    and look_replace: "look t (replace f c) = (if t = m_tag f \<and> look t c \<noteq> None then Some f else look t c)"
begin

lemma look_fold_upsert_other:
  "t \<notin> m_tag ` set fs \<Longrightarrow> look t (fold upsert fs c) = look t c"
  by (induction fs arbitrary: c) (auto simp: look_upsert)

lemma look_fold_upsert:
  "look t (fold upsert fs c) =
     (case List.find (has_tag t) (rev fs) of None \<Rightarrow> look t c | Some f \<Rightarrow> Some f)"
proof (induction fs arbitrary: c)
  case Nil
  then show ?case by simp
next
  case (Cons f fs)
  then show ?case by (auto simp: look_upsert find_append split: option.splits)
qed

lemma look_replace_same: "look (m_tag f) c \<noteq> None \<Longrightarrow> look (m_tag f) (replace f c) = Some f"
  by (simp add: look_replace)

lemma look_replace_other: "t \<noteq> m_tag f \<Longrightarrow> look t (replace f c) = look t c"
  by (simp add: look_replace)

lemma look_replace_None: "look t (replace f c) = None \<longleftrightarrow> look t c = None"
  by (auto simp: look_replace)

lemma look_upsert_None: "look t (upsert f c) = None \<longleftrightarrow> t \<noteq> m_tag f \<and> look t c = None"
  by (simp add: look_upsert)

end

lemma find_tag_replace_other:
  "t \<noteq> m_tag f \<Longrightarrow> List.find (has_tag t) (replace_first (has_tag (m_tag f)) f fs) = List.find (has_tag t) fs"
  by (induction fs) auto

lemma tags_replace_first: "m_tag f = t \<Longrightarrow> tags (replace_first (has_tag t) f fs) = tags fs"
  by (induction fs) auto

lemma fc_try_get_upsert:
  "fc_try_get t (fc_upsert f fs) = (if t = m_tag f then Some f else fc_try_get t fs)"
  by (auto simp: fc_try_get_def fc_set_def find_append find_replace_first find_tag_replace_other
      split: option.splits)

lemma fc_try_get_replace:
  "fc_try_get t (fc_replace f fs) =
     (if t = m_tag f \<and> fc_try_get t fs \<noteq> None then Some f else fc_try_get t fs)"
  by (auto simp: fc_try_get_def fc_set_def find_replace_first find_tag_replace_other split: option.splits)

interpretation fc: field_store fc_upsert fc_replace fc_try_get
  by unfold_locales (rule fc_try_get_upsert, rule fc_try_get_replace)

lemma fc_set_all_fold: "fc_set_all gs fs = fold fc_upsert gs fs"
  by (induction gs arbitrary: fs) auto

lemma fc_try_get_tag: "fc_try_get t fs = Some f \<Longrightarrow> m_tag f = t"
  by (auto simp: fc_try_get_def find_Some_iff)

lemma fc_try_get_None_iff: "fc_try_get t fs = None \<longleftrightarrow> t \<notin> set (tags fs)"
  by (auto simp: fc_try_get_def find_None_iff)

lemma tags_fc_replace: "tags (fc_replace f fs) = tags fs"
  by (auto simp: fc_set_def tags_replace_first split: option.splits)

lemma tags_fc_upsert:
  "tags (fc_upsert f fs) = (if m_tag f \<in> set (tags fs) then tags fs else tags fs @ [m_tag f])"
  using fc_try_get_None_iff[of "m_tag f" fs]
  by (auto simp: fc_set_def fc_try_get_def tags_replace_first split: option.splits)

lemma fc_set_flag:
  "fst (fc_set f operation fs) \<longleftrightarrow> operation \<noteq> Replace_first \<or> m_tag f \<in> set (tags fs)"
  using fc_try_get_None_iff[of "m_tag f" fs]
  by (cases operation) (auto simp: fc_set_def fc_try_get_def split: option.splits)

lemma fc_set_Replace_first_conv:
  "fc_set f Replace_first fs = (m_tag f \<in> set (tags fs), replace_first (has_tag (m_tag f)) f fs)"
  using fc_try_get_None_iff[of "m_tag f" fs]
  by (auto simp: fc_set_def fc_try_get_def replace_first_id split: option.splits)

lemma fc_replace_restore:
  assumes "fc_try_get t fs = Some old"
  shows "fc_replace old (fc_replace (field_string t v) fs) = fs"
proof -
  from assms have "m_tag old = t" by (rule fc_try_get_tag)
  with assms show ?thesis
    by (simp add: fc_set_Replace_first_conv fc_try_get_def replace_first_twice replace_first_restore)
qed

lemma fc_remove_all_None: "fc_try_get tag (snd (fc_remove tag Remove_all fs)) = None"
  using length_filter_less[of _ fs "\<lambda>f. \<not> has_tag tag f"]
  by (auto simp: fc_remove_def fc_try_get_None_iff Let_def) fastforce

end
