(* ===== verification/Number_Of_Digits.thy ===== *)
theory Number_Of_Digits
  imports Std_Convert
begin

text \<open>
  \<open>libcrocofixutility/number_of_digits.cppm\<close>: the branch-free digit count, and its equivalence
  with the length of the decimal representation.
\<close>

definition number_of_digits :: "u64 \<Rightarrow> u32" where
  "number_of_digits value =
     1
     + of_bool (value \<ge> 10)
     + of_bool (value \<ge> 100)
     + of_bool (value \<ge> 1000)
     + of_bool (value \<ge> 10000)
     + of_bool (value \<ge> 100000)
     + of_bool (value \<ge> 1000000)
     + of_bool (value \<ge> 10000000)
     + of_bool (value \<ge> 100000000)
     + of_bool (value \<ge> 1000000000)
     + of_bool (value \<ge> 10000000000)
     + of_bool (value \<ge> 100000000000)
     + of_bool (value \<ge> 1000000000000)
     + of_bool (value \<ge> 10000000000000)
     + of_bool (value \<ge> 100000000000000)
     + of_bool (value \<ge> 1000000000000000)
     + of_bool (value \<ge> 10000000000000000)
     + of_bool (value \<ge> 100000000000000000)
     + of_bool (value \<ge> 1000000000000000000)
     + of_bool (value \<ge> 10000000000000000000)"

text \<open>The \<open>int\<close> overload goes through \<open>std::abs\<close>, so the sign is not counted.\<close>

definition number_of_digits_int :: "int \<Rightarrow> u32" where
  "number_of_digits_int value = number_of_digits (of_int \<bar>value\<bar>)"

section \<open>Equivalence with the printed length\<close>

lemma length_nat_to_string_ge:
  "0 < k \<Longrightarrow> 10 ^ k \<le> n \<longleftrightarrow> Suc k \<le> length (nat_to_string n)"
  using length_nat_to_string_le[of k n] by linarith

lemma count_thresholds:
  "l \<le> Suc m \<Longrightarrow> 0 < l \<Longrightarrow> (1::nat) + (\<Sum>k = 1..m. of_bool (Suc k \<le> l)) = l"
proof (induction m arbitrary: l)
  case 0
  then show ?case by simp
next
  case (Suc m)
  show ?case
  proof (cases "l \<le> Suc m")
    case True
    with Suc show ?thesis by simp
  next
    case False
    with Suc.prems have l: "l = Suc (Suc m)" by simp
    have "(\<Sum>k = 1..m. of_bool (Suc k \<le> l)) = (\<Sum>k = 1..m. of_bool (Suc k \<le> Suc m) :: nat)"
      using l by (intro sum.cong) auto
    with Suc.IH[of "Suc m"] l show ?thesis by simp
  qed
qed

lemma number_of_digits_word_sum:
  "number_of_digits v = of_nat (1 + (\<Sum>k = 1..19. of_bool (10 ^ k \<le> unat v)))"
proof -
  have th: "(of_bool (c \<le> v) :: u32) = of_nat (of_bool (unat c \<le> unat v))" for c :: u64
    by (simp add: word_le_nat_alt)
  have "(\<Sum>k = 1..19. of_bool (10 ^ k \<le> unat v) :: nat) =
      (\<Sum>k \<leftarrow> [1..<20]. of_bool (10 ^ k \<le> unat v))"
    by (simp add: interv_sum_list_conv_sum_set_nat atLeastLessThanSuc_atLeastAtMost[symmetric])
  then show ?thesis
    unfolding number_of_digits_def th
    by (simp add: upt_rec)
qed

lemma unat_number_of_digits: "unat (number_of_digits v) = length (nat_to_string (unat v))"
proof -
  let ?l = "length (nat_to_string (unat v))"
  have "unat v < 2 ^ LENGTH(64)" by (rule unsigned_less)
  then have "unat v < 10 ^ 20" by simp
  then have l: "?l \<le> 20" using length_nat_to_string_le[of 20 "unat v"] by simp
  have "(\<Sum>k = 1..19. of_bool (10 ^ k \<le> unat v)) = (\<Sum>k = 1..19. of_bool (Suc k \<le> ?l) :: nat)"
    by (intro sum.cong) (simp_all add: length_nat_to_string_ge)
  then have "number_of_digits v = of_nat ?l"
    using count_thresholds[of ?l 19] l by (simp add: number_of_digits_word_sum)
  with l show ?thesis by (simp add: unsigned_of_nat take_bit_nat_eq_self)
qed

text \<open>
  The branch-free count of thresholds equals the number of decimal digits, for every 64-bit
  value.
\<close>

theorem number_of_digits_is_text_length:
  "unat (number_of_digits v) = length (nat_to_string (unat v))"
  by (rule unat_number_of_digits)

text \<open>Evaluation counts the printed digits.\<close>

lemma number_of_digits_code [code]: "number_of_digits v = of_nat (length (nat_to_string (unat v)))"
  by (simp flip: unat_number_of_digits)

end
