(* ===== verification/Fix_Constants.thy ===== *)
theory Fix_Constants
  imports Main
begin

text \<open>
  The tags, message types and enumerated values of FIX 5.0 SP2 that the C++ sources name. The
  build generates them as constants from \<open>src/orchestrations/fix_repository_5_0SP2_EP258.xml\<close>
  (\<open>FIX_5_0SP2::field::X::Tag\<close> is the \<open>id\<close> of the field \<open>X\<close>, \<open>FIX_5_0SP2::message::M::MsgType\<close> the
  \<open>msgType\<close> of the message \<open>M\<close>, and \<open>FIX_5_0SP2::field::X::V\<close> the \<open>value\<close> of the code \<open>V\<close> in the
  code set of \<open>X\<close>). The collections \<open>fields()\<close> and \<open>messages()\<close> that the same build step
  generates are arguments of the definitions that read them.
\<close>

section \<open>Field tags\<close>

abbreviation (input) AvgPx_Tag :: int where "AvgPx_Tag \<equiv> 6"
abbreviation (input) BeginSeqNo_Tag :: int where "BeginSeqNo_Tag \<equiv> 7"
abbreviation (input) BeginString_Tag :: int where "BeginString_Tag \<equiv> 8"
abbreviation (input) BodyLength_Tag :: int where "BodyLength_Tag \<equiv> 9"
abbreviation (input) CheckSum_Tag :: int where "CheckSum_Tag \<equiv> 10"
abbreviation (input) ClOrdID_Tag :: int where "ClOrdID_Tag \<equiv> 11"
abbreviation (input) CumQty_Tag :: int where "CumQty_Tag \<equiv> 14"
abbreviation (input) EndSeqNo_Tag :: int where "EndSeqNo_Tag \<equiv> 16"
abbreviation (input) MsgSeqNum_Tag :: int where "MsgSeqNum_Tag \<equiv> 34"
abbreviation (input) MsgType_Tag :: int where "MsgType_Tag \<equiv> 35"
abbreviation (input) NewSeqNo_Tag :: int where "NewSeqNo_Tag \<equiv> 36"
abbreviation (input) OrderQty_Tag :: int where "OrderQty_Tag \<equiv> 38"
abbreviation (input) OrdStatus_Tag :: int where "OrdStatus_Tag \<equiv> 39"
abbreviation (input) OrdType_Tag :: int where "OrdType_Tag \<equiv> 40"
abbreviation (input) OrigClOrdID_Tag :: int where "OrigClOrdID_Tag \<equiv> 41"
abbreviation (input) PossDupFlag_Tag :: int where "PossDupFlag_Tag \<equiv> 43"
abbreviation (input) Price_Tag :: int where "Price_Tag \<equiv> 44"
abbreviation (input) RefSeqNum_Tag :: int where "RefSeqNum_Tag \<equiv> 45"
abbreviation (input) SenderCompID_Tag :: int where "SenderCompID_Tag \<equiv> 49"
abbreviation (input) SendingTime_Tag :: int where "SendingTime_Tag \<equiv> 52"
abbreviation (input) Side_Tag :: int where "Side_Tag \<equiv> 54"
abbreviation (input) Symbol_Tag :: int where "Symbol_Tag \<equiv> 55"
abbreviation (input) TargetCompID_Tag :: int where "TargetCompID_Tag \<equiv> 56"
abbreviation (input) Text_Tag :: int where "Text_Tag \<equiv> 58"
abbreviation (input) TimeInForce_Tag :: int where "TimeInForce_Tag \<equiv> 59"
abbreviation (input) EncryptMethod_Tag :: int where "EncryptMethod_Tag \<equiv> 98"
abbreviation (input) HeartBtInt_Tag :: int where "HeartBtInt_Tag \<equiv> 108"
abbreviation (input) TestReqID_Tag :: int where "TestReqID_Tag \<equiv> 112"
abbreviation (input) GapFillFlag_Tag :: int where "GapFillFlag_Tag \<equiv> 123"
abbreviation (input) ResetSeqNumFlag_Tag :: int where "ResetSeqNumFlag_Tag \<equiv> 141"
abbreviation (input) ExecType_Tag :: int where "ExecType_Tag \<equiv> 150"
abbreviation (input) SessionRejectReason_Tag :: int where "SessionRejectReason_Tag \<equiv> 373"
abbreviation (input) NextExpectedMsgSeqNum_Tag :: int where "NextExpectedMsgSeqNum_Tag \<equiv> 789"

section \<open>Message types\<close>

abbreviation (input) Heartbeat_MsgType :: string where "Heartbeat_MsgType \<equiv> ''0''"
abbreviation (input) TestRequest_MsgType :: string where "TestRequest_MsgType \<equiv> ''1''"
abbreviation (input) ResendRequest_MsgType :: string where "ResendRequest_MsgType \<equiv> ''2''"
abbreviation (input) Reject_MsgType :: string where "Reject_MsgType \<equiv> ''3''"
abbreviation (input) SequenceReset_MsgType :: string where "SequenceReset_MsgType \<equiv> ''4''"
abbreviation (input) Logout_MsgType :: string where "Logout_MsgType \<equiv> ''5''"
abbreviation (input) ExecutionReport_MsgType :: string where "ExecutionReport_MsgType \<equiv> ''8''"
abbreviation (input) OrderCancelReject_MsgType :: string where "OrderCancelReject_MsgType \<equiv> ''9''"
abbreviation (input) Logon_MsgType :: string where "Logon_MsgType \<equiv> ''A''"
abbreviation (input) NewOrderSingle_MsgType :: string where "NewOrderSingle_MsgType \<equiv> ''D''"
abbreviation (input) OrderCancelRequest_MsgType :: string where "OrderCancelRequest_MsgType \<equiv> ''F''"
abbreviation (input) OrderCancelReplaceRequest_MsgType :: string where
  "OrderCancelReplaceRequest_MsgType \<equiv> ''G''"
abbreviation (input) XMLnonFIX_MsgType :: string where "XMLnonFIX_MsgType \<equiv> ''n''"

section \<open>Enumerated values\<close>

abbreviation (input) SessionRejectReason_RequiredTagMissing :: string where
  "SessionRejectReason_RequiredTagMissing \<equiv> ''1''"
abbreviation (input) SessionRejectReason_ValueIsIncorrect :: string where
  "SessionRejectReason_ValueIsIncorrect \<equiv> ''5''"
abbreviation (input) SessionRejectReason_CompIDProblem :: string where
  "SessionRejectReason_CompIDProblem \<equiv> ''9''"
abbreviation (input) SessionRejectReason_Other :: string where "SessionRejectReason_Other \<equiv> ''99''"
abbreviation (input) OrdStatus_New :: string where "OrdStatus_New \<equiv> ''0''"
abbreviation (input) OrdStatus_Replaced :: string where "OrdStatus_Replaced \<equiv> ''5''"
abbreviation (input) OrdStatus_PendingCancel :: string where "OrdStatus_PendingCancel \<equiv> ''6''"
abbreviation (input) OrdStatus_PendingReplace :: string where "OrdStatus_PendingReplace \<equiv> ''E''"
abbreviation (input) ExecType_Replaced :: string where "ExecType_Replaced \<equiv> ''5''"
abbreviation (input) EncryptMethod_None :: string where "EncryptMethod_None \<equiv> ''0''"

end
