(* ===== verification/Message.thy ===== *)
theory Message
  imports Field_Collection Number_Of_Digits Fix_Constants
begin

text \<open>
  \<open>libcrocofix/message.cppm\<close>, \<open>message.cpp\<close>: the FIX message, its restartable decoder, its encoder
  with BodyLength and CheckSum, and the header accessors. \<open>dict\<close> is the generated collection
  \<open>FIX_5_0SP2::fields()\<close> that the decoder consults for data fields. Bytes are \<open>char\<close>s; where
  the code adds them up they are signed, as on the x86-64 targets the build names.
\<close>

section \<open>State\<close>

record message =
  m_fields :: field_collection
  m_decode_checksum :: u32
  m_decode_checksum_valid :: bool

record decode_result =
  consumed :: nat
  complete :: bool

abbreviation value_separator :: char where "value_separator \<equiv> CHR ''=''"
abbreviation field_separator :: char where "field_separator \<equiv> CHR 0x01"

definition encode_none :: int where "encode_none = 0"
definition set_checksum :: int where "set_checksum = 1"
definition set_body_length :: int where "set_body_length = 2"
definition set_begin_string :: int where "set_begin_string = 4"
definition set_msg_seq_num :: int where "set_msg_seq_num = 8"

definition encode_standard :: int where
  "encode_standard = set_checksum OR set_body_length OR set_begin_string OR set_msg_seq_num"

definition empty_message :: message where
  "empty_message = \<lparr> m_fields = [], m_decode_checksum = 0, m_decode_checksum_valid = False \<rparr>"

definition header_fields :: field_collection where
  "header_fields =
     [field_string BeginString_Tag '''', field_string BodyLength_Tag '''', field_string MsgType_Tag '''',
      field_string SenderCompID_Tag '''', field_string TargetCompID_Tag '''',
      field_string MsgSeqNum_Tag '''', field_string SendingTime_Tag '''']"

definition make_message :: "bool \<Rightarrow> field list \<Rightarrow> message" where
  "make_message populate_header fs =
     empty_message\<lparr> m_fields := fc_set_all fs (if populate_header then header_fields else []) \<rparr>"

definition message_reset :: "message \<Rightarrow> message" where
  "message_reset m = m\<lparr> m_fields := [], m_decode_checksum := 0, m_decode_checksum_valid := False \<rparr>"

section \<open>Decoding\<close>

text \<open>\<open>std::find\<close> for a character: what lies before it and what follows it.\<close>

fun split_at :: "char \<Rightarrow> string \<Rightarrow> (string \<times> string) option" where
  "split_at c [] = None"
| "split_at c (x # xs) =
     (if x = c then Some ([], xs)
      else case split_at c xs of None \<Rightarrow> None | Some (a, b) \<Rightarrow> Some (x # a, b))"

text \<open>
  One round of the loop of \<open>message::decode\<close>. \<open>fs\<close> are the fields decoded so far, \<open>pre\<close> the part
  of the buffer before \<open>current\<close> and \<open>rest\<close> the part from \<open>current\<close> on. A round either finds the
  buffer too short (the \<open>break\<close>s), throws, or yields a field and the number of bytes it took.
  The length that precedes a data field is the last field's value read as an \<open>int\<close> and may be
  negative: the byte then tested for the separator lies before the value, possibly before the
  buffer.
\<close>

datatype decode_step = Incomplete | Throws exn | Decoded field nat

definition decode_data :: "field_collection \<Rightarrow> int \<Rightarrow> string \<Rightarrow> string \<Rightarrow> string \<Rightarrow> decode_step" where
  "decode_data fs tag pre tag_text after =
     (if fs = [] then
        Throws (Runtime_error (''parsed a data field with tag='' @ int_to_string tag @
                  '' that was not preceeded by a length field''))
      else case stoi (m_value (last fs)) of
        Inl _ \<Rightarrow>
          Throws (Runtime_error (''parsed a data field with tag='' @ int_to_string tag @
                    '' but the preceeding field value was not a valid numeric length''))
      | Inr len \<Rightarrow>
          (let no_separator =
             Throws (Runtime_error (''parsed a data field wtih tag='' @ int_to_string tag @
                       '' but the field did not have a trailing field separator''))
           in if len < 0 then
                (let buffer = pre @ tag_text @ [value_separator] @ after;
                     position = int (length pre) + int (length tag_text) + len + 1
                 in if position < 0 then Throws (Undefined_behaviour ''read before the buffer'')
                    else if buffer ! nat position \<noteq> field_separator then no_separator
                    else Throws (Length_error ''basic_string''))
              else if length after \<le> nat len then Incomplete
              else if after ! nat len \<noteq> field_separator then no_separator
              else Decoded (field_string tag (take (nat len) after)) (length tag_text + nat len + 2)))"

definition decode_text :: "int \<Rightarrow> string \<Rightarrow> string \<Rightarrow> decode_step" where
  "decode_text tag tag_text after =
     (case split_at field_separator after of
        None \<Rightarrow> Incomplete
      | Some (value, _) \<Rightarrow> Decoded (field_string tag value) (length tag_text + length value + 2))"

definition decode_round ::
  "orchestration_field_collection \<Rightarrow> field_collection \<Rightarrow> string \<Rightarrow> string \<Rightarrow> decode_step" where
  "decode_round dict fs pre rest =
     (case split_at value_separator rest of
        None \<Rightarrow> Incomplete
      | Some (tag_text, after) \<Rightarrow>
          (case from_chars_int tag_text of
             None \<Rightarrow> Throws (Out_of_range (tag_text @ '' is not a valid field tag''))
           | Some tag \<Rightarrow>
               (case field_at dict (word_of_int tag) of
                  Inl e \<Rightarrow> Throws e
                | Inr f \<Rightarrow>
                    (if of_is_data f then decode_data fs tag pre tag_text after
                     else decode_text tag tag_text after))))"

lemma decode_round_progress:
  "decode_round dict fs pre rest = Decoded f n \<Longrightarrow> 0 < n"
  by (auto simp: decode_round_def decode_data_def decode_text_def Let_def
      split: option.splits sum.splits if_splits prod.splits)

text \<open>
  The loop. It returns the bytes consumed, how many of them the checksum covers (all but a
  final CheckSum field) and whether a CheckSum field ended it, together with the fields.
\<close>

function decode_loop ::
  "orchestration_field_collection \<Rightarrow> field_collection \<Rightarrow> string \<Rightarrow> string \<Rightarrow>
   (exn + nat \<times> nat \<times> bool) \<times> field_collection" where
  "decode_loop dict fs pre rest =
     (if rest = [] then (Inr (length pre, length pre, False), fs)
      else case decode_round dict fs pre rest of
        Incomplete \<Rightarrow> (Inr (length pre, length pre, False), fs)
      | Throws e \<Rightarrow> (Inl e, fs)
      | Decoded f n \<Rightarrow>
          (if m_tag f = CheckSum_Tag then (Inr (length pre + n, length pre, True), fs @ [f])
           else decode_loop dict (fs @ [f]) (pre @ take n rest) (drop n rest)))"
  by pat_completeness auto
termination
  by (relation "measure (\<lambda>(dict, fs, pre, rest). length rest)") (auto dest: decode_round_progress)

declare decode_loop.simps [simp del]

text \<open>\<open>std::reduce\<close> over characters with no initial value: the sum is itself a \<open>char\<close>.\<close>

definition reduce_char :: "string \<Rightarrow> u8" where
  "reduce_char s = sum_list (map (\<lambda>c. word_of_int (of_char c)) s)"

definition message_decode :: "orchestration_field_collection \<Rightarrow> string \<Rightarrow> (message, decode_result) proc" where
  "message_decode dict buffer = (\<lambda>m.
     (case decode_loop dict (m_fields m) [] buffer of
        (Inl e, fs) \<Rightarrow> (Inl e, m\<lparr> m_fields := fs \<rparr>)
      | (Inr (current, checksum_current, finished), fs) \<Rightarrow>
          (let checksum = m_decode_checksum m + scast (reduce_char (take checksum_current buffer));
               m' = m\<lparr> m_fields := fs, m_decode_checksum := checksum \<rparr>
           in (Inr \<lparr> consumed = current, complete = finished \<rparr>,
               if finished then m'\<lparr> m_decode_checksum := checksum mod 256, m_decode_checksum_valid := True \<rparr>
               else m'))))"

section \<open>Encoding\<close>

text \<open>\<open>calculate_body_length\<close>: the flag \<open>passed_body_length\<close> and the length, in 32 bits.\<close>

fun body_length_loop :: "field list \<Rightarrow> bool \<Rightarrow> u32 \<Rightarrow> u32" where
  "body_length_loop [] passed len = len"
| "body_length_loop (f # fs) passed len =
     (if m_tag f = CheckSum_Tag then len
      else if \<not> passed then body_length_loop fs (m_tag f = BodyLength_Tag) len
      else body_length_loop fs passed
             (len + number_of_digits_int (m_tag f) + of_nat (length (m_value f)) + 2))"

definition calculate_body_length :: "message \<Rightarrow> u32" where
  "calculate_body_length m = body_length_loop (m_fields m) False 0"

definition calculate_decode_checksum :: "message \<Rightarrow> exn + u32" where
  "calculate_decode_checksum m =
     (if m_decode_checksum_valid m then Inr (m_decode_checksum m)
      else Inl (Runtime_error ''NO DECODE CHECKSUM''))"

text \<open>A byte as \<open>char\<close> is signed; \<open>%\<close> truncates towards zero.\<close>

definition schar :: "char \<Rightarrow> int" where
  "schar c = (let n = of_char c in if n < 128 then n else n - 256)"

definition trunc_mod :: "int \<Rightarrow> int \<Rightarrow> int" where
  "trunc_mod a b = (if a < 0 then - ((- a) mod b) else a mod b)"

definition calculate_checksum :: "string \<Rightarrow> u32" where
  "calculate_checksum buffer = word_of_int (trunc_mod (sum_list (map schar buffer)) 256)"

definition format_checksum :: "u32 \<Rightarrow> exn + string" where
  "format_checksum checksum =
     (if checksum > 999 then
        Inl (Runtime_error (''Cannot format CheckSum that is greater than 3 digits '' @ [CHR 0x27] @
               u32_to_string checksum @ [CHR 0x27]))
      else Inr (zero_pad 3 (u32_to_string checksum)))"

text \<open>
  The private \<open>encode\<close>: \<open>out\<close> is what has been written into the buffer of \<open>cap\<close> bytes so far;
  \<open>None\<close> stands for the null pointer of a buffer that is too small.
\<close>

definition encode_field :: "nat \<Rightarrow> string \<Rightarrow> field \<Rightarrow> string option" where
  "encode_field cap out f =
     (let tag_text = int_to_string (m_tag f); current = length out + length tag_text
      in if cap < current then None
         else if current \<ge> cap then None
         else if current + 1 \<ge> cap then None
         else if current + 1 + length (m_value f) \<ge> cap then None
         else Some (out @ tag_text @ [value_separator] @ m_value f @ [field_separator]))"

text \<open>The loop of \<open>message::encode\<close> over the remaining fields; \<open>all\<close> is the whole collection.\<close>

fun encode_loop ::
  "nat \<Rightarrow> int \<Rightarrow> field list \<Rightarrow> string \<Rightarrow> field_collection \<Rightarrow> (exn + string option) \<times> field_collection" where
  "encode_loop cap options [] out all = (Inr (Some out), all)"
| "encode_loop cap options (f # fs) out all =
     (let plain = (\<lambda>all. case encode_field cap out f of
                           None \<Rightarrow> (Inr None, all)
                         | Some out' \<Rightarrow> encode_loop cap options fs out' all)
      in if m_tag f = CheckSum_Tag \<and> options AND set_checksum \<noteq> 0 then
           (case format_checksum (calculate_checksum out) of
              Inl e \<Rightarrow> (Inl e, all)
            | Inr text \<Rightarrow>
                (case fc_set (field_string CheckSum_Tag text) Replace_first all of
                   (True, all') \<Rightarrow> (Inr (encode_field cap out (field_string CheckSum_Tag text)), all')
                 | (False, all') \<Rightarrow> plain all'))
         else plain all)"

text \<open>The result is the number of bytes returned (0 for a buffer that is too small) and the bytes.\<close>

definition message_encode :: "nat \<Rightarrow> int \<Rightarrow> (message, nat \<times> string) proc" where
  "message_encode cap options = (\<lambda>m.
     (let fs = (if options AND set_body_length \<noteq> 0
                then snd (fc_set_u32 BodyLength_Tag (calculate_body_length m) Replace_first (m_fields m))
                else m_fields m)
      in case encode_loop cap options fs [] fs of
           (Inl e, fs') \<Rightarrow> (Inl e, m\<lparr> m_fields := fs' \<rparr>)
         | (Inr None, fs') \<Rightarrow> (Inr (0, []), m\<lparr> m_fields := fs' \<rparr>)
         | (Inr (Some out), fs') \<Rightarrow> (Inr (length out, out), m\<lparr> m_fields := fs' \<rparr>)))"

section \<open>Accessors\<close>

definition message_value :: "string \<Rightarrow> int \<Rightarrow> message \<Rightarrow> exn + string" where
  "message_value name tag m =
     (case List.find (has_tag tag) (m_fields m) of
        None \<Rightarrow> Inl (Runtime_error (''message does not have a '' @ name @ '' field''))
      | Some f \<Rightarrow> Inr (m_value f))"

definition message_BeginString :: "message \<Rightarrow> exn + string" where
  "message_BeginString m = message_value ''BeginString'' BeginString_Tag m"

definition message_SenderCompID :: "message \<Rightarrow> exn + string" where
  "message_SenderCompID m = message_value ''SenderCompID'' SenderCompID_Tag m"

definition message_TargetCompID :: "message \<Rightarrow> exn + string" where
  "message_TargetCompID m = message_value ''TargetCompID'' TargetCompID_Tag m"

definition message_MsgType :: "message \<Rightarrow> exn + string" where
  "message_MsgType m = message_value ''MsgType'' MsgType_Tag m"

definition message_MsgSeqNum :: "message \<Rightarrow> exn + u32" where
  "message_MsgSeqNum m =
     (case message_value ''MsgSeqNum'' MsgSeqNum_Tag m of
        Inl e \<Rightarrow> Inl e
      | Inr v \<Rightarrow> (case stoi v of Inl e \<Rightarrow> Inl e | Inr i \<Rightarrow> Inr (word_of_int i)))"

definition message_PossDupFlag :: "message \<Rightarrow> exn + bool" where
  "message_PossDupFlag m = fc_get_bool PossDupFlag_Tag (m_fields m)"

definition message_GapFillFlag :: "message \<Rightarrow> exn + bool" where
  "message_GapFillFlag m = fc_get_bool GapFillFlag_Tag (m_fields m)"

definition message_ResetSeqNumFlag :: "message \<Rightarrow> exn + bool" where
  "message_ResetSeqNumFlag m = fc_get_bool ResetSeqNumFlag_Tag (m_fields m)"

definition message_is_admin :: "message \<Rightarrow> exn + bool" where
  "message_is_admin m =
     (case message_MsgType m of
        Inl e \<Rightarrow> Inl e
      | Inr type \<Rightarrow> Inr (type = Logon_MsgType \<or> type = Heartbeat_MsgType \<or> type = TestRequest_MsgType \<or>
                       type = ResendRequest_MsgType \<or> type = Reject_MsgType \<or>
                       type = SequenceReset_MsgType \<or> type = Logout_MsgType \<or> type = XMLnonFIX_MsgType))"

end
