(* ===== verification/Message_Decoding.thy ===== *)
theory Message_Decoding
  imports Message
begin

text \<open>
  Correctness of \<open>message::decode\<close>: it makes progress and stays inside the buffer, it can be
  restarted on the rest of a buffer with more bytes appended and then yields what one call on the
  whole text yields, and the checksum it accumulates is the sum of the bytes modulo 256.
\<close>

section \<open>Rounds\<close>

lemma split_at_SomeD: "split_at c s = Some (a, b) \<Longrightarrow> s = a @ c # b \<and> c \<notin> set a"
  by (induction s arbitrary: a) (auto split: if_splits option.splits)

lemma split_at_eq: "c \<notin> set a \<Longrightarrow> split_at c (a @ c # b) = Some (a, b)"
  by (induction a) auto

lemma split_at_Some: "split_at c s = Some (a, b) \<longleftrightarrow> s = a @ c # b \<and> c \<notin> set a"
  using split_at_SomeD split_at_eq by blast

lemma split_at_None: "split_at c s = None \<longleftrightarrow> c \<notin> set s"
  by (induction s) (auto split: option.splits)

lemma split_at_append: "split_at c a = Some (u, v) \<Longrightarrow> split_at c (a @ b) = Some (u, v @ b)"
  by (simp add: split_at_Some)

lemma decode_data_append:
  "decode_data fs tag pre t after = Decoded f n \<Longrightarrow>
   decode_data fs tag pre' t (after @ b) = Decoded f n \<and> n \<le> length t + 1 + length after"
  by (auto simp: decode_data_def Let_def nth_append split: sum.splits if_splits)

lemma decode_text_append:
  assumes "decode_text tag t after = Decoded f n"
  shows "decode_text tag t (after @ b) = Decoded f n \<and> n \<le> length t + 1 + length after"
proof -
  from assms obtain v w where "split_at field_separator after = Some (v, w)"
    by (auto simp: decode_text_def split: option.splits)
  with assms show ?thesis
    using split_at_append[of field_separator after v w b] split_at_SomeD[of field_separator after v w]
    by (auto simp: decode_text_def)
qed

text \<open>More input never changes a field that is complete, and what precedes \<open>current\<close> plays no part.\<close>

lemma decode_round_append:
  assumes "decode_round dict fs pre a = Decoded f n"
  shows "decode_round dict fs pre' (a @ b) = Decoded f n \<and> n \<le> length a"
proof -
  from assms obtain t after where sp: "split_at value_separator a = Some (t, after)"
    by (auto simp: decode_round_def split: option.splits)
  then have a: "length a = length t + 1 + length after" by (auto simp: split_at_Some)
  from assms sp show ?thesis
    unfolding decode_round_def split_at_append[OF sp] a
    using decode_data_append[of fs _ pre t after f n pre' b] decode_text_append[of _ t after f n b]
    by (auto split: option.splits sum.splits if_splits)
qed

lemma decode_data_pre: "decode_data fs tag pre t after = Incomplete \<Longrightarrow> decode_data fs tag pre' t after = Incomplete"
  by (auto simp: decode_data_def Let_def split: sum.splits if_splits)

lemma decode_round_Incomplete_pre:
  "decode_round dict fs pre a = Incomplete \<Longrightarrow> decode_round dict fs pre' a = Incomplete"
  using decode_data_pre
  by (auto simp: decode_round_def split: option.splits sum.splits if_splits)

lemma decode_round_pre:
  "decode_round dict fs pre a = Decoded f n \<Longrightarrow> decode_round dict fs pre' a = Decoded f n"
  using decode_round_append[of dict fs pre a f n pre' "[]"] by simp

section \<open>The loop\<close>

lemma decode_loop_bounds:
  "decode_loop dict fs pre rest = (Inr (c, k, d), fs') \<Longrightarrow>
   length pre \<le> k \<and> k \<le> c \<and> c \<le> length pre + length rest \<and> (\<not> d \<longrightarrow> k = c) \<and> (\<exists>gs. fs' = fs @ gs)"
proof (induction dict fs pre rest arbitrary: c k d rule: decode_loop.induct)
  case (1 dict fs pre rest)
  show ?case
  proof (cases "rest = [] \<or> (\<forall>f n. decode_round dict fs pre rest \<noteq> Decoded f n)")
    case True
    with "1.prems" show ?thesis
      by (subst (asm) decode_loop.simps) (auto split: if_splits decode_step.splits)
  next
    case False
    then obtain f n where r: "decode_round dict fs pre rest = Decoded f n" and ne: "rest \<noteq> []" by auto
    then have n: "n \<le> length rest" "0 < n"
      using decode_round_append[of dict fs pre rest f n pre "[]"] decode_round_progress[OF r] by auto
    show ?thesis
    proof (cases "m_tag f = CheckSum_Tag")
      case True
      with r ne n "1.prems" show ?thesis by (subst (asm) decode_loop.simps) auto
    next
      case neq: False
      with r ne "1.prems" have "decode_loop dict (fs @ [f]) (pre @ take n rest) (drop n rest) = (Inr (c, k, d), fs')"
        by (subst (asm) decode_loop.simps) simp
      from "1.IH"[OF ne r neq this] n show ?thesis by auto
    qed
  qed
qed

lemma decode_loop_shift:
  assumes "decode_loop dict fs pre rest = (Inr (c, k, d), fs')"
  shows "decode_loop dict fs pre' rest =
    (Inr (c - length pre + length pre', k - length pre + length pre', d), fs')"
  using assms
proof (induction dict fs pre rest arbitrary: pre' rule: decode_loop.induct)
  case (1 dict fs pre rest)
  show ?case
  proof (cases "rest = []")
    case True
    with "1.prems" show ?thesis by (simp add: decode_loop.simps)
  next
    case ne: False
    show ?thesis
    proof (cases "decode_round dict fs pre rest")
      case Incomplete
      with ne "1.prems" show ?thesis
        using decode_round_Incomplete_pre[OF Incomplete, of pre'] by (simp add: decode_loop.simps)
    next
      case (Throws e)
      with ne "1.prems" show ?thesis by (simp add: decode_loop.simps)
    next
      case (Decoded f n)
      note pre' = decode_round_pre[OF Decoded, of pre']
      have n: "n \<le> length rest" using decode_round_append[OF Decoded, of pre "[]"] by simp
      show ?thesis
      proof (cases "m_tag f = CheckSum_Tag")
        case True
        with ne Decoded pre' "1.prems" show ?thesis by (subst decode_loop.simps) (auto simp: decode_loop.simps)
      next
        case neq: False
        with ne Decoded "1.prems" have L: "decode_loop dict (fs @ [f]) (pre @ take n rest) (drop n rest) = (Inr (c, k, d), fs')"
          by (subst (asm) decode_loop.simps) simp
        have "length pre + n \<le> k \<and> k \<le> c"
          using decode_loop_bounds[OF L] n by simp
        with "1.IH"[OF ne Decoded neq L, of "pre' @ take n rest"] ne pre' neq n show ?thesis
          by (subst decode_loop.simps) simp
      qed
    qed
  qed
qed

text \<open>Where a call stopped for want of input, a call with more input goes on.\<close>

lemma decode_loop_append:
  assumes "decode_loop dict fs pre a = (Inr (c, k, False), fs')"
  shows "decode_loop dict fs pre (a @ b) =
    decode_loop dict fs' (pre @ take (c - length pre) a) (drop (c - length pre) a @ b)"
  using assms
proof (induction dict fs pre a rule: decode_loop.induct)
  case (1 dict fs pre a)
  show ?case
  proof (cases "a = [] \<or> decode_round dict fs pre a = Incomplete")
    case True
    with "1.prems" have "c = length pre \<and> fs' = fs" by (subst (asm) decode_loop.simps) (auto split: if_splits)
    then show ?thesis by simp
  next
    case False
    with "1.prems" obtain f n where r: "decode_round dict fs pre a = Decoded f n"
      and neq: "m_tag f \<noteq> CheckSum_Tag"
      by (cases "decode_round dict fs pre a") (auto simp: decode_loop.simps split: if_splits)
    from False have ne: "a \<noteq> []" by simp
    have n: "n \<le> length a" and r': "decode_round dict fs pre (a @ b) = Decoded f n"
      using decode_round_append[OF r] by blast+
    from ne r neq "1.prems" have L: "decode_loop dict (fs @ [f]) (pre @ take n a) (drop n a) = (Inr (c, k, False), fs')"
      by (subst (asm) decode_loop.simps) simp
    have c: "length pre + n \<le> c" using decode_loop_bounds[OF L] n by simp
    have "decode_loop dict fs pre (a @ b) = decode_loop dict (fs @ [f]) (pre @ take n a) (drop n a @ b)"
      using ne r' neq n by (subst decode_loop.simps) simp
    also have "\<dots> = decode_loop dict fs' ((pre @ take n a) @ take (c - length (pre @ take n a)) (drop n a))
        (drop (c - length (pre @ take n a)) (drop n a) @ b)"
      by (rule "1.IH"[OF ne r neq L])
    also have "\<dots> = decode_loop dict fs' (pre @ take (c - length pre) a) (drop (c - length pre) a @ b)"
    proof -
      have "take n a @ take (c - length (pre @ take n a)) (drop n a) = take (c - length pre) a"
        using n c take_add[of n "c - length pre - n" a] by simp
      moreover have "drop (c - length (pre @ take n a)) (drop n a) = drop (c - length pre) a"
        using n c by simp
      ultimately show ?thesis by simp
    qed
    finally show ?thesis .
  qed
qed

section \<open>The checksum\<close>

definition byte_sum :: "string \<Rightarrow> nat" where
  "byte_sum s = sum_list (map of_char s)"

lemma byte_sum_append [simp]: "byte_sum (a @ b) = byte_sum a + byte_sum b"
  by (simp add: byte_sum_def)

lemma reduce_char_byte_sum: "reduce_char s = of_nat (byte_sum s)"
proof (induction s)
  case Nil
  then show ?case by (simp add: reduce_char_def byte_sum_def)
next
  case (Cons c s)
  have "(word_of_int (of_char c) :: u8) = of_nat (of_char c)"
    by (metis of_int_of_nat_eq of_nat_of_char)
  with Cons show ?case by (simp add: reduce_char_def byte_sum_def)
qed

lemma ucast_add_u8: "(ucast (a + b :: u32) :: u8) = ucast a + ucast b"
proof transfer
  fix a b :: int
  have "take_bit 8 (take_bit 32 a + take_bit 32 b) = take_bit 8 (take_bit 8 (take_bit 32 a) + take_bit 8 (take_bit 32 b))"
    by (simp only: take_bit_add)
  also have "\<dots> = take_bit 8 (a + b)" by (simp add: take_bit_add)
  finally show "take_bit LENGTH(8) (take_bit LENGTH(32) (a + b)) =
      take_bit LENGTH(8) (take_bit LENGTH(32) a + take_bit LENGTH(32) b)" by simp
qed

lemma ucast_scast_u8: "(ucast (scast (x :: u8) :: u32) :: u8) = x"
  by transfer (simp add: take_bit_signed_take_bit)

lemma mod_256_ucast: "(w :: u32) mod 256 = ucast (ucast w :: u8)"
  by transfer (simp add: take_bit_eq_mod mod_mod_cancel)

lemma ucast_ucast_u8_id: "(ucast (ucast (x :: u8) :: u32) :: u8) = x"
  by transfer simp

lemma mod_256_eq_iff: "(v :: u32) mod 256 = w mod 256 \<longleftrightarrow> (ucast v :: u8) = ucast w"
  by (metis mod_256_ucast ucast_ucast_u8_id)

text \<open>Adding a signed character sum to the 32-bit accumulator is adding the bytes modulo 256.\<close>

lemma checksum_accumulates:
  "(ucast (w + scast (reduce_char s) :: u32) :: u8) = ucast w + of_nat (byte_sum s)"
  by (simp add: ucast_add_u8 ucast_scast_u8 reduce_char_byte_sum)

section \<open>Properties of decode\<close>

lemma message_decode_Inr:
  assumes "message_decode dict buffer m = (Inr r, m')"
  obtains k where
    "decode_loop dict (m_fields m) [] buffer = (Inr (consumed r, k, complete r), m_fields m')"
    "(ucast (m_decode_checksum m') :: u8) = ucast (m_decode_checksum m) + of_nat (byte_sum (take k buffer))"
    "m_decode_checksum_valid m' = (complete r \<or> m_decode_checksum_valid m)"
    "complete r \<Longrightarrow> m_decode_checksum m' = ucast (ucast (m_decode_checksum m) + of_nat (byte_sum (take k buffer)) :: u8)"
proof -
  obtain x fs where L: "decode_loop dict (m_fields m) [] buffer = (x, fs)" by fastforce
  with assms obtain c k d where x: "x = Inr (c, k, d)"
    by (cases x) (auto simp: message_decode_def)
  note u = checksum_accumulates[of "m_decode_checksum m" "take k buffer"]
  show thesis
  proof (rule that[of k])
    show "decode_loop dict (m_fields m) [] buffer = (Inr (consumed r, k, complete r), m_fields m')"
      using assms L x by (auto simp: message_decode_def Let_def)
    show "m_decode_checksum_valid m' = (complete r \<or> m_decode_checksum_valid m)"
      using assms L x by (auto simp: message_decode_def Let_def split: if_splits)
    show "(ucast (m_decode_checksum m') :: u8) = ucast (m_decode_checksum m) + of_nat (byte_sum (take k buffer))"
      using assms L x u by (auto simp: message_decode_def Let_def mod_256_ucast ucast_ucast_u8_id)
    show "m_decode_checksum m' = ucast (ucast (m_decode_checksum m) + of_nat (byte_sum (take k buffer)) :: u8)"
      if "complete r"
      using assms L x u that by (auto simp: message_decode_def Let_def mod_256_ucast)
  qed
qed

lemma message_decode_conv:
  assumes "decode_loop dict (m_fields m) [] buffer = (Inr (c, k, d), fs)"
  obtains m' where "message_decode dict buffer m = (Inr \<lparr> consumed = c, complete = d \<rparr>, m')"
  using assms by (auto simp: message_decode_def Let_def)

lemma decode_continue:
  assumes first: "message_decode dict a m = (Inr r1, m1)" "\<not> complete r1"
    and second: "message_decode dict (drop (consumed r1) a @ b) m1 = (Inr r2, m2)"
  shows "\<exists>m'. message_decode dict (a @ b) m =
      (Inr \<lparr> consumed = consumed r1 + consumed r2, complete = complete r2 \<rparr>, m') \<and>
      m_fields m' = m_fields m2 \<and> m_decode_checksum m' mod 256 = m_decode_checksum m2 mod 256 \<and>
      m_decode_checksum_valid m' = m_decode_checksum_valid m2 \<and>
      (complete r2 \<longrightarrow> m_decode_checksum m' = m_decode_checksum m2)"
proof -
  let ?c1 = "consumed r1"
  obtain k1 where L1: "decode_loop dict (m_fields m) [] a = (Inr (?c1, k1, False), m_fields m1)"
    and s1: "(ucast (m_decode_checksum m1) :: u8) = ucast (m_decode_checksum m) + of_nat (byte_sum (take k1 a))"
    and v1: "m_decode_checksum_valid m1 = m_decode_checksum_valid m"
    using message_decode_Inr[OF first(1)] first(2) by (metis (full_types))
  obtain k2 where L2: "decode_loop dict (m_fields m1) [] (drop ?c1 a @ b) = (Inr (consumed r2, k2, complete r2), m_fields m2)"
    and s2: "(ucast (m_decode_checksum m2) :: u8) = ucast (m_decode_checksum m1) + of_nat (byte_sum (take k2 (drop ?c1 a @ b)))"
    and v2: "m_decode_checksum_valid m2 = (complete r2 \<or> m_decode_checksum_valid m1)"
    and e2: "complete r2 \<Longrightarrow> m_decode_checksum m2 = ucast (ucast (m_decode_checksum m1) + of_nat (byte_sum (take k2 (drop ?c1 a @ b))) :: u8)"
    using message_decode_Inr[OF second] by blast
  have k1: "k1 = ?c1" "?c1 \<le> length a" using decode_loop_bounds[OF L1] by auto
  have k: "take (?c1 + k2) (a @ b) = take ?c1 a @ take k2 (drop ?c1 a @ b)"
    using k1(2) take_add[of ?c1 k2 "a @ b"] by simp
  have "decode_loop dict (m_fields m) [] (a @ b) =
      (Inr (consumed r2 + ?c1, k2 + ?c1, complete r2), m_fields m2)"
    using decode_loop_append[OF L1, of b] decode_loop_shift[OF L2, of "take ?c1 a"] k1(2) by simp
  then have L: "decode_loop dict (m_fields m) [] (a @ b) =
      (Inr (?c1 + consumed r2, ?c1 + k2, complete r2), m_fields m2)" by (simp add: add.commute)
  obtain m' where D: "message_decode dict (a @ b) m = (Inr \<lparr> consumed = ?c1 + consumed r2, complete = complete r2 \<rparr>, m')"
    using message_decode_conv[OF L] by blast
  obtain k3 where L3: "decode_loop dict (m_fields m) [] (a @ b) = (Inr (?c1 + consumed r2, k3, complete r2), m_fields m')"
    and s3: "(ucast (m_decode_checksum m') :: u8) = ucast (m_decode_checksum m) + of_nat (byte_sum (take k3 (a @ b)))"
    and v3: "m_decode_checksum_valid m' = (complete r2 \<or> m_decode_checksum_valid m)"
    and e3: "complete r2 \<Longrightarrow> m_decode_checksum m' = ucast (ucast (m_decode_checksum m) + of_nat (byte_sum (take k3 (a @ b))) :: u8)"
    using message_decode_Inr[OF D, unfolded decode_result.select_convs] by blast
  from L L3 have k3: "k3 = ?c1 + k2" and f3: "m_fields m' = m_fields m2" by auto
  have bs: "byte_sum (take k3 (a @ b)) = byte_sum (take k1 a) + byte_sum (take k2 (drop ?c1 a @ b))"
    using k k3 k1(1) by simp
  have u: "(ucast (m_decode_checksum m') :: u8) = ucast (m_decode_checksum m2)"
    unfolding s3 s2 s1 bs by (simp add: add.assoc)
  have "complete r2 \<Longrightarrow> m_decode_checksum m' = m_decode_checksum m2"
    using e3[folded s3] e2[folded s2] u by simp
  with D f3 u v1 v2 v3 show ?thesis by (simp add: mod_256_eq_iff)
qed

text \<open>
  C28: \<open>decode\<close> is restartable. When a call has stopped for want of input, a second call on what
  it left with more bytes appended ends like one call on the whole text: the same fields, the
  same completeness, the bytes consumed adding up, the same checksum modulo 256, and, where the
  message is complete, the same checksum value.
\<close>

theorem decode_restartable:
  assumes first: "message_decode dict a m = (Inr r1, m1)" "\<not> complete r1"
    and second: "message_decode dict (drop (consumed r1) a @ b) m1 = (Inr r2, m2)"
  shows "\<exists>m'. message_decode dict (a @ b) m =
      (Inr \<lparr> consumed = consumed r1 + consumed r2, complete = complete r2 \<rparr>, m') \<and>
      m_fields m' = m_fields m2 \<and> m_decode_checksum m' mod 256 = m_decode_checksum m2 mod 256 \<and>
      m_decode_checksum_valid m' = m_decode_checksum_valid m2 \<and>
      (complete r2 \<longrightarrow> m_decode_checksum m' = m_decode_checksum m2)"
  using assms by (rule decode_continue)

section \<open>A small dictionary\<close>

text \<open>Tags up to 11, all plain text but for tag 5, a data field. The examples below read it.\<close>

definition sample_pedigree :: pedigree where
  "sample_pedigree = \<lparr> added = [], addedEP = [], updated = [], updatedEP = [], deprecated = [], deprecatedEP = [] \<rparr>"

definition sample_field :: "bool \<Rightarrow> orchestration_field" where
  "sample_field data =
     \<lparr> of_tag = 1, of_is_data = data, of_name = ''Sample'', of_type = ''String'', of_synopsis = [],
       of_pedigree = sample_pedigree, of_values = [] \<rparr>"

definition sample_dict :: orchestration_field_collection where
  "sample_dict = \<lparr> m_field_offsets = [0, 0, 0, 0, 0, 1, 0, 0, 0, 0, 0, 0],
     m_of_fields = [sample_field False, sample_field True], m_fields_by_name = [] \<rparr>"

definition soh :: string where
  "soh = [field_separator]"

theorem decode_restartable_witness:
  "\<exists>m'. message_decode sample_dict ((''8=F'' @ soh @ ''10='') @ ''013'' @ soh) empty_message =
      (Inr \<lparr> consumed = 11, complete = True \<rparr>, m') \<and> length (m_fields m') = 2"
proof -
  have one: "message_decode sample_dict (''8=F'' @ soh @ ''10='') empty_message =
      (Inr \<lparr> consumed = 4, complete = False \<rparr>,
       \<lparr> m_fields = [field_string 8 ''F''], m_decode_checksum = - 68, m_decode_checksum_valid = False \<rparr>)"
    by code_simp
  have two: "message_decode sample_dict (drop 4 (''8=F'' @ soh @ ''10='') @ ''013'' @ soh)
       \<lparr> m_fields = [field_string 8 ''F''], m_decode_checksum = - 68, m_decode_checksum_valid = False \<rparr> =
      (Inr \<lparr> consumed = 7, complete = True \<rparr>,
       \<lparr> m_fields = [field_string 8 ''F'', field_string 10 ''013''], m_decode_checksum = 188,
         m_decode_checksum_valid = True \<rparr>)"
    by code_simp
  show ?thesis
    using decode_restartable[OF one, of "''013'' @ soh"] two by auto
qed

text \<open>
  A negative length before a data field makes the decoder test a byte that lies before the
  buffer: the length is read with \<open>std::stoi\<close> and its sign is never checked.
\<close>

theorem decode_negative_length_reads_before_buffer:
  "fst (message_decode sample_dict (''4=-99'' @ soh @ ''5=x'' @ soh) empty_message) =
     Inl (Undefined_behaviour ''read before the buffer'')"
  by code_simp

end
