(* ===== verification/Message_Encoding.thy ===== *)
theory Message_Encoding
  imports Message_Decoding
begin

text \<open>
  Correctness of \<open>message::encode\<close>: what it writes, that it never writes past the buffer, the
  BodyLength and CheckSum it computes, and that decoding the encoded text gives the message back.
\<close>

section \<open>The text of fields\<close>

definition field_text :: "field \<Rightarrow> string" where
  "field_text f = int_to_string (m_tag f) @ [value_separator] @ m_value f @ [field_separator]"

definition wire_text :: "field list \<Rightarrow> string" where
  "wire_text fs = concat (map field_text fs)"

lemma wire_text_simps [simp]:
  "wire_text [] = []" "wire_text (f # fs) = field_text f @ wire_text fs"
  "wire_text (fs @ gs) = wire_text fs @ wire_text gs"
  by (simp_all add: wire_text_def)

lemma field_text_not_Nil [simp]: "field_text f \<noteq> []"
  by (simp add: field_text_def)

lemma encode_field_conv:
  "encode_field cap out f = (if length out + length (field_text f) \<le> cap then Some (out @ field_text f) else None)"
  by (auto simp: encode_field_def field_text_def Let_def)

lemma encode_loop_plain:
  assumes "CheckSum_Tag \<notin> set (tags fs) \<or> options AND set_checksum = 0" "length out \<le> cap"
  shows "encode_loop cap options (fs @ gs) out all =
    (if length (out @ wire_text fs) \<le> cap then encode_loop cap options gs (out @ wire_text fs) all
     else (Inr None, all))"
  using assms
proof (induction fs arbitrary: out)
  case Nil
  then show ?case by simp
next
  case (Cons f fs)
  then have "\<not> (m_tag f = CheckSum_Tag \<and> options AND set_checksum \<noteq> 0)" by auto
  with Cons show ?case by (auto simp: encode_field_conv Let_def)
qed

text \<open>The loop with a CheckSum field: everything before it, then the field with the computed value.\<close>

lemma encode_loop_checksum:
  assumes "CheckSum_Tag \<notin> set (tags pre)" "m_tag cs = CheckSum_Tag" "options AND set_checksum \<noteq> 0"
    "CheckSum_Tag \<in> set (tags all)"
  shows "encode_loop cap options (pre @ cs # post) [] all =
    (if length (wire_text pre) \<le> cap then
       case format_checksum (calculate_checksum (wire_text pre)) of
         Inl e \<Rightarrow> (Inl e, all)
       | Inr text \<Rightarrow> (Inr (encode_field cap (wire_text pre) (field_string CheckSum_Tag text)),
                     fc_replace (field_string CheckSum_Tag text) all)
     else (Inr None, all))"
proof -
  have "encode_loop cap options (pre @ cs # post) [] all =
      (if length (wire_text pre) \<le> cap then encode_loop cap options (cs # post) (wire_text pre) all
       else (Inr None, all))"
    using encode_loop_plain[of pre options "[]" cap "cs # post" all] assms(1) by simp
  with assms(2-4) show ?thesis
    by (simp add: fc_set_Replace_first_conv split: sum.splits)
qed

lemma encode_loop_fits:
  "encode_loop cap options fs out all = (Inr (Some out'), all') \<Longrightarrow> length out \<le> cap \<Longrightarrow> length out' \<le> cap"
proof (induction fs arbitrary: out all)
  case Nil
  then show ?case by simp
next
  case (Cons f fs)
  then show ?case
    by (auto simp: encode_field_conv Let_def split: if_splits sum.splits prod.splits bool.splits)
qed

section \<open>BodyLength\<close>

lemma number_of_digits_int_text:
  assumes "0 \<le> t" "t < 2 ^ 31"
  shows "number_of_digits_int t = of_nat (length (int_to_string t))"
proof -
  have "unat (word_of_int t :: u64) = nat t"
    using assms by (simp add: unat_eq_nat_uint uint_word_of_int_eq take_bit_int_eq_self)
  then have "unat (number_of_digits_int t) = length (int_to_string t)"
    using assms by (simp add: number_of_digits_int_def unat_number_of_digits int_to_string_def)
  then show ?thesis by (metis of_nat_unat ucast_id)
qed

definition tags_ok :: "field list \<Rightarrow> bool" where
  "tags_ok fs \<longleftrightarrow> (\<forall>f \<in> set fs. 0 \<le> m_tag f \<and> m_tag f < 2 ^ 31)"

lemma body_length_loop_passed:
  assumes "CheckSum_Tag \<notin> set (tags fs)" "tags_ok fs"
    "gs = [] \<or> m_tag (hd gs) = CheckSum_Tag"
  shows "body_length_loop (fs @ gs) True len = len + of_nat (length (wire_text fs))"
  using assms
proof (induction fs arbitrary: len)
  case Nil
  then show ?case by (cases gs) auto
next
  case (Cons f fs)
  have "number_of_digits_int (m_tag f) + of_nat (length (m_value f)) + 2 = (of_nat (length (field_text f)) :: u32)"
    using Cons.prems(2) number_of_digits_int_text[of "m_tag f"] by (simp add: tags_ok_def field_text_def)
  moreover have "body_length_loop (fs @ gs) True l = l + of_nat (length (wire_text fs))" for l
    using Cons by (simp add: tags_ok_def)
  ultimately show ?case using Cons.prems(1) by (simp add: add.assoc add.commute add.left_commute)
qed

lemma body_length_loop_skip:
  "BodyLength_Tag \<notin> set (tags fs) \<Longrightarrow> CheckSum_Tag \<notin> set (tags fs) \<Longrightarrow>
   body_length_loop (fs @ gs) False len = body_length_loop gs False len"
  by (induction fs) auto

text \<open>It depends neither on the value of BodyLength nor on that of CheckSum.\<close>

lemma body_length_loop_replace:
  "m_tag f = BodyLength_Tag \<Longrightarrow> body_length_loop (replace_first (has_tag BodyLength_Tag) f fs) False len = body_length_loop fs False len"
  "m_tag f = CheckSum_Tag \<Longrightarrow> body_length_loop (replace_first (has_tag CheckSum_Tag) f fs) passed len = body_length_loop fs passed len"
  by (induction fs arbitrary: passed len) auto

lemma calculate_body_length_replace:
  assumes "m_fields d = fc_replace f (fc_replace g (m_fields m))" "m_tag f = CheckSum_Tag" "m_tag g = BodyLength_Tag"
  shows "calculate_body_length d = calculate_body_length m"
  using assms by (simp add: calculate_body_length_def fc_set_Replace_first_conv body_length_loop_replace)


section \<open>CheckSum\<close>

definition signed_sum :: "string \<Rightarrow> int" where
  "signed_sum s = sum_list (map schar s)"

lemma of_char_less_256: "(of_char c :: nat) < 256"
  by (metis of_char_mod_256 mod_less_divisor zero_less_numeral)

lemma signed_sum_cong: "signed_sum s mod 256 = int (byte_sum s) mod 256"
proof (induction s)
  case Nil
  then show ?case by (simp add: signed_sum_def byte_sum_def)
next
  case (Cons c s)
  have "schar c mod 256 = int (of_char c) mod 256"
    by (simp add: schar_def Let_def mod_diff_right_eq[symmetric] of_nat_of_char)
  with Cons show ?case
    using mod_add_cong[of "schar c" 256 "int (of_char c)" "signed_sum s" "int (byte_sum s)"]
    by (simp add: signed_sum_def byte_sum_def)
qed

lemma signed_sum_mod: "signed_sum s mod 256 = int (byte_sum s mod 256)"
  by (simp add: signed_sum_cong zmod_int)

lemma of_char_int_bounds: "0 \<le> (of_char c :: int) \<and> (of_char c :: int) < 256"
  by (metis of_char_mod_256 pos_mod_bound pos_mod_sign zero_less_numeral)

lemma schar_bounds: "- 128 \<le> schar c \<and> schar c \<le> 127"
  using of_char_int_bounds[of c] by (auto simp: schar_def Let_def)

lemma signed_sum_Cons: "signed_sum (c # s) = schar c + signed_sum s"
  by (simp add: signed_sum_def)

lemma signed_sum_bounds: "\<bar>signed_sum s\<bar> \<le> 128 * int (length s)"
proof (induction s)
  case Nil
  then show ?case by (simp add: signed_sum_def)
next
  case (Cons c s)
  with schar_bounds[of c] show ?case unfolding signed_sum_Cons by simp linarith
qed

lemma ascii_signed_sum: "(\<forall>c \<in> set s. (of_char c :: nat) < 128) \<Longrightarrow> signed_sum s = int (byte_sum s)"
proof (induction s)
  case Nil
  then show ?case by (simp add: signed_sum_def byte_sum_def)
next
  case (Cons c s)
  have "(of_char c :: int) = int (of_char c)" by (simp add: of_nat_of_char)
  with Cons show ?case by (simp add: signed_sum_def byte_sum_def schar_def Let_def)
qed

lemma calculate_checksum_nonneg:
  assumes "0 \<le> signed_sum s"
  shows "calculate_checksum s = of_nat (byte_sum s mod 256)"
proof -
  have "calculate_checksum s = word_of_int (int (byte_sum s) mod 256)"
    using assms signed_sum_cong[of s] by (simp add: calculate_checksum_def trunc_mod_def signed_sum_def)
  also have "\<dots> = word_of_int (int (byte_sum s mod 256))" by (simp add: zmod_int)
  finally show ?thesis by (simp only: of_int_of_nat_eq)
qed

lemma unat_small_checksum: "unat (of_nat (n mod 256) :: u32) = n mod 256"
  by (simp add: unsigned_of_nat take_bit_nat_eq_self)

lemma format_checksum_small:
  "format_checksum (of_nat (n mod 256)) = Inr (zero_pad 3 (nat_to_string (n mod 256)))"
proof -
  have "\<not> (of_nat (n mod 256) :: u32) > 999"
    using unat_small_checksum[of n] by (simp add: word_less_nat_alt)
  then show ?thesis by (simp add: format_checksum_def u32_to_string_def unat_small_checksum)
qed

lemma uint_of_negative: "0 < r \<Longrightarrow> r < 256 \<Longrightarrow> uint (word_of_int (- r) :: u32) = 2 ^ 32 - r"
  unfolding uint_word_of_int_eq take_bit_eq_mod by (simp add: zmod_zminus1_eq_if)

lemma calculate_checksum_negative:
  assumes "signed_sum s < 0" "byte_sum s mod 256 \<noteq> 0"
  shows "999 < calculate_checksum s"
proof -
  define r where "r = (- signed_sum s) mod 256"
  have "signed_sum s mod 256 \<noteq> 0"
    using assms(2) unfolding signed_sum_mod by simp
  then have "r \<noteq> 0" by (simp add: r_def zmod_zminus1_eq_if)
  then have r: "0 < r" "r < 256" by (auto simp: r_def order_less_le)
  have "calculate_checksum s = word_of_int (- r)"
    using assms(1) by (simp add: r_def calculate_checksum_def trunc_mod_def signed_sum_def)
  with uint_of_negative[OF r] r show ?thesis by (simp add: word_less_def)
qed

lemma format_calculated_checksum:
  assumes "format_checksum (calculate_checksum s) = Inr text"
  shows "text = zero_pad 3 (nat_to_string (byte_sum s mod 256))"
proof (cases "signed_sum s < 0 \<and> byte_sum s mod 256 \<noteq> 0")
  case True
  with calculate_checksum_negative[of s] assms show ?thesis by (simp add: format_checksum_def)
next
  case False
  have "calculate_checksum s = of_nat (byte_sum s mod 256)"
  proof (cases "0 \<le> signed_sum s")
    case True
    then show ?thesis by (rule calculate_checksum_nonneg)
  next
    case neg: False
    with False have "byte_sum s mod 256 = 0" by simp
    moreover from this have "signed_sum s mod 256 = 0"
      by (simp add: signed_sum_mod)
    ultimately show ?thesis
      using neg by (simp add: calculate_checksum_def trunc_mod_def signed_sum_def zmod_zminus1_eq_if)
  qed
  with assms show ?thesis by (simp add: format_checksum_small)
qed

section \<open>Decoding what was encoded\<close>

text \<open>
  A field survives the wire when its tag is an \<open>int\<close> the dictionary knows and its value either
  holds no field separator or, for a data field, is as long as the field before it says.
\<close>

definition wire_field_ok :: "orchestration_field_collection \<Rightarrow> field list \<Rightarrow> field \<Rightarrow> bool" where
  "wire_field_ok dict prevs f \<longleftrightarrow>
     int32_range (m_tag f) \<and>
     (case field_at dict (word_of_int (m_tag f)) of
        Inl _ \<Rightarrow> False
      | Inr d \<Rightarrow> (if of_is_data d
                  then prevs \<noteq> [] \<and> stoi (m_value (last prevs)) = Inr (int (length (m_value f)))
                  else field_separator \<notin> set (m_value f)))"

fun wire_ok :: "orchestration_field_collection \<Rightarrow> field list \<Rightarrow> field list \<Rightarrow> bool" where
  "wire_ok dict prevs [] = True"
| "wire_ok dict prevs (f # fs) = (wire_field_ok dict prevs f \<and> wire_ok dict (prevs @ [f]) fs)"

lemma wire_ok_append: "wire_ok dict prevs (fs @ gs) \<longleftrightarrow> wire_ok dict prevs fs \<and> wire_ok dict (prevs @ fs) gs"
  by (induction fs arbitrary: prevs) auto

lemma decode_round_field_text:
  assumes "wire_field_ok dict prevs f"
  shows "decode_round dict prevs pre (field_text f @ rest) = Decoded f (length (field_text f))"
proof -
  let ?t = "int_to_string (m_tag f)"
  have sp: "split_at value_separator (field_text f @ rest) = Some (?t, m_value f @ field_separator # rest)"
    using split_at_eq[of value_separator ?t "m_value f @ field_separator # rest"] int_to_string_no_sep(1)
    by (simp add: field_text_def)
  have fc: "from_chars_int ?t = Some (m_tag f)"
    using assms from_chars_int_to_string[of "m_tag f" "[]"] by (simp add: wire_field_ok_def)
  from assms obtain d where d: "field_at dict (word_of_int (m_tag f)) = Inr d"
    by (auto simp: wire_field_ok_def split: sum.splits)
  have f: "field_string (m_tag f) (m_value f) = f" by (simp add: field_string_def)
  show ?thesis
  proof (cases "of_is_data d")
    case True
    with assms d sp fc f show ?thesis
      by (simp add: decode_round_def decode_data_def wire_field_ok_def field_text_def Let_def nth_append)
  next
    case False
    with assms d have "split_at field_separator (m_value f @ field_separator # rest) = Some (m_value f, rest)"
      by (intro split_at_eq) (simp add: wire_field_ok_def)
    with False d sp fc f show ?thesis
      by (simp add: decode_round_def decode_text_def field_text_def)
  qed
qed

lemma decode_loop_wire:
  assumes "wire_ok dict prevs fs" "CheckSum_Tag \<notin> set (tags fs)"
  shows "decode_loop dict prevs pre (wire_text fs @ rest) = decode_loop dict (prevs @ fs) (pre @ wire_text fs) rest"
  using assms
proof (induction fs arbitrary: prevs pre)
  case Nil
  then show ?case by simp
next
  case (Cons f fs)
  then have "decode_loop dict prevs pre (wire_text (f # fs) @ rest) =
      decode_loop dict (prevs @ [f]) (pre @ field_text f) (wire_text fs @ rest)"
    by (subst decode_loop.simps) (auto simp: decode_round_field_text)
  with Cons show ?case by simp
qed

lemma decode_loop_wire_checksum:
  assumes "wire_ok dict [] (fs @ [cs])" "CheckSum_Tag \<notin> set (tags fs)" "m_tag cs = CheckSum_Tag"
  shows "decode_loop dict [] [] (wire_text (fs @ [cs]) @ rest) =
    (Inr (length (wire_text (fs @ [cs])), length (wire_text fs), True), fs @ [cs])"
proof -
  have "decode_loop dict [] [] (wire_text (fs @ [cs]) @ rest) = decode_loop dict fs (wire_text fs) (field_text cs @ rest)"
    using decode_loop_wire[of dict "[]" fs "[]" "field_text cs @ rest"] assms by (simp add: wire_ok_append)
  also have "\<dots> = (Inr (length (wire_text fs) + length (field_text cs), length (wire_text fs), True), fs @ [cs])"
    using assms by (subst decode_loop.simps) (simp add: wire_ok_append decode_round_field_text)
  finally show ?thesis by simp
qed

section \<open>Properties of encode\<close>

lemma message_encode_fits:
  "message_encode cap options m = (Inr (n, out), m') \<Longrightarrow> n = length out \<and> n \<le> cap"
  using encode_loop_fits[of cap options _ "[]"]
  by (auto simp: message_encode_def Let_def split: prod.splits sum.splits option.splits)

text \<open>Encoding writes BodyLength and CheckSum and no other field.\<close>

lemma encode_loop_keeps:
  "t \<noteq> CheckSum_Tag \<Longrightarrow> fc_try_get t (snd (encode_loop cap options fs out all)) = fc_try_get t all"
proof (induction fs arbitrary: out all)
  case Nil
  show ?case by simp
next
  case (Cons f fs)
  have "fc_set (field_string CheckSum_Tag v) Replace_first all = (b, all') \<Longrightarrow> fc_try_get t all' = fc_try_get t all" for v b all'
    using Cons.prems fc_try_get_replace[of t "field_string CheckSum_Tag v" all] by simp
  with Cons show ?case
    by (auto simp: Let_def split: option.splits sum.splits prod.splits bool.splits)
qed

lemma message_encode_keeps:
  assumes "message_encode cap options m = (r, m')" "t \<noteq> BodyLength_Tag" "t \<noteq> CheckSum_Tag"
  shows "fc_try_get t (m_fields m') = fc_try_get t (m_fields m)"
proof -
  let ?fs = "if options AND set_body_length \<noteq> 0
      then snd (fc_set_u32 BodyLength_Tag (calculate_body_length m) Replace_first (m_fields m)) else m_fields m"
  have "m_fields m' = snd (encode_loop cap options ?fs [] ?fs)"
    using assms(1) by (auto simp: message_encode_def Let_def split: prod.splits sum.splits option.splits)
  then show ?thesis
    using assms(2,3) by (simp add: encode_loop_keeps fc_set_u32_def fc_set_string_def fc_try_get_replace)
qed

lemma replace_first_snoc:
  "\<not> (\<exists>x \<in> set xs. P x) \<Longrightarrow> P x \<Longrightarrow> replace_first P y (xs @ [x]) = xs @ [y]"
  by (induction xs) auto

text \<open>What the encoder leaves in the message and in the buffer, when it succeeds.\<close>

abbreviation with_body_length :: "int \<Rightarrow> message \<Rightarrow> field_collection" where
  "with_body_length options m \<equiv> (if options AND set_body_length \<noteq> 0
     then snd (fc_set_u32 BodyLength_Tag (calculate_body_length m) Replace_first (m_fields m)) else m_fields m)"

lemma encode_parts:
  assumes fields: "m_fields m = pre @ [cs]" "m_tag cs = CheckSum_Tag" "CheckSum_Tag \<notin> set (tags pre)"
    and opt: "options AND set_checksum \<noteq> 0"
    and enc: "message_encode cap options m = (Inr (n, out), m')" "n \<noteq> 0"
  obtains pre' cks where "tags pre' = tags pre" "format_checksum (calculate_checksum (wire_text pre')) = Inr cks"
    "m_fields m' = pre' @ [field_string CheckSum_Tag cks]" "out = wire_text (m_fields m')" "n = length out"
    "m_fields m' = fc_replace (field_string CheckSum_Tag cks) (with_body_length options m)"
proof -
  define fs where "fs = with_body_length options m"
  have "tags fs = tags pre @ [CheckSum_Tag]"
    using fields tags_fc_replace by (simp add: fs_def fc_set_u32_def fc_set_string_def)
  then obtain pre' cs' where fs: "fs = pre' @ [cs']" "m_tag cs' = CheckSum_Tag" "tags pre' = tags pre"
    by (auto simp: map_eq_append_conv)
  have E: "encode_loop cap options fs [] fs = (Inr (Some out), m_fields m')" "n = length out"
    using enc by (auto simp: message_encode_def fs_def[symmetric] Let_def split: prod.splits sum.splits option.splits)
  with fs fields(3) opt obtain cks where cks: "format_checksum (calculate_checksum (wire_text pre')) = Inr cks"
    and out: "encode_field cap (wire_text pre') (field_string CheckSum_Tag cks) = Some out"
    and m': "m_fields m' = fc_replace (field_string CheckSum_Tag cks) fs"
    using encode_loop_checksum[of pre' cs' options fs cap "[]"] by (auto split: if_splits sum.splits)
  have "CheckSum_Tag \<notin> set (tags pre')" using fs(3) fields(3) by simp
  then have "\<not> (\<exists>x \<in> set pre'. m_tag x = CheckSum_Tag)" by auto
  with m' fs(1,2) have "m_fields m' = pre' @ [field_string CheckSum_Tag cks]"
    by (simp add: fc_set_Replace_first_conv replace_first_snoc)
  with that[OF fs(3) cks this _ E(2) m'[unfolded fs_def]] out show thesis
    by (auto simp: encode_field_conv split: if_splits)
qed

lemma message_encode_checksum:
  assumes fields: "m_fields m = pre @ [cs]" "m_tag cs = CheckSum_Tag" "CheckSum_Tag \<notin> set (tags pre)"
    and opt: "options AND set_checksum \<noteq> 0"
    and enc: "message_encode cap options m = (Inr (n, out), m')" "n \<noteq> 0"
  obtains pre' where
    "m_fields m' = pre' @ [field_string CheckSum_Tag (zero_pad 3 (nat_to_string (byte_sum (wire_text pre') mod 256)))]"
    "out = wire_text (m_fields m')" "tags pre' = tags pre"
  using encode_parts[OF assms] format_calculated_checksum that by metis

lemma decode_encoded:
  assumes fields: "m_fields m = pre @ [cs]" "m_tag cs = CheckSum_Tag" "CheckSum_Tag \<notin> set (tags pre)"
    and opt: "options AND set_checksum \<noteq> 0"
    and enc: "message_encode cap options m = (Inr (n, out), m')" "n \<noteq> 0"
    and ok: "wire_ok dict [] (m_fields m')"
  shows "\<exists>d c. message_decode dict (out @ rest) empty_message =
        (Inr \<lparr> consumed = n, complete = True \<rparr>, d) \<and>
      m_fields d = m_fields m' \<and> calculate_decode_checksum d = Inr c \<and>
      format_checksum c = Inr (m_value (last (m_fields m')))"
proof -
  obtain pre' where m': "m_fields m' = pre' @ [field_string CheckSum_Tag (zero_pad 3 (nat_to_string (byte_sum (wire_text pre') mod 256)))]"
    and out: "out = wire_text (m_fields m')" and tg: "tags pre' = tags pre"
    using message_encode_checksum[OF fields opt enc] by blast
  have n: "n = length out" using message_encode_fits[OF enc(1)] by simp
  have L: "decode_loop dict [] [] (out @ rest) = (Inr (n, length (wire_text pre'), True), m_fields m')"
    unfolding out n m' using ok m' tg fields(3) by (intro decode_loop_wire_checksum) auto
  obtain d where D: "message_decode dict (out @ rest) empty_message = (Inr \<lparr> consumed = n, complete = True \<rparr>, d)"
    using message_decode_conv[of dict empty_message] L by (metis empty_message_def message.select_convs(1))
  have k: "take (length (wire_text pre')) (out @ rest) = wire_text pre'"
    unfolding out m' by simp
  have "m_fields d = m_fields m' \<and> m_decode_checksum_valid d \<and>
      m_decode_checksum d = ucast (of_nat (byte_sum (wire_text pre')) :: u8)"
  proof -
    obtain j where "decode_loop dict [] [] (out @ rest) = (Inr (n, j, True), m_fields d)"
      "m_decode_checksum_valid d"
      "m_decode_checksum d = ucast (of_nat (byte_sum (take j (out @ rest))) :: u8)"
      using message_decode_Inr[OF D, unfolded decode_result.select_convs] by (auto simp: empty_message_def)
    with L k show ?thesis by simp
  qed
  moreover have "(ucast (of_nat x :: u8) :: u32) = of_nat (x mod 256)" for x
    by (simp add: word_eq_iff_unsigned unsigned_ucast_eq unsigned_of_nat take_bit_eq_mod)
  ultimately show ?thesis
    using D m' by (simp add: calculate_decode_checksum_def format_checksum_small)
qed




section \<open>Success and failure of encode\<close>

lemma checksum_text_length: "length (field_text (field_string CheckSum_Tag (zero_pad 3 (nat_to_string (n mod 256))))) = 7"
proof -
  have "length (nat_to_string (n mod 256)) \<le> 3"
    using length_nat_to_string_le[of 3 "n mod 256"] mod_less_divisor[of 256 n] by simp
  then show ?thesis
    by (simp add: field_text_def length_zero_pad int_to_string_def nat_to_string.simps)
qed

lemma encode_loop_succeeds:
  assumes fields: "m_tag cs = CheckSum_Tag" "CheckSum_Tag \<notin> set (tags pre)"
    and opt: "options AND set_checksum \<noteq> 0"
    and ascii: "\<forall>c \<in> set (wire_text pre). (of_char c :: nat) < 128"
    and fits: "length (wire_text pre) + 7 \<le> cap"
  shows "let cf = field_string CheckSum_Tag (zero_pad 3 (nat_to_string (byte_sum (wire_text pre) mod 256)))
         in encode_loop cap options (pre @ [cs]) [] (pre @ [cs]) = (Inr (Some (wire_text (pre @ [cf]))), pre @ [cf])"
proof -
  let ?s = "wire_text pre"
  let ?t = "zero_pad 3 (nat_to_string (byte_sum ?s mod 256))"
  have "format_checksum (calculate_checksum ?s) = Inr ?t"
    using ascii_signed_sum[OF ascii] by (simp add: calculate_checksum_nonneg format_checksum_small)
  moreover have "length (field_text (field_string CheckSum_Tag ?t)) = 7" by (rule checksum_text_length)
  moreover have "fc_replace (field_string CheckSum_Tag ?t) (pre @ [cs]) = pre @ [field_string CheckSum_Tag ?t]"
  proof -
    have "\<not> (\<exists>x \<in> set pre. m_tag x = CheckSum_Tag)" using fields(2) by auto
    with fields(1) show ?thesis by (simp add: fc_set_Replace_first_conv replace_first_snoc)
  qed
  ultimately show ?thesis
    using fields opt fits encode_loop_checksum[of pre cs options "pre @ [cs]" cap "[]"]
    by (simp add: encode_field_conv Let_def)
qed

section \<open>Encoding again what was encoded\<close>

lemma fc_replace_found: "fc_try_get (m_tag f) fs = Some f \<Longrightarrow> fc_replace f fs = fs"
  by (simp add: fc_set_Replace_first_conv fc_try_get_def replace_first_restore)

text \<open>The body length of a message that \<open>encode\<close> has set is its body length.\<close>

lemma body_length_settled:
  assumes "m_fields d = fc_replace (field_string CheckSum_Tag cks) (with_body_length options m)"
  shows "with_body_length options d = m_fields d"
proof (cases "options AND set_body_length \<noteq> 0 \<and> fc_try_get BodyLength_Tag (m_fields m) \<noteq> None")
  case True
  let ?bl = "field_string BodyLength_Tag (u32_to_string (calculate_body_length m))"
  from True assms have d: "m_fields d = fc_replace (field_string CheckSum_Tag cks) (fc_replace ?bl (m_fields m))"
    by (simp add: fc_set_u32_def fc_set_string_def)
  then have "calculate_body_length d = calculate_body_length m"
    by (rule calculate_body_length_replace) simp_all
  moreover have "fc_try_get BodyLength_Tag (m_fields d) = Some ?bl"
    using True unfolding d by (simp add: fc_try_get_replace)
  ultimately show ?thesis using fc_replace_found[of ?bl "m_fields d"] by (simp add: fc_set_u32_def fc_set_string_def)
next
  case False
  moreover have "fc_try_get BodyLength_Tag (m_fields d) = None" if "fc_try_get BodyLength_Tag (m_fields m) = None"
    using that unfolding assms by (simp add: fc_try_get_replace fc_set_u32_def fc_set_string_def)
  ultimately show ?thesis
    by (auto simp: fc_set_u32_def fc_set_string_def fc_set_def fc_try_get_def)
qed

text \<open>A message as \<open>encode\<close> left it is encoded to the same text again, and stays as it is.\<close>

lemma encode_again:
  assumes fields: "m_fields m = pre @ [cs]" "m_tag cs = CheckSum_Tag" "CheckSum_Tag \<notin> set (tags pre)"
    and opt: "options AND set_checksum \<noteq> 0"
    and enc: "message_encode cap options m = (Inr (n, out), m')" "n \<noteq> 0"
    and d: "m_fields d = m_fields m'" "n \<le> cap'"
  shows "message_encode cap' options d = (Inr (n, out), d)"
proof -
  obtain pre' cks where p: "tags pre' = tags pre" "format_checksum (calculate_checksum (wire_text pre')) = Inr cks"
    "m_fields m' = pre' @ [field_string CheckSum_Tag cks]" "out = wire_text (m_fields m')" "n = length out"
    "m_fields m' = fc_replace (field_string CheckSum_Tag cks) (with_body_length options m)"
    using encode_parts[OF fields opt enc] by metis
  have pre': "CheckSum_Tag \<notin> set (tags pre')" using p(1) fields(3) by simp
  then have pre'': "\<not> (\<exists>x \<in> set pre'. m_tag x = CheckSum_Tag)" by auto
  have "encode_loop cap' options (m_fields d) [] (m_fields d) =
      (Inr (Some out), fc_replace (field_string CheckSum_Tag cks) (m_fields d))"
    using encode_loop_checksum[OF pre', of "field_string CheckSum_Tag cks" options "m_fields d" cap' "[]"] opt p d
    by (simp add: encode_field_conv)
  also have "fc_replace (field_string CheckSum_Tag cks) (m_fields d) = m_fields d"
    using pre'' by (simp add: d(1) p(3) fc_set_Replace_first_conv replace_first_snoc)
  finally show ?thesis
    using body_length_settled[of d cks options m] p(5,6) d(1) by (simp add: message_encode_def Let_def)
qed

section \<open>What encoding yields\<close>

text \<open>
  A message that, with BodyLength set where the options ask for it, ends in its only CheckSum
  field, whose bytes before that are ASCII and whose encoded text fits the buffer, is encoded: the text is
  that of the fields, with CheckSum set to the sum of all bytes before it modulo 256, as three digits.
\<close>

theorem encode_succeeds:
  assumes fields: "with_body_length options m = pre @ [cs]" "m_tag cs = CheckSum_Tag" "CheckSum_Tag \<notin> set (tags pre)"
    and opt: "options AND set_checksum \<noteq> 0"
    and ascii: "\<forall>c \<in> set (wire_text pre). (of_char c :: nat) < 128"
    and fits: "length (wire_text pre) + 7 \<le> cap"
  shows "let cf = field_string CheckSum_Tag (zero_pad 3 (nat_to_string (byte_sum (wire_text pre) mod 256)));
             out = wire_text (pre @ [cf])
         in message_encode cap options m = (Inr (length out, out), m\<lparr> m_fields := pre @ [cf] \<rparr>)"
  using encode_loop_succeeds[OF fields(2,3) opt ascii fits]
  unfolding message_encode_def fields(1) Let_def by simp

text \<open>
  C40: where \<open>char\<close> is signed, a message whose bytes before CheckSum have a negative signed sum
  that 256 does not divide cannot be encoded: \<open>calculate_checksum\<close> yields a negative remainder,
  which becomes a huge unsigned number that \<open>format_checksum\<close> refuses by throwing.
\<close>

theorem encode_throws_on_negative_sum:
  assumes fields: "m_fields m = pre @ [cs]" "m_tag cs = CheckSum_Tag" "CheckSum_Tag \<notin> set (tags pre)"
    and opt: "options AND set_checksum \<noteq> 0" "options AND set_body_length = 0"
    and sum: "signed_sum (wire_text pre) < 0" "byte_sum (wire_text pre) mod 256 \<noteq> 0"
    and fits: "length (wire_text pre) \<le> cap"
  shows "\<exists>e. message_encode cap options m = (Inl (Runtime_error e), m)"
proof -
  have "\<exists>e. format_checksum (calculate_checksum (wire_text pre)) = Inl (Runtime_error e)"
    using calculate_checksum_negative[OF sum] by (simp add: format_checksum_def)
  with fields opt fits show ?thesis
    using encode_loop_checksum[of pre cs options "m_fields m" cap "[]"]
    by (auto simp: message_encode_def Let_def)
qed

theorem encode_succeeds_witness:
  "message_encode 20 set_checksum (empty_message\<lparr> m_fields := [field_string 8 ''F''] @ [field_string 10 []] \<rparr>) =
     (Inr (11, ''8=F'' @ soh @ ''10=188'' @ soh),
      empty_message\<lparr> m_fields := [field_string 8 ''F'', field_string 10 ''188''] \<rparr>)"
proof -
  have t: "wire_text [field_string 8 ''F''] = ''8=F'' @ soh" by code_simp
  have z: "zero_pad 3 (nat_to_string (byte_sum (''8=F'' @ soh) mod 256)) = ''188''" by code_simp
  have w: "wire_text ([field_string 8 ''F''] @ [field_string 10 ''188'']) = ''8=F'' @ soh @ ''10=188'' @ soh"
    by code_simp
  show ?thesis
    using encode_succeeds[of set_checksum "empty_message\<lparr> m_fields := [field_string 8 ''F''] @ [field_string 10 []] \<rparr>"
        "[field_string 8 ''F'']" "field_string 10 []" 20] w
    by (simp only: t z Let_def) (simp add: set_checksum_def set_body_length_def soh_def)
qed

theorem encode_throws_on_negative_sum_witness:
  "\<exists>e. message_encode 20 set_checksum
     (empty_message\<lparr> m_fields := [field_string 8 [CHR 0x80, CHR 0x80]] @ [field_string 10 []] \<rparr>) =
     (Inl (Runtime_error e), empty_message\<lparr> m_fields := [field_string 8 [CHR 0x80, CHR 0x80]] @ [field_string 10 []] \<rparr>)"
proof -
  have s: "signed_sum (wire_text [field_string 8 [CHR 0x80, CHR 0x80]]) < 0"
    "byte_sum (wire_text [field_string 8 [CHR 0x80, CHR 0x80]]) mod 256 \<noteq> 0"
    "length (wire_text [field_string 8 [CHR 0x80, CHR 0x80]]) \<le> 20"
    by code_simp+
  show ?thesis
    using encode_throws_on_negative_sum[of "empty_message\<lparr> m_fields := [field_string 8 [CHR 0x80, CHR 0x80]] @ [field_string 10 []] \<rparr>"
        _ "field_string 10 []" set_checksum, OF _ _ _ _ _ s]
    by (simp add: set_checksum_def set_body_length_def)
qed

end
