(* ===== verification/Order.thy ===== *)
theory Order
  imports Message
begin

text \<open>
  \<open>libcrocofix/order.cppm\<close>, \<open>order.cpp\<close>: a single order, the fields it currently has, the fields
  a pending cancel or cancel/replace request would give it, and the chain of client order ids.
\<close>

section \<open>State\<close>

record order =
  ord_messages :: "message list"
  ord_key :: string
  mBeginString :: string
  mSenderCompID :: string
  mTargetCompID :: string
  mClOrdID :: field
  mOrigClOrdID :: "field option"
  mPreviousOrdStatus :: "field option"
  mNewClOrdID :: "field option"
  ord_fields :: field_collection
  ord_pending_fields :: field_collection

definition s_identity_fields :: "int set" where
  "s_identity_fields = {BeginString_Tag, SenderCompID_Tag, TargetCompID_Tag, ClOrdID_Tag, OrigClOrdID_Tag}"

definition is_identity_tag :: "int \<Rightarrow> bool" where
  "is_identity_tag tag \<longleftrightarrow> tag \<in> s_identity_fields"

definition is_identity_field :: "field \<Rightarrow> bool" where
  "is_identity_field f \<longleftrightarrow> m_tag f \<in> s_identity_fields"

definition create_key :: "string \<Rightarrow> string \<Rightarrow> string \<Rightarrow> string" where
  "create_key SenderCompID TargetCompID ClOrdID = SenderCompID @ ''-'' @ TargetCompID @ ''-'' @ ClOrdID"

section \<open>Operations\<close>

definition make_order :: "message \<Rightarrow> exn + order" where
  "make_order m =
     (case fc_get BeginString_Tag (m_fields m) of Inl e \<Rightarrow> Inl e | Inr bs \<Rightarrow>
     (case fc_get SenderCompID_Tag (m_fields m) of Inl e \<Rightarrow> Inl e | Inr sender \<Rightarrow>
     (case fc_get TargetCompID_Tag (m_fields m) of Inl e \<Rightarrow> Inl e | Inr target \<Rightarrow>
     (case fc_get ClOrdID_Tag (m_fields m) of Inl e \<Rightarrow> Inl e | Inr cl \<Rightarrow>
       Inr \<lparr> ord_messages = [m],
             ord_key = create_key (m_value sender) (m_value target) (m_value cl),
             mBeginString = m_value bs, mSenderCompID = m_value sender, mTargetCompID = m_value target,
             mClOrdID = cl, mOrigClOrdID = fc_try_get OrigClOrdID_Tag (m_fields m),
             mPreviousOrdStatus = None, mNewClOrdID = None,
             ord_fields = m_fields m, ord_pending_fields = [] \<rparr>))))"

text \<open>The loop shared by \<open>update_fields\<close> and \<open>update_pending_fields\<close>: identity fields are skipped.\<close>

fun set_non_identity :: "field list \<Rightarrow> field_collection \<Rightarrow> field_collection" where
  "set_non_identity [] fs = fs"
| "set_non_identity (g # gs) fs =
     set_non_identity gs (if is_identity_field g then fs else snd (fc_set g Replace_first_or_append fs))"

definition update_pending_fields :: "field_collection \<Rightarrow> order \<Rightarrow> order" where
  "update_pending_fields fs ord = ord\<lparr> ord_pending_fields := set_non_identity fs (ord_pending_fields ord) \<rparr>"

definition update_fields :: "field_collection \<Rightarrow> order \<Rightarrow> order" where
  "update_fields fs ord = ord\<lparr> ord_fields := set_non_identity fs (ord_fields ord) \<rparr>"

definition set_order_field :: "int \<Rightarrow> string \<Rightarrow> set_operation \<Rightarrow> order \<Rightarrow> order" where
  "set_order_field tag v operation ord =
     ord\<lparr> ord_fields := snd (fc_set_string tag v operation (ord_fields ord)) \<rparr>"

definition key_for_message :: "message \<Rightarrow> bool \<Rightarrow> exn + string" where
  "key_for_message m reverse_comp_ids =
     (case fc_get SenderCompID_Tag (m_fields m) of Inl e \<Rightarrow> Inl e | Inr sender \<Rightarrow>
     (case fc_get TargetCompID_Tag (m_fields m) of Inl e \<Rightarrow> Inl e | Inr target \<Rightarrow>
     (case (case fc_try_get OrigClOrdID_Tag (m_fields m) of
              Some f \<Rightarrow> Inr f
            | None \<Rightarrow> fc_get ClOrdID_Tag (m_fields m)) of Inl e \<Rightarrow> Inl e | Inr cl \<Rightarrow>
       Inr (if reverse_comp_ids then create_key (m_value target) (m_value sender) (m_value cl)
            else create_key (m_value sender) (m_value target) (m_value cl)))))"

definition order_update :: "message \<Rightarrow> (order, unit) proc" where
  "order_update m =
     seqP (modifyP (\<lambda>ord. ord\<lparr> ord_messages := ord_messages ord @ [m] \<rparr>))
     (bindP (liftP (message_MsgType m)) (\<lambda>type.
        if type = OrderCancelReplaceRequest_MsgType then
          seqP (modifyP (\<lambda>ord. ord\<lparr> mPreviousOrdStatus := fc_try_get OrdStatus_Tag (ord_fields ord) \<rparr>))
          (bindP (liftP (fc_get ClOrdID_Tag (m_fields m))) (\<lambda>cl.
             modifyP (\<lambda>ord. set_order_field OrdStatus_Tag OrdStatus_PendingReplace Replace_first
                        (update_pending_fields (m_fields m) (ord\<lparr> mNewClOrdID := Some cl \<rparr>)))))
        else if type = OrderCancelRequest_MsgType then
          modifyP (\<lambda>ord. set_order_field OrdStatus_Tag OrdStatus_PendingCancel Replace_first
                     (update_pending_fields (m_fields m)
                        (ord\<lparr> mPreviousOrdStatus := fc_try_get OrdStatus_Tag (ord_fields ord) \<rparr>)))
        else modifyP (update_fields (m_fields m))))"

definition order_commit :: "order \<Rightarrow> order" where
  "order_commit ord = (update_fields (ord_pending_fields ord) ord)\<lparr> ord_pending_fields := [] \<rparr>"

definition order_rollback :: "order \<Rightarrow> order" where
  "order_rollback ord =
     (let ord' = ord\<lparr> ord_pending_fields := [] \<rparr>
      in case mPreviousOrdStatus ord' of
           None \<Rightarrow> ord'
         | Some f \<Rightarrow> ord'\<lparr> ord_fields := snd (fc_set f Replace_first (ord_fields ord')),
                            mPreviousOrdStatus := None \<rparr>)"

text \<open>Give the replacement the client order id \<open>cl\<close> and chain it to the one it had.\<close>

definition adopt_ClOrdID :: "field \<Rightarrow> order \<Rightarrow> order" where
  "adopt_ClOrdID cl replacement =
     (let fs = snd (fc_set cl Replace_first_or_append (ord_fields replacement));
          fs' = snd (fc_set_string OrigClOrdID_Tag (m_value (mClOrdID replacement)) Replace_first_or_append fs)
      in replacement\<lparr> ord_fields := fs', mOrigClOrdID := Some (mClOrdID replacement), mClOrdID := cl \<rparr>)"

text \<open>\<open>order::replace\<close>: the state is the order replaced, the result is the replacement.\<close>

definition order_replace :: "message \<Rightarrow> (order, order) proc" where
  "order_replace execution_report = (\<lambda>this.
     (case order_update execution_report this of
        (Inl e, _) \<Rightarrow> (Inl e, this)
      | (Inr _, copy) \<Rightarrow>
          (let replacement = order_commit copy;
               this' = order_rollback this;
               replacement' =
                 (case mNewClOrdID this' of
                    Some cl \<Rightarrow> adopt_ClOrdID cl replacement
                  | None \<Rightarrow> (case fc_try_get ClOrdID_Tag (m_fields execution_report) of
                               Some cl \<Rightarrow> adopt_ClOrdID cl replacement
                             | None \<Rightarrow> replacement));
               keyed = replacement'\<lparr> ord_key := create_key (mSenderCompID replacement')
                         (mTargetCompID replacement') (m_value (mClOrdID replacement')) \<rparr>
           in (Inr (set_order_field OrdStatus_Tag OrdStatus_New Replace_first keyed),
               (set_order_field OrdStatus_Tag OrdStatus_Replaced Replace_first this')
                 \<lparr> ord_messages := ord_messages this' @ [execution_report] \<rparr>))))"

section \<open>Invariant\<close>

text \<open>An order is stored under the key made of its comp ids and its client order id.\<close>

definition order_ok :: "order \<Rightarrow> bool" where
  "order_ok ord \<longleftrightarrow> ord_key ord = create_key (mSenderCompID ord) (mTargetCompID ord) (m_value (mClOrdID ord))"

abbreviation same_identity :: "order \<Rightarrow> order \<Rightarrow> bool" where
  "same_identity a b \<equiv> ord_key a = ord_key b \<and> mBeginString a = mBeginString b \<and>
     mSenderCompID a = mSenderCompID b \<and> mTargetCompID a = mTargetCompID b \<and>
     mClOrdID a = mClOrdID b \<and> mOrigClOrdID a = mOrigClOrdID b"

lemma order_ok_same: "same_identity a b \<Longrightarrow> order_ok a \<longleftrightarrow> order_ok b"
  by (simp add: order_ok_def)

lemma make_order_ok: "make_order m = Inr ord \<Longrightarrow> order_ok ord"
  by (auto simp: make_order_def order_ok_def split: sum.splits)

lemma order_update_identity: "order_update m ord = (r, ord') \<Longrightarrow> same_identity ord' ord"
  by (auto simp: order_update_def update_pending_fields_def update_fields_def set_order_field_def
      seqP_def bindP_def split: if_splits sum.splits prod.splits)

lemma order_commit_identity: "same_identity (order_commit ord) ord"
  by (simp add: order_commit_def update_fields_def)

lemma order_rollback_identity: "same_identity (order_rollback ord) ord"
  by (auto simp: order_rollback_def Let_def split: option.splits)

lemma order_replace_identity: "order_replace m ord = (r, ord') \<Longrightarrow> same_identity ord' ord"
  using order_rollback_identity[of ord]
  by (auto simp: order_replace_def set_order_field_def Let_def split: sum.splits prod.splits)

lemma order_replace_ok: "order_replace m ord = (Inr rep, ord') \<Longrightarrow> order_ok rep"
  by (auto simp: order_replace_def set_order_field_def order_ok_def Let_def split: sum.splits prod.splits)

section \<open>Fields\<close>

lemma set_non_identity_fold:
  "set_non_identity gs fs = fold fc_upsert (filter (\<lambda>g. \<not> is_identity_field g) gs) fs"
  by (induction gs arbitrary: fs) auto

lemma set_non_identity_identity:
  "is_identity_tag t \<Longrightarrow> fc_try_get t (set_non_identity gs fs) = fc_try_get t fs"
  by (auto simp: set_non_identity_fold is_identity_tag_def is_identity_field_def
      intro: fc.look_fold_upsert_other)

lemma set_non_identity_last:
  "\<not> is_identity_tag t \<Longrightarrow> fc_try_get t (set_non_identity gs fs) =
     (case List.find (has_tag t) (rev gs) of None \<Rightarrow> fc_try_get t fs | Some g \<Rightarrow> Some g)"
proof -
  assume t: "\<not> is_identity_tag t"
  have "List.find (has_tag t) (filter (\<lambda>g. \<not> is_identity_field g) xs) = List.find (has_tag t) xs" for xs
    using t by (induction xs) (auto simp: is_identity_field_def is_identity_tag_def)
  then show ?thesis
    by (simp add: set_non_identity_fold fc.look_fold_upsert rev_filter)
qed

end
