(* ===== verification/Std_Map.thy ===== *)
theory Std_Map
  imports Main "HOL-Library.List_Lexorder" "HOL-Library.Char_ord"
begin

text \<open>
  \<open>std::map\<close> as the sources use it: entries in ascending key order, lookup, \<open>try_emplace\<close> (which
  leaves an existing entry alone) and assignment through an iterator. Strings are compared byte
  by byte, as \<open>std::string\<close> compares them. The interface \<open>ordered_map\<close> states the laws clients use.
\<close>

type_synonym ('k, 'v) std_map = "('k \<times> 'v) list"

definition map_find :: "'k \<Rightarrow> ('k, 'v) std_map \<Rightarrow> 'v option" where
  "map_find k m = map_of m k"

fun map_try_emplace :: "'k::linorder \<Rightarrow> 'v \<Rightarrow> ('k, 'v) std_map \<Rightarrow> bool \<times> ('k, 'v) std_map" where
  "map_try_emplace k v [] = (True, [(k, v)])"
| "map_try_emplace k v ((k', v') # m) =
     (if k < k' then (True, (k, v) # (k', v') # m)
      else if k = k' then (False, (k', v') # m)
      else (let (inserted, m') = map_try_emplace k v m in (inserted, (k', v') # m')))"

text \<open>\<open>it->second = v\<close> for the iterator that \<open>find(k)\<close> returned.\<close>

fun map_assign :: "'k \<Rightarrow> 'v \<Rightarrow> ('k, 'v) std_map \<Rightarrow> ('k, 'v) std_map" where
  "map_assign k v [] = []"
| "map_assign k v ((k', v') # m) = (if k' = k then (k, v) # m else (k', v') # map_assign k v m)"

definition map_ok :: "('k::linorder, 'v) std_map \<Rightarrow> bool" where
  "map_ok m \<longleftrightarrow> sorted_wrt (<) (map fst m)"

section \<open>The interface\<close>

locale ordered_map =
  fixes find :: "'k::linorder \<Rightarrow> 'm \<Rightarrow> 'v option"
    and try_emplace :: "'k \<Rightarrow> 'v \<Rightarrow> 'm \<Rightarrow> bool \<times> 'm"
    and assign :: "'k \<Rightarrow> 'v \<Rightarrow> 'm \<Rightarrow> 'm"
    and ok :: "'m \<Rightarrow> bool"
  assumes emplace_flag: "ok m \<Longrightarrow> fst (try_emplace k v m) \<longleftrightarrow> find k m = None"
    and find_emplace: "ok m \<Longrightarrow> find k' (snd (try_emplace k v m)) =
      (if k' = k \<and> find k m = None then Some v else find k' m)"
    and find_assign: "find k' (assign k v m) = (if k' = k \<and> find k m \<noteq> None then Some v else find k' m)"
    and ok_emplace: "ok m \<Longrightarrow> ok (snd (try_emplace k v m))"
    and ok_assign: "ok m \<Longrightarrow> ok (assign k v m)"
begin

text \<open>A property of every entry, which may depend on the key.\<close>

definition all_entries :: "('k \<Rightarrow> 'v \<Rightarrow> bool) \<Rightarrow> 'm \<Rightarrow> bool" where
  "all_entries P m \<longleftrightarrow> ok m \<and> (\<forall>k v. find k m = Some v \<longrightarrow> P k v)"

lemma all_entries_emplace:
  "all_entries P m \<Longrightarrow> P k v \<Longrightarrow> all_entries P (snd (try_emplace k v m))"
  by (auto simp: all_entries_def find_emplace ok_emplace split: if_splits)

lemma all_entries_assign:
  "all_entries P m \<Longrightarrow> P k v \<Longrightarrow> all_entries P (assign k v m)"
  by (auto simp: all_entries_def find_assign ok_assign split: if_splits)

lemma all_entriesD: "all_entries P m \<Longrightarrow> find k m = Some v \<Longrightarrow> P k v"
  by (simp add: all_entries_def)

lemma emplace_keeps: "ok m \<Longrightarrow> find k' m = Some v' \<Longrightarrow> find k' (snd (try_emplace k v m)) = Some v'"
  by (auto simp: find_emplace)

lemma assign_dom: "find k' (assign k v m) = None \<longleftrightarrow> find k' m = None"
  by (auto simp: find_assign)

end

section \<open>The sorted list implements it\<close>

lemma map_find_less: "\<forall>x \<in> set m. (k :: 'k :: linorder) < fst x \<Longrightarrow> map_of m k = None"
  by (auto simp: map_of_eq_None_iff)

lemma map_try_emplace_cases [simp]:
  "k < k' \<Longrightarrow> map_try_emplace k v ((k', v') # m) = (True, (k, v) # (k', v') # m)"
  "map_try_emplace k v ((k, v') # m) = (False, (k, v') # m)"
  "k' < k \<Longrightarrow> fst (map_try_emplace k v ((k', v') # m)) = fst (map_try_emplace k v m)"
  "k' < k \<Longrightarrow> snd (map_try_emplace k v ((k', v') # m)) = (k', v') # snd (map_try_emplace k v m)"
  by (auto split: prod.splits)

declare map_try_emplace.simps(2) [simp del]

lemma map_try_emplace_flag:
  "map_ok m \<Longrightarrow> fst (map_try_emplace k v m) \<longleftrightarrow> map_find k m = None"
proof (induction m)
  case Nil
  then show ?case by (simp add: map_find_def)
next
  case (Cons e m)
  obtain a b where e: "e = (a, b)" by fastforce
  consider "k < a" | "k = a" | "a < k" by (rule linorder_cases)
  then show ?case
  proof cases
    case 1
    with Cons.prems have "map_of m k = None" by (intro map_find_less) (auto simp: e map_ok_def)
    with 1 show ?thesis by (simp add: e map_find_def)
  next
    case 2
    then show ?thesis by (simp add: e map_find_def)
  next
    case 3
    with Cons show ?thesis by (simp add: e map_find_def map_ok_def)
  qed
qed

lemma map_try_emplace_find:
  "map_ok m \<Longrightarrow> map_find k' (snd (map_try_emplace k v m)) =
     (if k' = k \<and> map_find k m = None then Some v else map_find k' m)"
proof (induction m)
  case Nil
  then show ?case by (simp add: map_find_def)
next
  case (Cons e m)
  obtain a b where e: "e = (a, b)" by fastforce
  consider "k < a" | "k = a" | "a < k" by (rule linorder_cases)
  then show ?case
  proof cases
    case 1
    with Cons.prems have "map_of m k = None" by (intro map_find_less) (auto simp: e map_ok_def)
    with 1 show ?thesis by (auto simp: e map_find_def)
  next
    case 2
    then show ?thesis by (simp add: e map_find_def)
  next
    case 3
    with Cons show ?thesis by (auto simp: e map_find_def map_ok_def)
  qed
qed

lemma map_try_emplace_keys:
  "fst ` set (snd (map_try_emplace k v m)) = insert k (fst ` set m)"
proof (induction m)
  case Nil
  then show ?case by simp
next
  case (Cons e m)
  then show ?case by (cases e; cases k "fst e" rule: linorder_cases) auto
qed

lemma map_try_emplace_ok: "map_ok m \<Longrightarrow> map_ok (snd (map_try_emplace k v m))"
proof (induction m)
  case Nil
  then show ?case by (simp add: map_ok_def)
next
  case (Cons e m)
  obtain a b where e: "e = (a, b)" by fastforce
  consider "k < a" | "k = a" | "a < k" by (rule linorder_cases)
  then show ?case
  proof cases
    case 1
    with Cons.prems show ?thesis by (auto simp: e map_ok_def)
  next
    case 2
    with Cons.prems show ?thesis by (simp add: e)
  next
    case 3
    then have "\<forall>x \<in> fst ` set (snd (map_try_emplace k v m)). a < x"
      using Cons.prems by (auto simp: e map_ok_def map_try_emplace_keys)
    with 3 Cons show ?thesis by (simp add: e map_ok_def)
  qed
qed

lemma map_assign_find:
  "map_find k' (map_assign k v m) = (if k' = k \<and> map_find k m \<noteq> None then Some v else map_find k' m)"
  by (induction m) (auto simp: map_find_def)

lemma map_assign_keys: "map fst (map_assign k v m) = map fst m"
  by (induction m) auto

lemma map_assign_ok: "map_ok m \<Longrightarrow> map_ok (map_assign k v m)"
  by (simp add: map_ok_def map_assign_keys)

interpretation sm: ordered_map map_find map_try_emplace map_assign map_ok
  by unfold_locales
     (simp_all add: map_try_emplace_flag map_try_emplace_find map_assign_find map_try_emplace_ok map_assign_ok)

end
