(* ===== verification/Order_Book.thy ===== *)
theory Order_Book
  imports Order Std_Map
begin

text \<open>
  \<open>libcrocofix/order_book.cppm\<close>, \<open>order_book.cpp\<close>: the orders by key and the handlers of the order
  messages. A handler returns a \<open>std::expected\<close>, here \<open>string + unit\<close> (\<open>Inl\<close> the error text), or
  throws where the code does not catch.
\<close>

section \<open>State and handlers\<close>

record order_book =
  m_orders :: "(string, order) std_map"

definition order_book_clear :: "order_book \<Rightarrow> order_book" where
  "order_book_clear book = book\<lparr> m_orders := [] \<rparr>"

definition process_order_single :: "message \<Rightarrow> (order_book, string + unit) proc" where
  "process_order_single m = (\<lambda>book.
     (case make_order m of
        Inl e \<Rightarrow> (Inr (Inl (what e)), book)
      | Inr ord \<Rightarrow>
          (case map_try_emplace (ord_key ord) ord (m_orders book) of
             (inserted, orders) \<Rightarrow>
               (if inserted then (Inr (Inr ()), book\<lparr> m_orders := orders \<rparr>)
                else (Inr (Inl (''order book already contains an order with key = '' @ ord_key ord)),
                      book\<lparr> m_orders := orders \<rparr>)))))"

text \<open>Run a member function on the order that \<open>find\<close> returned, in place.\<close>

definition on_order :: "string \<Rightarrow> (order, 'a) proc \<Rightarrow> order \<Rightarrow> (order_book, 'a) proc" where
  "on_order key f ord = (\<lambda>book.
     (case f ord of (r, ord') \<Rightarrow> (r, book\<lparr> m_orders := map_assign key ord' (m_orders book) \<rparr>)))"

definition process_execution_report :: "message \<Rightarrow> (order_book, string + unit) proc" where
  "process_execution_report m =
     bindP (liftP (key_for_message m True)) (\<lambda>key.
     bindP (getP (\<lambda>book. map_find key (m_orders book))) (\<lambda>found.
       case found of
         None \<Rightarrow> returnP (Inl (''order book does not contain an order with key = '' @ key))
       | Some ord \<Rightarrow>
           (case fc_try_get ExecType_Tag (m_fields m) of
              Some t \<Rightarrow>
                (if field_eq_value t ExecType_Replaced then
                   bindP (on_order key (order_replace m) ord) (\<lambda>replacement.
                   bindP (getP (\<lambda>book. fst (map_try_emplace (ord_key replacement) replacement (m_orders book)))) (\<lambda>inserted.
                   seqP (modifyP (\<lambda>book. book\<lparr> m_orders := snd (map_try_emplace (ord_key replacement) replacement (m_orders book)) \<rparr>))
                     (returnP (if inserted then Inr ()
                        else Inl (''order book already contains an order with key = '' @ ord_key replacement)))))
                 else seqP (on_order key (order_update m) ord) (returnP (Inr ())))
            | None \<Rightarrow> seqP (on_order key (order_update m) ord) (returnP (Inr ())))))"

definition process_order_cancel_request :: "message \<Rightarrow> (order_book, string + unit) proc" where
  "process_order_cancel_request m =
     bindP (liftP (key_for_message m False)) (\<lambda>key.
     bindP (getP (\<lambda>book. map_find key (m_orders book))) (\<lambda>found.
       case found of
         None \<Rightarrow> returnP (Inl (''order book does not contain an order with key = '' @ key))
       | Some ord \<Rightarrow> seqP (on_order key (order_update m) ord) (returnP (Inr ()))))"

definition process_order_cancel_replace_request :: "message \<Rightarrow> (order_book, string + unit) proc" where
  "process_order_cancel_replace_request m =
     bindP (liftP (key_for_message m False)) (\<lambda>key.
     bindP (getP (\<lambda>book. map_find key (m_orders book))) (\<lambda>found.
       case found of
         None \<Rightarrow> returnP (Inl (''order book does not contain an order with key = '' @ key))
       | Some ord \<Rightarrow> seqP (on_order key (order_update m) ord) (returnP (Inr ()))))"

definition process_order_cancel_reject :: "message \<Rightarrow> (order_book, string + unit) proc" where
  "process_order_cancel_reject m =
     bindP (liftP (key_for_message m True)) (\<lambda>key.
     bindP (getP (\<lambda>book. map_find key (m_orders book))) (\<lambda>found.
       case found of
         None \<Rightarrow> returnP (Inl ''order book does not contain an order with key = '')
       | Some ord \<Rightarrow> seqP (on_order key (modifyP order_rollback) ord) (returnP (Inr ()))))"

definition order_book_process :: "message \<Rightarrow> (order_book, string + unit) proc" where
  "order_book_process m =
     (case fc_try_get MsgType_Tag (m_fields m) of
        None \<Rightarrow> returnP (Inl ''message does not have a MsgType field'')
      | Some t \<Rightarrow>
          (if field_eq_value t NewOrderSingle_MsgType then process_order_single m
           else if field_eq_value t ExecutionReport_MsgType then process_execution_report m
           else if field_eq_value t OrderCancelRequest_MsgType then process_order_cancel_request m
           else if field_eq_value t OrderCancelReplaceRequest_MsgType then process_order_cancel_replace_request m
           else if field_eq_value t OrderCancelReject_MsgType then process_order_cancel_reject m
           else returnP (Inl (''unsupported MsgType = '' @ m_value t))))"

text \<open>A book and the messages it has processed, from an empty book, whatever each call returned or threw.\<close>

inductive book_reachable :: "order_book \<Rightarrow> bool" where
  book_empty: "book_reachable \<lparr> m_orders = [] \<rparr>"
| book_process: "book_reachable book \<Longrightarrow> order_book_process m book = (r, book') \<Longrightarrow> book_reachable book'"
| book_clear: "book_reachable book \<Longrightarrow> book_reachable (order_book_clear book)"

section \<open>Invariant\<close>

definition entry_ok :: "string \<Rightarrow> order \<Rightarrow> bool" where
  "entry_ok k ord \<longleftrightarrow> k = ord_key ord \<and> order_ok ord"

definition book_ok :: "order_book \<Rightarrow> bool" where
  "book_ok book \<longleftrightarrow> sm.all_entries entry_ok (m_orders book)"

text \<open>\<open>book_step\<close>: the orders of a good book are kept under their keys and the book stays good.\<close>

definition book_step :: "order_book \<Rightarrow> order_book \<Rightarrow> bool" where
  "book_step a b \<longleftrightarrow> (book_ok a \<longrightarrow>
     book_ok b \<and> (\<forall>k. map_find k (m_orders a) \<noteq> None \<longrightarrow> map_find k (m_orders b) \<noteq> None))"

interpretation bs: kept_relation "\<lambda>_. book_step"
  by unfold_locales (auto simp: book_step_def)

lemma book_step_emplace:
  "order_ok ord \<Longrightarrow> book_step book (book\<lparr> m_orders := snd (map_try_emplace (ord_key ord) ord (m_orders book)) \<rparr>)"
  by (auto simp: book_step_def book_ok_def entry_ok_def intro!: sm.all_entries_emplace)
     (metis option.distinct(1) sm.all_entries_def sm.emplace_keeps)

lemma on_order_step:
  assumes "map_find key (m_orders book) = Some ord"
    and "\<And>r ord'. f ord = (r, ord') \<Longrightarrow> same_identity ord' ord"
    and "on_order key f ord book = (r, book')"
  shows "book_step book book'"
proof -
  obtain r' ord' where f: "f ord = (r', ord')" by fastforce
  with assms(3) have b: "book' = book\<lparr> m_orders := map_assign key ord' (m_orders book) \<rparr>"
    by (simp add: on_order_def)
  have id: "same_identity ord' ord" by (rule assms(2)[OF f])
  show ?thesis
    unfolding book_step_def
  proof (intro impI conjI)
    assume ok: "book_ok book"
    from ok have "entry_ok key ord" using assms(1) sm.all_entriesD by (auto simp: book_ok_def)
    with id have "entry_ok key ord'" by (simp add: entry_ok_def order_ok_def)
    with ok show "book_ok book'" by (simp add: b book_ok_def sm.all_entries_assign)
    show "\<forall>k. map_find k (m_orders book) \<noteq> None \<longrightarrow> map_find k (m_orders book') \<noteq> None"
      by (simp add: b sm.assign_dom)
  qed
qed

lemma process_order_single_step: "process_order_single m book = (r, book') \<Longrightarrow> book_step book book'"
  using book_step_emplace[of _ book] make_order_ok[of m] bs.refl_R[of book]
  by (auto simp: process_order_single_def split: sum.splits prod.splits if_splits) (metis snd_conv)+

text \<open>The three handlers that look an order up and run one member function on it.\<close>

definition lookup_and_run :: "bool \<Rightarrow> (string \<Rightarrow> string) \<Rightarrow> (order, unit) proc \<Rightarrow> message \<Rightarrow> (order_book, string + unit) proc" where
  "lookup_and_run reversed missing f m =
     bindP (liftP (key_for_message m reversed)) (\<lambda>key.
     bindP (getP (\<lambda>book. map_find key (m_orders book))) (\<lambda>found.
       case found of
         None \<Rightarrow> returnP (Inl (missing key))
       | Some ord \<Rightarrow> seqP (on_order key f ord) (returnP (Inr ()))))"

lemma lookup_and_run_handlers:
  "process_order_cancel_request m =
     lookup_and_run False (\<lambda>key. ''order book does not contain an order with key = '' @ key) (order_update m) m"
  "process_order_cancel_replace_request m =
     lookup_and_run False (\<lambda>key. ''order book does not contain an order with key = '' @ key) (order_update m) m"
  "process_order_cancel_reject m =
     lookup_and_run True (\<lambda>_. ''order book does not contain an order with key = '') (modifyP order_rollback) m"
  by (simp_all only: lookup_and_run_def process_order_cancel_request_def
      process_order_cancel_replace_request_def process_order_cancel_reject_def)

lemma lookup_and_run_apply:
  "lookup_and_run reversed missing f m book =
     (case key_for_message m reversed of
        Inl e \<Rightarrow> (Inl e, book)
      | Inr key \<Rightarrow>
          (case map_find key (m_orders book) of
             None \<Rightarrow> (Inr (Inl (missing key)), book)
           | Some ord \<Rightarrow>
               (case on_order key f ord book of
                  (Inl e, book') \<Rightarrow> (Inl e, book')
                | (Inr _, book') \<Rightarrow> (Inr (Inr ()), book'))))"
  by (auto simp: lookup_and_run_def seqP_def bindP_def split: sum.splits option.splits prod.splits)

lemma lookup_and_run_step:
  assumes "\<And>ord r ord'. f ord = (r, ord') \<Longrightarrow> same_identity ord' ord"
    and "lookup_and_run reversed missing f m book = (r, book')"
  shows "book_step book book'"
  using assms(2) on_order_step[of _ book _ f, OF _ assms(1)] bs.refl_R[of book]
  by (auto simp: lookup_and_run_apply split: sum.splits option.splits prod.splits)

lemma modify_rollback_identity: "modifyP order_rollback ord = (r, ord') \<Longrightarrow> same_identity ord' ord"
  using order_rollback_identity[of ord] by auto

lemma process_execution_report_step:
  assumes "process_execution_report m book = (r, book')"
  shows "book_step book book'"
proof (cases "key_for_message m True")
  case (Inl e)
  with assms bs.refl_R[of book] show ?thesis by (simp add: process_execution_report_def)
next
  case (Inr key)
  show ?thesis
  proof (cases "map_find key (m_orders book)")
    case None
    with Inr assms bs.refl_R[of book] show ?thesis by (simp add: process_execution_report_def)
  next
    case (Some ord)
    let ?replaced = "\<exists>t. fc_try_get ExecType_Tag (m_fields m) = Some t \<and> field_eq_value t ExecType_Replaced"
    show ?thesis
    proof (cases ?replaced)
      case False
      obtain x b where x: "on_order key (order_update m) ord book = (x, b)" by fastforce
      with False Inr Some assms have "book' = b"
        by (cases x) (auto simp: process_execution_report_def split: option.splits if_splits)
      with on_order_step[OF Some _ x] order_update_identity show ?thesis by blast
    next
      case True
      obtain x b where x: "on_order key (order_replace m) ord book = (x, b)" by fastforce
      have step: "book_step book b" using on_order_step[OF Some _ x] order_replace_identity by blast
      show ?thesis
      proof (cases x)
        case (Inl e)
        with True Inr Some assms x have "book' = b" by (auto simp: process_execution_report_def)
        with step show ?thesis by simp
      next
        case rep: (Inr rep)
        with True Inr Some assms x have b: "book' = b\<lparr> m_orders := snd (map_try_emplace (ord_key rep) rep (m_orders b)) \<rparr>"
          by (auto simp: process_execution_report_def)
        from x rep have "order_ok rep"
          by (auto simp: on_order_def split: prod.splits intro: order_replace_ok)
        with step b show ?thesis using book_step_emplace bs.trans_R by blast
      qed
    qed
  qed
qed

lemma order_book_process_step: "order_book_process m book = (r, book') \<Longrightarrow> book_step book book'"
  using process_order_single_step process_execution_report_step bs.refl_R
    lookup_and_run_step[of "order_update m", OF order_update_identity]
    lookup_and_run_step[of "modifyP order_rollback", OF modify_rollback_identity]
  by (auto simp: order_book_process_def lookup_and_run_handlers split: option.splits if_splits)

lemma book_ok_reachable: "book_reachable book \<Longrightarrow> book_ok book"
proof (induction rule: book_reachable.induct)
  case book_empty
  show ?case by (simp add: book_ok_def sm.all_entries_def map_ok_def map_find_def)
next
  case (book_process book m r book')
  then show ?case using order_book_process_step by (auto simp: book_step_def)
next
  case (book_clear book)
  show ?case by (simp add: book_ok_def order_book_clear_def sm.all_entries_def map_ok_def map_find_def)
qed

text \<open>
  C25: in every book reachable from an empty one, whatever messages were processed and whatever
  the handlers returned or threw, the keys are in ascending order with no duplicates, and every
  order is stored under the key made of its own sender, target and client order id.
\<close>

theorem book_invariant:
  assumes "book_reachable book"
  shows "map_ok (m_orders book) \<and>
    (\<forall>k ord. map_find k (m_orders book) = Some ord \<longrightarrow>
       k = ord_key ord \<and> k = create_key (mSenderCompID ord) (mTargetCompID ord) (m_value (mClOrdID ord)))"
  using book_ok_reachable[OF assms] by (auto simp: book_ok_def sm.all_entries_def entry_ok_def order_ok_def)

text \<open>
  Processing a message, whatever its type and whether it succeeds, is refused or throws, never
  removes an order from a reachable book: the key still leads to an order with that key.
\<close>

theorem process_keeps_orders:
  assumes "book_reachable book" "order_book_process m book = (r, book')"
    and "map_find k (m_orders book) = Some ord"
  shows "\<exists>ord'. map_find k (m_orders book') = Some ord' \<and> ord_key ord' = ord_key ord"
proof -
  have ok: "book_ok book"
    using book_ok_reachable[OF assms(1)] .
  with order_book_process_step[OF assms(2)] assms(3) obtain ord' where "book_ok book'"
    "map_find k (m_orders book') = Some ord'" by (auto simp: book_step_def)
  with ok assms(3) show ?thesis by (auto simp: book_ok_def sm.all_entries_def entry_ok_def)
qed

section \<open>Requests and their answers\<close>

lemma fc_replace_absent: "fc_try_get (m_tag f) fs = None \<Longrightarrow> fc_replace f fs = fs"
  by (simp add: fc_set_def fc_try_get_def)

lemma pending_status_rollback:
  "(case fc_try_get OrdStatus_Tag fs of
      None \<Rightarrow> fc_replace (field_string OrdStatus_Tag v) fs
    | Some old \<Rightarrow> fc_replace old (fc_replace (field_string OrdStatus_Tag v) fs)) = fs"
  using fc_replace_absent[of "field_string OrdStatus_Tag v" fs]
  by (auto simp: fc_replace_restore split: option.splits)

text \<open>A request marks the order pending; undoing it gives back the fields the order had.\<close>

lemma request_then_rollback:
  assumes "message_MsgType m = Inr OrderCancelRequest_MsgType \<or> message_MsgType m = Inr OrderCancelReplaceRequest_MsgType"
    and "order_update m ord = (Inr (), ord')"
    and "ord_pending_fields ord = []" "mPreviousOrdStatus ord = None"
  shows "order_rollback ord' = ord\<lparr> ord_messages := ord_messages ord @ [m], mNewClOrdID := mNewClOrdID ord' \<rparr>"
proof -
  obtain v pend where ord': "ord' = ord\<lparr> ord_messages := ord_messages ord @ [m],
      mPreviousOrdStatus := fc_try_get OrdStatus_Tag (ord_fields ord), mNewClOrdID := mNewClOrdID ord',
      ord_pending_fields := pend, ord_fields := fc_replace (field_string OrdStatus_Tag v) (ord_fields ord) \<rparr>"
    using assms(1,2)
    by (auto simp: order_update_def seqP_def bindP_def set_order_field_def update_pending_fields_def
        fc_set_string_def split: sum.splits)
  show ?thesis
  proof (cases "fc_try_get OrdStatus_Tag (ord_fields ord)")
    case None
    with pending_status_rollback[of v "ord_fields ord"] assms(3,4) show ?thesis
      by (subst ord') (simp add: order_rollback_def)
  next
    case (Some old)
    with pending_status_rollback[of v "ord_fields ord"] assms(3,4) show ?thesis
      by (subst ord') (simp add: order_rollback_def)
  qed
qed

lemma lookup_and_run_found:
  assumes "key_for_message m reversed = Inr key" "map_find key (m_orders book) = Some ord" "f ord = (Inr (), ord')"
  shows "lookup_and_run reversed missing f m book =
    (Inr (Inr ()), book\<lparr> m_orders := map_assign key ord' (m_orders book) \<rparr>)"
  using assms by (simp add: lookup_and_run_apply on_order_def)

lemma process_type:
  "fc_try_get MsgType_Tag (m_fields m) = Some (field_string MsgType_Tag OrderCancelRequest_MsgType) \<Longrightarrow>
   order_book_process m = process_order_cancel_request m"
  "fc_try_get MsgType_Tag (m_fields m) = Some (field_string MsgType_Tag OrderCancelReject_MsgType) \<Longrightarrow>
   order_book_process m = process_order_cancel_reject m"
  "fc_try_get MsgType_Tag (m_fields m) = Some (field_string MsgType_Tag ExecutionReport_MsgType) \<Longrightarrow>
   order_book_process m = process_execution_report m"
  "fc_try_get MsgType_Tag (m_fields m) = Some (field_string MsgType_Tag NewOrderSingle_MsgType) \<Longrightarrow>
   order_book_process m = process_order_single m"
  by (simp_all add: order_book_process_def field_eq_value_def)

lemma MsgType_try_get:
  "fc_try_get MsgType_Tag (m_fields m) = Some f \<Longrightarrow> message_MsgType m = Inr (m_value f)"
  by (simp add: message_MsgType_def message_value_def fc_try_get_def)


section \<open>The properties at concrete messages\<close>

definition sample_order_message :: "string \<Rightarrow> string \<Rightarrow> string \<Rightarrow> field list \<Rightarrow> message" where
  "sample_order_message type sender target extra = empty_message\<lparr> m_fields :=
     [field_string 8 ''F'', field_string 35 type, field_string 49 sender, field_string 56 target] @ extra \<rparr>"

definition sample_new_order :: message where
  "sample_new_order = sample_order_message ''D'' ''A'' ''B'' [field_string 11 ''1'', field_string 39 ''0'']"

definition sample_cancel :: message where
  "sample_cancel = sample_order_message ''F'' ''A'' ''B'' [field_string 41 ''1'', field_string 11 ''2'']"

definition sample_cancel_reject :: message where
  "sample_cancel_reject = sample_order_message ''9'' ''B'' ''A'' [field_string 41 ''1'', field_string 11 ''2'']"

definition sample_order :: order where
  "sample_order = \<lparr> ord_messages = [sample_new_order], ord_key = ''A-B-1'', mBeginString = ''F'',
     mSenderCompID = ''A'', mTargetCompID = ''B'', mClOrdID = field_string 11 ''1'', mOrigClOrdID = None,
     mPreviousOrdStatus = None, mNewClOrdID = None, ord_fields = m_fields sample_new_order,
     ord_pending_fields = [] \<rparr>"

definition sample_book :: order_book where
  "sample_book = \<lparr> m_orders = [(''A-B-1'', sample_order)] \<rparr>"

lemma sample_book_process: "order_book_process sample_new_order \<lparr> m_orders = [] \<rparr> = (Inr (Inr ()), sample_book)"
  by code_simp

lemma sample_book_find: "map_find ''A-B-1'' (m_orders sample_book) = Some sample_order"
  by code_simp

lemma sample_book_reachable: "book_reachable sample_book"
  by (rule book_process[OF book_empty sample_book_process])

theorem book_invariant_witness:
  "map_ok (m_orders sample_book) \<and> ''A-B-1'' = ord_key sample_order \<and>
   ''A-B-1'' = create_key (mSenderCompID sample_order) (mTargetCompID sample_order) (m_value (mClOrdID sample_order))"
  using book_invariant[OF sample_book_reachable] sample_book_find by blast

theorem process_keeps_orders_witness:
  "\<exists>ord'. map_find ''A-B-1'' (m_orders (snd (order_book_process sample_cancel sample_book))) = Some ord' \<and>
     ord_key ord' = ''A-B-1''"
  using process_keeps_orders[OF sample_book_reachable surjective_pairing sample_book_find, of sample_cancel]
  by (auto simp: sample_order_def)


end
