(* ===== verification/Order_Lifecycle.thy ===== *)
theory Order_Lifecycle
  imports Order_Book
begin

text \<open>
  The life of an order through \<open>order_book.cpp\<close>: a cancel/replace request and the execution report
  that accepts it, requests made while another one is pending, and the keys of the book.
\<close>

section \<open>Collections with one field per tag\<close>

lemma fold_upsert_distinct: "distinct (tags fs) \<Longrightarrow> distinct (tags (fold fc_upsert gs fs))"
  by (induction gs arbitrary: fs) (auto simp: tags_fc_upsert)

lemma find_tag_rev: "distinct (tags fs) \<Longrightarrow> List.find (has_tag t) (rev fs) = List.find (has_tag t) fs"
proof (induction fs)
  case Nil
  show ?case by simp
next
  case (Cons f fs)
  then have "m_tag f = t \<Longrightarrow> List.find (has_tag t) fs = None" using fc_try_get_None_iff[of t fs] by (simp add: fc_try_get_def)
  with Cons show ?case by (auto simp: find_append split: option.splits)
qed

text \<open>The last field of a message with a given tag: the one that is left after its fields were set in order.\<close>

definition last_field :: "int \<Rightarrow> message \<Rightarrow> field option" where
  "last_field t m = List.find (has_tag t) (rev (m_fields m))"

definition orelse :: "'a option \<Rightarrow> 'a option \<Rightarrow> 'a option" where
  "orelse a b = (case a of Some x \<Rightarrow> Some x | None \<Rightarrow> b)"

lemma set_non_identity_twice:
  assumes "\<not> is_identity_tag t"
  shows "fc_try_get t (set_non_identity (set_non_identity (m_fields rq) []) fs) = orelse (last_field t rq) (fc_try_get t fs)"
proof -
  have d: "distinct (tags (set_non_identity (m_fields rq) []))"
    by (simp add: set_non_identity_fold fold_upsert_distinct)
  have "List.find (has_tag t) (rev (set_non_identity (m_fields rq) [])) = last_field t rq"
    using find_tag_rev[OF d] set_non_identity_last[OF assms, of "m_fields rq" "[]"]
    by (simp add: fc_try_get_def last_field_def split: option.splits)
  then show ?thesis by (simp add: set_non_identity_last[OF assms] orelse_def)
qed

lemma set_non_identity_once:
  "\<not> is_identity_tag t \<Longrightarrow>
   fc_try_get t (set_non_identity (m_fields er) fs) = orelse (last_field t er) (fc_try_get t fs)"
  by (simp add: set_non_identity_last orelse_def last_field_def)

section \<open>A request and the report that accepts it\<close>

text \<open>
  What the replacement holds under a tag: its new client order id, the id it replaces, the other
  identity fields of the order; for every other tag what the request asked for, else what the
  report says, else what the order had; and the status New if any of the three had a status.
\<close>

definition replacement_field :: "message \<Rightarrow> message \<Rightarrow> order \<Rightarrow> field \<Rightarrow> int \<Rightarrow> field option" where
  "replacement_field rq er ord cl t =
     (if t = ClOrdID_Tag then Some cl
      else if t = OrigClOrdID_Tag then Some (field_string OrigClOrdID_Tag (m_value (mClOrdID ord)))
      else if is_identity_tag t then fc_try_get t (ord_fields ord)
      else let f = orelse (last_field t rq) (orelse (last_field t er) (fc_try_get t (ord_fields ord)))
           in if t = OrdStatus_Tag \<and> f \<noteq> None then Some (field_string OrdStatus_Tag OrdStatus_New) else f)"

lemma request_state:
  assumes "message_MsgType rq = Inr OrderCancelReplaceRequest_MsgType" "fc_get ClOrdID_Tag (m_fields rq) = Inr cl"
  shows "order_update rq ord = (Inr (), ord\<lparr> ord_messages := ord_messages ord @ [rq],
      mPreviousOrdStatus := fc_try_get OrdStatus_Tag (ord_fields ord), mNewClOrdID := Some cl,
      ord_pending_fields := set_non_identity (m_fields rq) (ord_pending_fields ord),
      ord_fields := fc_replace (field_string OrdStatus_Tag OrdStatus_PendingReplace) (ord_fields ord) \<rparr>)"
  using assms by (simp add: order_update_def set_order_field_def update_pending_fields_def fc_set_string_def)

lemma report_state:
  assumes "message_MsgType er = Inr ExecutionReport_MsgType"
  shows "order_update er ord = (Inr (), ord\<lparr> ord_messages := ord_messages ord @ [er],
      ord_fields := set_non_identity (m_fields er) (ord_fields ord) \<rparr>)"
  using assms by (simp add: order_update_def update_fields_def)

lemma replace_result:
  assumes rq: "message_MsgType rq = Inr OrderCancelReplaceRequest_MsgType" "fc_get ClOrdID_Tag (m_fields rq) = Inr cl"
    and er: "message_MsgType er = Inr ExecutionReport_MsgType"
    and idle: "ord_pending_fields ord = []" "mPreviousOrdStatus ord = None"
    and u: "order_update rq ord = (Inr (), ord1)"
  obtains rep where "order_replace er ord1 = (Inr rep,
      ord\<lparr> ord_messages := ord_messages ord @ [rq, er], mNewClOrdID := Some cl,
           ord_fields := fc_replace (field_string OrdStatus_Tag OrdStatus_Replaced) (ord_fields ord) \<rparr>)"
    and "mClOrdID rep = cl" "mOrigClOrdID rep = Some (mClOrdID ord)"
    and "ord_key rep = create_key (mSenderCompID ord) (mTargetCompID ord) (m_value cl)"
    and "ord_messages rep = ord_messages ord @ [rq, er]"
    and "\<And>t. fc_try_get t (ord_fields rep) = replacement_field rq er ord cl t"
proof -
  have r: "order_rollback ord1 = ord\<lparr> ord_messages := ord_messages ord @ [rq], mNewClOrdID := Some cl \<rparr>"
    using request_then_rollback[OF _ u idle] rq(1) u request_state[OF rq, of ord] by auto
  have n: "mNewClOrdID ord1 = Some cl" "mNewClOrdID (order_rollback ord1) = Some cl"
    using u request_state[OF rq, of ord] r by auto
  have cl: "m_tag cl = ClOrdID_Tag" using rq(2) by (auto simp: fc_get_def dest: fc_try_get_tag split: option.splits)
  have id: "is_identity_tag ClOrdID_Tag" "is_identity_tag OrigClOrdID_Tag" "\<not> is_identity_tag OrdStatus_Tag"
    by (simp_all add: is_identity_tag_def s_identity_fields_def)
  have o1: "ord1 = ord\<lparr> ord_messages := ord_messages ord @ [rq],
      mPreviousOrdStatus := fc_try_get OrdStatus_Tag (ord_fields ord), mNewClOrdID := Some cl,
      ord_pending_fields := set_non_identity (m_fields rq) [],
      ord_fields := fc_replace (field_string OrdStatus_Tag OrdStatus_PendingReplace) (ord_fields ord) \<rparr>"
    using u request_state[OF rq, of ord] idle by simp
  define base where "base = set_non_identity (set_non_identity (m_fields rq) [])
     (set_non_identity (m_fields er) (fc_replace (field_string OrdStatus_Tag OrdStatus_PendingReplace) (ord_fields ord)))"
  define flds where "flds = fc_replace (field_string OrdStatus_Tag OrdStatus_New)
     (fc_upsert (field_string OrigClOrdID_Tag (m_value (mClOrdID ord))) (fc_upsert cl base))"
  have look: "fc_try_get t flds = replacement_field rq er ord cl t" for t
    using id cl
    by (cases "is_identity_tag t")
       (auto simp: flds_def base_def replacement_field_def fc_try_get_replace fc_try_get_upsert
          set_non_identity_identity set_non_identity_once set_non_identity_twice orelse_def Let_def split: option.splits)
  show thesis
    by (rule that[of "ord\<lparr> ord_messages := ord_messages ord @ [rq, er],
        mPreviousOrdStatus := fc_try_get OrdStatus_Tag (ord_fields ord), mNewClOrdID := Some cl,
        mOrigClOrdID := Some (mClOrdID ord), mClOrdID := cl,
        ord_key := create_key (mSenderCompID ord) (mTargetCompID ord) (m_value cl), ord_fields := flds \<rparr>"])
       (use idle in \<open>simp_all add: look order_replace_def report_state[OF er] r n\<close>,
        simp add: o1 Let_def adopt_ClOrdID_def order_commit_def update_fields_def set_order_field_def
          fc_set_string_def flds_def base_def)
qed

text \<open>
  C23: when an OrderCancelReplaceRequest for an idle order is answered by an ExecutionReport with
  ExecType Replaced, the book then holds, under the key with the new client order id, a replacement
  whose fields are those of \<open>replacement_field\<close> (the new id, OrigClOrdID the replaced id, the
  requested values before the reported and the former ones, status New), and under the old key the
  order with all its former fields but the status, which is Replaced where it had one; no other
  order is touched.
\<close>

theorem replace_request_then_replaced:
  assumes reach: "book_reachable book"
    and found: "map_find key (m_orders book) = Some ord"
    and idle: "ord_pending_fields ord = []" "mPreviousOrdStatus ord = None"
    and rq: "fc_try_get MsgType_Tag (m_fields rq) = Some (field_string MsgType_Tag OrderCancelReplaceRequest_MsgType)"
      "key_for_message rq False = Inr key" "fc_get ClOrdID_Tag (m_fields rq) = Inr cl"
    and er: "fc_try_get MsgType_Tag (m_fields er) = Some (field_string MsgType_Tag ExecutionReport_MsgType)"
      "key_for_message er True = Inr key"
      "fc_try_get ExecType_Tag (m_fields er) = Some (field_string ExecType_Tag ExecType_Replaced)"
    and free: "newkey = create_key (mSenderCompID ord) (mTargetCompID ord) (m_value cl)"
      "map_find newkey (m_orders book) = None"
  shows "\<exists>book1 book2 rep. order_book_process rq book = (Inr (Inr ()), book1) \<and>
    order_book_process er book1 = (Inr (Inr ()), book2) \<and>
    (\<forall>k. map_find k (m_orders book2) =
       (if k = newkey then Some rep
        else if k = key then Some (ord\<lparr> ord_messages := ord_messages ord @ [rq, er], mNewClOrdID := Some cl,
           ord_fields := snd (fc_set (field_string OrdStatus_Tag OrdStatus_Replaced) Replace_first (ord_fields ord)) \<rparr>)
        else map_find k (m_orders book))) \<and>
    mClOrdID rep = cl \<and> mOrigClOrdID rep = Some (mClOrdID ord) \<and> ord_key rep = newkey \<and>
    (\<forall>t. fc_try_get t (ord_fields rep) = replacement_field rq er ord cl t)"
proof -
  note types = MsgType_try_get[OF rq(1), simplified] MsgType_try_get[OF er(1), simplified]
  obtain ord1 where u: "order_update rq ord = (Inr (), ord1)"
    using request_state[OF types(1) rq(3)] by blast
  obtain rep where rep: "order_replace er ord1 = (Inr rep,
      ord\<lparr> ord_messages := ord_messages ord @ [rq, er], mNewClOrdID := Some cl,
           ord_fields := fc_replace (field_string OrdStatus_Tag OrdStatus_Replaced) (ord_fields ord) \<rparr>)"
    (is "_ = (_, ?old)") and ids: "mClOrdID rep = cl" "mOrigClOrdID rep = Some (mClOrdID ord)" "ord_key rep = newkey"
    and flds: "\<And>t. fc_try_get t (ord_fields rep) = replacement_field rq er ord cl t"
    using replace_result[OF types(1) rq(3) types(2) idle u] free(1) by metis
  let ?b1 = "book\<lparr> m_orders := map_assign key ord1 (m_orders book) \<rparr>"
  let ?b2 = "?b1\<lparr> m_orders := map_assign key ?old (m_orders ?b1) \<rparr>"
  let ?b3 = "?b2\<lparr> m_orders := snd (map_try_emplace newkey rep (m_orders ?b2)) \<rparr>"
  have f1: "map_find key (m_orders ?b1) = Some ord1" using found by (simp add: sm.find_assign)
  have free2: "map_find newkey (m_orders ?b2) = None"
    using found free(2) by (auto simp: sm.find_assign)
  have ok: "map_ok (m_orders ?b2)"
    using book_ok_reachable[OF reach] by (simp add: book_ok_def sm.all_entries_def map_assign_ok)
  have "order_book_process rq book = (Inr (Inr ()), ?b1)"
    using rq(1) lookup_and_run_found[of rq False key book ord "order_update rq" ord1, OF rq(2) found u]
    by (simp add: order_book_process_def field_eq_value_def lookup_and_run_handlers)
  moreover have "order_book_process er ?b1 = (Inr (Inr ()), ?b3)"
    unfolding process_type(3)[OF er(1)] process_execution_report_def
    using er(2,3) f1 rep free2 ids(3)
    by (simp add: on_order_def field_eq_value_def sm.emplace_flag[OF ok, simplified])
  moreover have "map_find k (m_orders ?b3) = (if k = newkey then Some rep else if k = key then Some ?old
      else map_find k (m_orders book))" for k
    using free2 found by (auto simp: sm.find_assign sm.find_emplace[OF ok, simplified])
  ultimately show ?thesis using ids flds by blast
qed

section \<open>Keys\<close>

lemma append_separator_inject:
  "a @ x # b = a' @ x # b' \<Longrightarrow> x \<notin> set a \<Longrightarrow> x \<notin> set a' \<Longrightarrow> a = a' \<and> b = b'"
proof (induction a arbitrary: a')
  case Nil
  then show ?case by (cases a') auto
next
  case (Cons y a)
  then show ?case by (cases a') auto
qed

text \<open>
  Where no comp id contains the separator, the key of an order determines its sender, its
  target and its client order id, so different orders never share a key.
\<close>

theorem create_key_injective:
  assumes "CHR ''-'' \<notin> set sender \<union> set target" "CHR ''-'' \<notin> set sender' \<union> set target'"
  shows "create_key sender target cl = create_key sender' target' cl' \<longleftrightarrow>
     sender = sender' \<and> target = target' \<and> cl = cl'"
  using assms append_separator_inject[of sender "CHR ''-''" "target @ CHR ''-'' # cl" sender']
    append_separator_inject[of target "CHR ''-''" cl target' cl']
  by (auto simp: create_key_def)

theorem create_key_injective_witness:
  "create_key ''A'' ''B'' ''1-2'' \<noteq> create_key ''A'' ''C'' ''1-2''"
  using create_key_injective[of "''A''" "''B''" "''A''" "''C''" "''1-2''" "''1-2''"] by simp

text \<open>
  Comp ids that contain the separator make two different orders share a key, and the book then
  refuses the second one.
\<close>

lemma keys_with_separator_collide:
  "(case order_book_process (sample_order_message ''D'' ''A-B'' ''C'' [field_string 11 ''1'']) \<lparr> m_orders = [] \<rparr> of
      (r, book) \<Rightarrow> r = Inr (Inr ()) \<and>
        order_book_process (sample_order_message ''D'' ''A'' ''B-C'' [field_string 11 ''1'']) book =
          (Inr (Inl ''order book already contains an order with key = A-B-C-1''), book))"
  by code_simp

section \<open>Requests while another one is pending\<close>

text \<open>
  A second cancel request before the first one is answered loses the status the order had: when
  both are rejected, the order is left PendingCancel, although it is live and was New.
\<close>

theorem second_request_loses_status:
  "(case order_book_process sample_cancel sample_book of (_, b1) \<Rightarrow>
    case order_book_process sample_cancel b1 of (_, b2) \<Rightarrow>
    case order_book_process sample_cancel_reject b2 of (_, b3) \<Rightarrow>
    case order_book_process sample_cancel_reject b3 of (r, b4) \<Rightarrow>
      r = Inr (Inr ()) \<and>
      map_option (\<lambda>ord. fc_try_get OrdStatus_Tag (ord_fields ord)) (map_find ''A-B-1'' (m_orders b4)) =
        Some (Some (field_string OrdStatus_Tag OrdStatus_PendingCancel)))"
  by code_simp

section \<open>A replacement at concrete messages\<close>

definition sample_replace :: message where
  "sample_replace = sample_order_message ''G'' ''A'' ''B''
     [field_string 41 ''1'', field_string 11 ''2'', field_string 44 ''10'']"

definition sample_replaced :: message where
  "sample_replaced = sample_order_message ''8'' ''B'' ''A''
     [field_string 41 ''1'', field_string 11 ''2'', field_string 150 ''5'', field_string 39 ''5'']"

theorem replace_request_then_replaced_witness:
  "\<exists>book1 book2 rep. order_book_process sample_replace sample_book = (Inr (Inr ()), book1) \<and>
    order_book_process sample_replaced book1 = (Inr (Inr ()), book2) \<and>
    map_find ''A-B-2'' (m_orders book2) = Some rep \<and> mClOrdID rep = field_string 11 ''2'' \<and>
    fc_try_get 44 (ord_fields rep) = Some (field_string 44 ''10'') \<and>
    fc_try_get 39 (ord_fields rep) = Some (field_string 39 ''0'')"
proof -
  have rq: "fc_try_get 35 (m_fields sample_replace) = Some (field_string 35 ''G'')"
    "key_for_message sample_replace False = Inr ''A-B-1''"
    "fc_get 11 (m_fields sample_replace) = Inr (field_string 11 ''2'')"
    by code_simp+
  have er: "fc_try_get 35 (m_fields sample_replaced) = Some (field_string 35 ''8'')"
    "key_for_message sample_replaced True = Inr ''A-B-1''"
    "fc_try_get 150 (m_fields sample_replaced) = Some (field_string 150 ''5'')"
    by code_simp+
  have idle: "ord_pending_fields sample_order = []" "mPreviousOrdStatus sample_order = None"
    by code_simp+
  have free: "''A-B-2'' = create_key (mSenderCompID sample_order) (mTargetCompID sample_order)
      (m_value (field_string 11 ''2''))" "map_find ''A-B-2'' (m_orders sample_book) = None"
    by code_simp+
  have px: "replacement_field sample_replace sample_replaced sample_order (field_string 11 ''2'') 44 = Some (field_string 44 ''10'')"
    "replacement_field sample_replace sample_replaced sample_order (field_string 11 ''2'') 39 = Some (field_string 39 ''0'')"
    by code_simp+
  from replace_request_then_replaced[OF sample_book_reachable sample_book_find idle rq er free]
  show ?thesis using px by (elim exE conjE) (intro exI conjI, assumption+, simp, simp only:, simp only:, simp only:)
qed

end
