(* ===== verification/Session.thy ===== *)
theory Session
  imports Message
begin

text \<open>
  \<open>libcrocofix/session.cppm\<close>, \<open>session.cpp\<close>, \<open>session_options.cppm\<close>, \<open>session_state.cpp\<close>,
  \<open>behaviour.cppm\<close> and the interfaces \<open>reader.cppm\<close>, \<open>writer.cppm\<close>, \<open>scheduler.cppm\<close> it is built on:
  the FIX session layer, one definition per method. The reader, the writer, the scheduler and
  the system clock are a record \<open>links\<close> of operations on a state of their own, so every
  implementation of the interfaces is covered. What the session says through its signals is
  recorded in order; the functions an application connects to the signals are not run. The
  trace probes are not modelled.
\<close>

section \<open>State\<close>

datatype session_state = disconnected | connected | logging_on | resending | logged_on | resetting

fun session_state_to_string :: "session_state \<Rightarrow> string" where
  "session_state_to_string connected = ''connected''"
| "session_state_to_string logging_on = ''loggin_on''"
| "session_state_to_string resending = ''resending''"
| "session_state_to_string logged_on = ''logged_on''"
| "session_state_to_string resetting = ''resetting''"
| "session_state_to_string disconnected = ''unknown''"

datatype behaviour = initiator | acceptor

record session_options =
  m_logon_behaviour :: behaviour
  m_begin_string :: string
  m_sender_comp_id :: string
  m_target_comp_id :: string
  m_heartbeat_interval :: u32
  m_test_request_delay :: u32
  m_timestamp_format :: timestamp_format
  m_use_next_expected_msg_seq_num :: bool

definition default_session_options :: session_options where
  "default_session_options =
     \<lparr> m_logon_behaviour = initiator, m_begin_string = '''', m_sender_comp_id = '''', m_target_comp_id = '''',
       m_heartbeat_interval = 30, m_test_request_delay = 1000, m_timestamp_format = Milliseconds,
       m_use_next_expected_msg_seq_num = False \<rparr>"

record session =
  m_options :: session_options
  m_state :: session_state
  m_logon_received :: bool
  m_expected_test_request_id :: "u32 option"
  m_next_test_request_id :: u32
  m_incoming_msg_seq_num :: u32
  m_outgoing_msg_seq_num :: u32
  m_incoming_resent_msg_seq_num :: u32
  m_incoming_target_msg_seq_num :: u32
  m_test_request_timer_token :: "u64 option"
  m_heartbeat_timer_token :: "u64 option"

definition initial_session :: session where
  "initial_session =
     \<lparr> m_options = default_session_options, m_state = connected, m_logon_received = False,
       m_expected_test_request_id = None, m_next_test_request_id = 0,
       m_incoming_msg_seq_num = 1, m_outgoing_msg_seq_num = 1,
       m_incoming_resent_msg_seq_num = 0, m_incoming_target_msg_seq_num = 0,
       m_test_request_timer_token = None, m_heartbeat_timer_token = None \<rparr>"

text \<open>The closures the session hands to the scheduler, and what its signals carry.\<close>

datatype session_callback = Post_logon_test_request | Defibrillate

datatype signal =
    Error string
  | Warning string
  | Information string
  | State_changed session_state session_state
  | Message_sent message
  | Message_received message

text \<open>
  A call of a virtual function of the reader or the writer: its result or exception, whether the
  object's \<open>closed\<close> signal fired meanwhile, and the state the object is left in. \<open>write\<close> returns
  the message as the call by reference leaves it. The scheduler has no signal; its intervals
  are in milliseconds.
\<close>

type_synonym ('e, 'a) call = "'e \<Rightarrow> (exn + 'a) \<times> bool \<times> 'e"
type_synonym ('e, 'a) quiet_call = "'e \<Rightarrow> (exn + 'a) \<times> 'e"

record 'e links =
  reader_open :: "('e, unit) call"
  reader_close :: "('e, unit) call"
  writer_write :: "message \<Rightarrow> int \<Rightarrow> ('e, message) call"
  writer_close :: "('e, unit) call"
  schedule_relative_callback :: "nat \<Rightarrow> session_callback \<Rightarrow> ('e, u64) quiet_call"
  schedule_repeating_callback :: "nat \<Rightarrow> session_callback \<Rightarrow> ('e, u64) quiet_call"
  cancel_callback :: "u64 \<Rightarrow> ('e, unit) quiet_call"
  system_clock_now :: "'e \<Rightarrow> utc_time \<times> 'e"
  m_orchestration :: orchestration

record 'e world =
  sess :: session
  outside :: 'e
  emitted :: "signal list"

type_synonym ('e, 'a) action = "('e world, 'a) proc"

section \<open>Members, signals and calls of the links\<close>

definition on_session :: "(session \<Rightarrow> session) \<Rightarrow> ('e, unit) action" where
  "on_session f = modifyP (\<lambda>w. w\<lparr> sess := f (sess w) \<rparr>)"

definition the_session :: "(session \<Rightarrow> 'a) \<Rightarrow> ('e, 'a) action" where
  "the_session f = getP (\<lambda>w. f (sess w))"

definition emit :: "signal \<Rightarrow> ('e, unit) action" where
  "emit sig = modifyP (\<lambda>w. w\<lparr> emitted := emitted w @ [sig] \<rparr>)"

definition set_state :: "session_state \<Rightarrow> ('e, unit) action" where
  "set_state st =
     bindP (the_session m_state) (\<lambda>previous.
       whenP (previous \<noteq> st)
         (seqP (on_session (\<lambda>s. s\<lparr> m_state := st \<rparr>)) (emit (State_changed previous st))))"

text \<open>
  A call into a link; the handlers that the constructor connects to the \<open>closed\<close> signals set
  the state to disconnected.
\<close>

definition external :: "('e, 'a) call \<Rightarrow> ('e, 'a) action" where
  "external c = (\<lambda>w.
     (case c (outside w) of (r, closed, e) \<Rightarrow>
        (r, snd (whenP closed (set_state disconnected) (w\<lparr> outside := e \<rparr>)))))"

definition quiet :: "('e, 'a) quiet_call \<Rightarrow> ('e, 'a) action" where
  "quiet c = (\<lambda>w. case c (outside w) of (r, e) \<Rightarrow> (r, w\<lparr> outside := e \<rparr>))"

text \<open>\<open>try { x = f(); } catch (std::exception&) { g }\<close> for an \<open>f\<close> that reads nothing but its argument.\<close>

definition try_catch :: "exn + 'b \<Rightarrow> ('b \<Rightarrow> ('e, 'a) action) \<Rightarrow> ('e, 'a) action \<Rightarrow> ('e, 'a) action" where
  "try_catch r f g = (case r of Inl _ \<Rightarrow> g | Inr x \<Rightarrow> f x)"

definition stoi_u32 :: "string \<Rightarrow> exn + u32" where
  "stoi_u32 t = (case stoi t of Inl e \<Rightarrow> Inl e | Inr i \<Rightarrow> Inr (word_of_int i))"

definition allocate_test_request_id :: "('e, u32) action" where
  "allocate_test_request_id =
     bindP (the_session m_next_test_request_id) (\<lambda>n.
       seqP (on_session (\<lambda>s. s\<lparr> m_next_test_request_id := n + 1 \<rparr>)) (returnP n))"

definition allocate_outgoing_msg_seq_num :: "('e, u32) action" where
  "allocate_outgoing_msg_seq_num =
     bindP (the_session m_outgoing_msg_seq_num) (\<lambda>n.
       seqP (on_session (\<lambda>s. s\<lparr> m_outgoing_msg_seq_num := n + 1 \<rparr>)) (returnP n))"

definition set_incoming_msg_seq_num :: "u32 \<Rightarrow> ('e, unit) action" where
  "set_incoming_msg_seq_num n = on_session (\<lambda>s. s\<lparr> m_incoming_msg_seq_num := n \<rparr>)"

definition set_outgoing_msg_seq_num :: "u32 \<Rightarrow> ('e, unit) action" where
  "set_outgoing_msg_seq_num n = on_session (\<lambda>s. s\<lparr> m_outgoing_msg_seq_num := n \<rparr>)"

section \<open>Options\<close>

definition ensure_options_are_mutable :: "('e, unit) action" where
  "ensure_options_are_mutable =
     bindP (the_session m_state) (\<lambda>st.
       if st \<noteq> connected
       then throwP (Logic_error (''session configuration cannot be changed while state = '' @ session_state_to_string st))
       else returnP ())"

definition on_options :: "(session_options \<Rightarrow> session_options) \<Rightarrow> ('e, unit) action" where
  "on_options f = on_session (\<lambda>s. s\<lparr> m_options := f (m_options s) \<rparr>)"

definition set_logon_behaviour :: "behaviour \<Rightarrow> ('e, unit) action" where
  "set_logon_behaviour b = seqP ensure_options_are_mutable (on_options (\<lambda>opt. opt\<lparr> m_logon_behaviour := b \<rparr>))"

definition set_begin_string_option :: "string \<Rightarrow> ('e, unit) action" where
  "set_begin_string_option v = seqP ensure_options_are_mutable (on_options (\<lambda>opt. opt\<lparr> m_begin_string := v \<rparr>))"

definition set_sender_comp_id :: "string \<Rightarrow> ('e, unit) action" where
  "set_sender_comp_id v = seqP ensure_options_are_mutable (on_options (\<lambda>opt. opt\<lparr> m_sender_comp_id := v \<rparr>))"

definition set_target_comp_id :: "string \<Rightarrow> ('e, unit) action" where
  "set_target_comp_id v = seqP ensure_options_are_mutable (on_options (\<lambda>opt. opt\<lparr> m_target_comp_id := v \<rparr>))"

definition set_heartbeat_interval :: "u32 \<Rightarrow> ('e, unit) action" where
  "set_heartbeat_interval n = on_options (\<lambda>opt. opt\<lparr> m_heartbeat_interval := n \<rparr>)"

definition set_test_request_delay :: "u32 \<Rightarrow> ('e, unit) action" where
  "set_test_request_delay n = seqP ensure_options_are_mutable (on_options (\<lambda>opt. opt\<lparr> m_test_request_delay := n \<rparr>))"

definition set_timestamp_format :: "timestamp_format \<Rightarrow> ('e, unit) action" where
  "set_timestamp_format f = on_options (\<lambda>opt. opt\<lparr> m_timestamp_format := f \<rparr>)"

definition set_use_next_expected_msg_seq_num :: "bool \<Rightarrow> ('e, unit) action" where
  "set_use_next_expected_msg_seq_num b = on_options (\<lambda>opt. opt\<lparr> m_use_next_expected_msg_seq_num := b \<rparr>)"

section \<open>Sending\<close>

text \<open>
  The header fields \<open>send\<close> writes into the message: \<open>n\<close> is the number it allocates when
  \<open>options\<close> asks for one, \<open>now\<close> the time of the call.
\<close>

definition stamp_fields :: "session_options \<Rightarrow> int \<Rightarrow> u32 \<Rightarrow> utc_time \<Rightarrow> field_collection \<Rightarrow> field_collection" where
  "stamp_fields opt options n now fs =
     (let fs = (if options AND set_begin_string \<noteq> 0
                then snd (fc_set_string BeginString_Tag (m_begin_string opt) Replace_first fs) else fs);
          fs = snd (fc_set_string SenderCompID_Tag (m_sender_comp_id opt) Replace_first fs);
          fs = snd (fc_set_string TargetCompID_Tag (m_target_comp_id opt) Replace_first fs);
          fs = (if options AND set_msg_seq_num \<noteq> 0
                then snd (fc_set_u32 MsgSeqNum_Tag n Replace_first fs) else fs);
          fs = snd (fc_set_string SendingTime_Tag (timestamp_string (m_timestamp_format opt) now) Replace_first fs)
      in if options AND set_checksum \<noteq> 0
         then snd (fc_set_string CheckSum_Tag '''' Replace_first_or_append fs) else fs)"

text \<open>\<open>session::send\<close>; the result is the message as the caller's reference sees it afterwards.\<close>

definition session_send :: "'e links \<Rightarrow> message \<Rightarrow> int \<Rightarrow> ('e, message) action" where
  "session_send io m options =
     bindP (liftP (message_MsgType m)) (\<lambda>type.
     bindP (if type = Logon_MsgType then liftP (message_ResetSeqNumFlag m) else returnP False) (\<lambda>reset_flag.
     seqP (whenP reset_flag
       (seqP (set_state resetting) (seqP (set_outgoing_msg_seq_num 1) (set_incoming_msg_seq_num 1))))
     (bindP (the_session m_options) (\<lambda>opt.
     bindP (if options AND set_msg_seq_num \<noteq> 0 then allocate_outgoing_msg_seq_num else returnP 0) (\<lambda>n.
     bindP (quiet (\<lambda>e. case system_clock_now io e of (t, e') \<Rightarrow> (Inr t, e'))) (\<lambda>now.
     bindP (external (writer_write io (m\<lparr> m_fields := stamp_fields opt options n now (m_fields m) \<rparr>) options)) (\<lambda>m'.
     seqP (emit (Message_sent m')) (returnP m'))))))))"

text \<open>\<open>send(message)\<close> of a message built by the session itself, with the default options.\<close>

definition send_standard :: "'e links \<Rightarrow> message \<Rightarrow> ('e, unit) action" where
  "send_standard io m = seqP (session_send io m encode_standard) (returnP ())"

definition session_close :: "'e links \<Rightarrow> ('e, unit) action" where
  "session_close io =
     seqP (external (reader_close io)) (seqP (external (writer_close io)) (set_state disconnected))"

definition stop_defibrillator :: "'e links \<Rightarrow> ('e, unit) action" where
  "stop_defibrillator io =
     bindP (the_session m_heartbeat_timer_token) (\<lambda>token.
       case token of
         None \<Rightarrow> returnP ()
       | Some t \<Rightarrow> seqP (quiet (cancel_callback io t)) (on_session (\<lambda>s. s\<lparr> m_heartbeat_timer_token := None \<rparr>)))"

definition start_defibrillator :: "'e links \<Rightarrow> ('e, unit) action" where
  "start_defibrillator io =
     seqP (stop_defibrillator io)
     (bindP (the_session (\<lambda>s. m_heartbeat_interval (m_options s))) (\<lambda>interval.
        if interval = 0 then returnP ()
        else bindP (quiet (schedule_repeating_callback io (unat (interval * 1000)) Defibrillate)) (\<lambda>token.
               on_session (\<lambda>s. s\<lparr> m_heartbeat_timer_token := Some token \<rparr>))))"

definition defibrillate :: "'e links \<Rightarrow> ('e, unit) action" where
  "defibrillate io =
     bindP (the_session m_state) (\<lambda>st.
       if st \<noteq> logged_on then returnP ()
       else send_standard io (make_message True [field_string MsgType_Tag Heartbeat_MsgType]))"

definition stop_test_request_timer :: "'e links \<Rightarrow> ('e, unit) action" where
  "stop_test_request_timer io =
     bindP (the_session m_test_request_timer_token) (\<lambda>token.
       case token of
         None \<Rightarrow> returnP ()
       | Some t \<Rightarrow> seqP (quiet (cancel_callback io t)) (on_session (\<lambda>s. s\<lparr> m_test_request_timer_token := None \<rparr>)))"

definition send_test_request :: "'e links \<Rightarrow> ('e, unit) action" where
  "send_test_request io =
     bindP allocate_test_request_id (\<lambda>n.
     seqP (on_session (\<lambda>s. s\<lparr> m_expected_test_request_id := Some n \<rparr>))
       (send_standard io (make_message True
          [field_string MsgType_Tag TestRequest_MsgType, field_u32 TestReqID_Tag n])))"

definition send_post_logon_test_request :: "'e links \<Rightarrow> ('e, unit) action" where
  "send_post_logon_test_request io =
     bindP (the_session (\<lambda>s. m_test_request_delay (m_options s))) (\<lambda>delay.
       if delay \<noteq> 0 then
         bindP (quiet (schedule_relative_callback io (unat delay) Post_logon_test_request)) (\<lambda>token.
           on_session (\<lambda>s. s\<lparr> m_test_request_timer_token := Some token \<rparr>))
       else send_test_request io)"

definition send_logon :: "'e links \<Rightarrow> bool \<Rightarrow> ('e, unit) action" where
  "send_logon io reset_seq_num_flag =
     bindP (the_session id) (\<lambda>s.
       let logon = make_message True
             [field_string MsgType_Tag Logon_MsgType, field_string EncryptMethod_Tag EncryptMethod_None,
              field_u32 HeartBtInt_Tag (m_heartbeat_interval (m_options s))];
           fs = (if reset_seq_num_flag
                 then snd (fc_set_bool ResetSeqNumFlag_Tag reset_seq_num_flag Replace_first_or_append (m_fields logon))
                 else m_fields logon);
           fs' = (if m_use_next_expected_msg_seq_num (m_options s)
                  then snd (fc_set_u32 NextExpectedMsgSeqNum_Tag (m_incoming_msg_seq_num s) Replace_first_or_append fs)
                  else fs)
       in send_standard io (logon\<lparr> m_fields := fs' \<rparr>))"

definition send_logout :: "'e links \<Rightarrow> string \<Rightarrow> ('e, unit) action" where
  "send_logout io t =
     seqP (send_standard io (make_message True [field_string MsgType_Tag Logout_MsgType, field_string Text_Tag t]))
     (seqP (bindP (the_session m_state) (\<lambda>st.
              whenP (st = logged_on) (seqP (stop_defibrillator io) (set_state connected))))
           (session_close io))"

definition send_reject :: "'e links \<Rightarrow> message \<Rightarrow> string \<Rightarrow> string option \<Rightarrow> ('e, unit) action" where
  "send_reject io m t reason =
     bindP (liftP (message_MsgSeqNum m)) (\<lambda>n.
       let reject = make_message True
             [field_string MsgType_Tag Reject_MsgType, field_u32 RefSeqNum_Tag n, field_string Text_Tag t]
       in case reason of
            None \<Rightarrow> send_standard io reject
          | Some r \<Rightarrow>
              bindP (liftP (is_field_defined (m_orchestration io) (word_of_int SessionRejectReason_Tag))) (\<lambda>defined.
                send_standard io
                  (if defined
                   then reject\<lparr> m_fields := snd (fc_set_string SessionRejectReason_Tag r Replace_first_or_append (m_fields reject)) \<rparr>
                   else reject)))"

definition send_gap_fill :: "'e links \<Rightarrow> u32 \<Rightarrow> u32 \<Rightarrow> ('e, unit) action" where
  "send_gap_fill io msg_seq_num new_seq_no =
     seqP (session_send io (make_message True
         [field_string MsgType_Tag SequenceReset_MsgType, field_u32 MsgSeqNum_Tag msg_seq_num,
          field_bool GapFillFlag_Tag True, field_bool PossDupFlag_Tag True, field_u32 NewSeqNo_Tag new_seq_no])
       (encode_standard AND NOT set_msg_seq_num)) (returnP ())"

definition perform_resend :: "'e links \<Rightarrow> u32 \<Rightarrow> u32 \<Rightarrow> ('e, unit) action" where
  "perform_resend io begin_msg_seq_num end_msg_seq_num =
     bindP (the_session m_outgoing_msg_seq_num) (\<lambda>n. send_gap_fill io begin_msg_seq_num n)"

section \<open>Validation\<close>

text \<open>The answer the first four checks give to a message they refuse.\<close>

definition reject_and_close :: "'e links \<Rightarrow> message \<Rightarrow> string \<Rightarrow> string \<Rightarrow> ('e, bool) action" where
  "reject_and_close io m t reason =
     seqP (emit (Error t)) (seqP (send_reject io m t (Some reason)) (seqP (session_close io) (returnP False)))"

definition validate_checksum :: "'e links \<Rightarrow> message \<Rightarrow> ('e, bool) action" where
  "validate_checksum io m =
     (case fc_try_get CheckSum_Tag (m_fields m) of
        None \<Rightarrow> reject_and_close io m ''Received message without a CheckSum'' SessionRejectReason_RequiredTagMissing
      | Some CheckSum \<Rightarrow>
          bindP (liftP (calculate_decode_checksum m)) (\<lambda>n.
          bindP (liftP (format_checksum n)) (\<lambda>calculated_checksum.
            if m_value CheckSum \<noteq> calculated_checksum then
              reject_and_close io m
                (''Received message with an invalid CheckSum, expected '' @ calculated_checksum @
                 '' received '' @ m_value CheckSum) SessionRejectReason_ValueIsIncorrect
            else returnP True)))"

definition validate_body_length :: "'e links \<Rightarrow> message \<Rightarrow> ('e, bool) action" where
  "validate_body_length io m =
     (case fc_try_get BodyLength_Tag (m_fields m) of
        None \<Rightarrow> reject_and_close io m ''Received message without a BodyLength'' SessionRejectReason_RequiredTagMissing
      | Some BodyLength \<Rightarrow>
          (let calculated_body_length = u32_to_string (calculate_body_length m)
           in if m_value BodyLength \<noteq> calculated_body_length then
                reject_and_close io m
                  (''Received message with an invalid BodyLength, expected '' @ calculated_body_length @
                   '' received '' @ m_value BodyLength) SessionRejectReason_ValueIsIncorrect
              else returnP True))"

definition validate_begin_string :: "'e links \<Rightarrow> message \<Rightarrow> ('e, bool) action" where
  "validate_begin_string io m =
     (case fc_try_get BeginString_Tag (m_fields m) of
        None \<Rightarrow> reject_and_close io m ''Received message without a BeginString'' SessionRejectReason_RequiredTagMissing
      | Some BeginString \<Rightarrow>
          bindP (the_session (\<lambda>s. m_begin_string (m_options s))) (\<lambda>expected.
            if m_value BeginString \<noteq> expected then
              reject_and_close io m
                (''Invalid BeginString, received '' @ m_value BeginString @ '' when expecting '' @ expected)
                SessionRejectReason_ValueIsIncorrect
            else returnP True))"

definition quoted :: "string \<Rightarrow> string" where
  "quoted t = [CHR 0x27] @ t @ [CHR 0x27]"

definition comp_id_text :: "field option \<Rightarrow> string" where
  "comp_id_text f = (case f of Some g \<Rightarrow> m_value g | None \<Rightarrow> '''')"

definition validate_comp_ids :: "'e links \<Rightarrow> message \<Rightarrow> ('e, bool) action" where
  "validate_comp_ids io m =
     bindP (the_session m_options) (\<lambda>opt.
       let TargetCompId = fc_try_get TargetCompID_Tag (m_fields m);
           SenderCompId = fc_try_get SenderCompID_Tag (m_fields m)
       in if TargetCompId = None \<or> comp_id_text TargetCompId \<noteq> m_sender_comp_id opt then
            reject_and_close io m
              (''Received TargetCompID '' @ quoted (comp_id_text TargetCompId) @ '' when expecting '' @
               quoted (m_sender_comp_id opt)) SessionRejectReason_CompIDProblem
          else if SenderCompId = None \<or> comp_id_text SenderCompId \<noteq> m_target_comp_id opt then
            reject_and_close io m
              (''Received SenderCompID '' @ quoted (comp_id_text SenderCompId) @ '' when expecting '' @
               quoted (m_target_comp_id opt)) SessionRejectReason_CompIDProblem
          else returnP True)"

definition request_resend :: "'e links \<Rightarrow> u32 \<Rightarrow> ('e, unit) action" where
  "request_resend io received_msg_seq_num =
     bindP (the_session m_incoming_msg_seq_num) (\<lambda>expected.
     seqP (emit (Information (''Recoverable message sequence error, expected '' @ u32_to_string expected @
       '' received '' @ u32_to_string received_msg_seq_num @ '' - initiating recovery'')))
     (seqP (set_state resending)
     (seqP (on_session (\<lambda>s. s\<lparr> m_incoming_resent_msg_seq_num := expected,
                               m_incoming_target_msg_seq_num := received_msg_seq_num \<rparr>))
     (seqP (emit (Information (''Requesting resend, BeginSeqNo '' @ u32_to_string expected @
       '' EndSeqNo '' @ u32_to_string received_msg_seq_num)))
     (send_standard io (make_message True
        [field_string MsgType_Tag ResendRequest_MsgType, field_u32 BeginSeqNo_Tag expected,
         field_u32 EndSeqNo_Tag received_msg_seq_num]))))))"

definition sequence_number_is_high :: "'e links \<Rightarrow> message \<Rightarrow> ('e, bool) action" where
  "sequence_number_is_high io m =
     bindP (liftP (message_MsgSeqNum m)) (\<lambda>n.
     bindP (the_session id) (\<lambda>s.
       if n > m_incoming_msg_seq_num s then
         seqP (if m_state s = resending then
                 whenP (n > m_incoming_target_msg_seq_num s)
                   (on_session (\<lambda>s. s\<lparr> m_incoming_target_msg_seq_num := n \<rparr>))
               else request_resend io n)
           (returnP True)
       else returnP False))"

definition sequence_number_is_low :: "'e links \<Rightarrow> message \<Rightarrow> ('e, bool) action" where
  "sequence_number_is_low io m =
     bindP (liftP (message_MsgSeqNum m)) (\<lambda>n.
     bindP (the_session m_incoming_msg_seq_num) (\<lambda>expected.
       if n < expected then
         (let t = ''MsgSeqNum too low, expecting '' @ u32_to_string expected @ '' but received '' @ u32_to_string n
          in seqP (emit (Error t)) (seqP (send_logout io t) (returnP True)))
       else returnP False))"

definition validate_sequence_numbers :: "'e links \<Rightarrow> message \<Rightarrow> ('e, bool) action" where
  "validate_sequence_numbers io m =
     bindP (sequence_number_is_high io m) (\<lambda>high.
       if high then returnP False
       else bindP (sequence_number_is_low io m) (\<lambda>low. returnP (\<not> low)))"

definition validate_first_message :: "'e links \<Rightarrow> message \<Rightarrow> ('e, bool) action" where
  "validate_first_message io m =
     bindP (the_session id) (\<lambda>s.
       if m_logon_behaviour (m_options s) = initiator then returnP True
       else if m_logon_received s then returnP True
       else bindP (liftP (message_MsgType m)) (\<lambda>type.
         if type = Logon_MsgType then returnP True
         else if type = Reject_MsgType \<or> type = Logout_MsgType then returnP True
         else (let t = ''First message is not a Logon''
               in seqP (emit (Error t))
                  (seqP (send_reject io m t (Some SessionRejectReason_Other))
                  (seqP (send_logout io t) (returnP False))))))"

section \<open>Processing\<close>

definition session_logon :: "'e links \<Rightarrow> ('e, unit) action" where
  "session_logon io =
     bindP (the_session id) (\<lambda>s.
       if m_state s \<noteq> connected
       then throwP (Logic_error (''logon cannot be initiated in the current state '' @ session_state_to_string (m_state s)))
       else seqP (set_state logging_on)
              (if m_logon_behaviour (m_options s) \<noteq> initiator then returnP () else send_logon io False))"

definition session_open :: "'e links \<Rightarrow> ('e, unit) action" where
  "session_open io = seqP (external (reader_open io)) (session_logon io)"

definition session_reset :: "'e links \<Rightarrow> ('e, unit) action" where
  "session_reset io =
     seqP (stop_defibrillator io) (seqP (set_state resetting)
       (seqP (set_outgoing_msg_seq_num 1) (set_incoming_msg_seq_num 1)))"

definition extract_heartbeat_interval :: "'e links \<Rightarrow> message \<Rightarrow> ('e, bool) action" where
  "extract_heartbeat_interval io logon =
     (let refuse = (\<lambda>t reason. seqP (emit (Error t)) (seqP (send_reject io logon t (Some reason))
                                 (seqP (send_logout io t) (returnP False))))
      in case fc_try_get HeartBtInt_Tag (m_fields logon) of
           None \<Rightarrow> refuse ''Logon message does not contain a HeartBtInt'' SessionRejectReason_RequiredTagMissing
         | Some heartBtInt \<Rightarrow>
             try_catch (stoi_u32 (m_value heartBtInt))
               (\<lambda>n. seqP (set_heartbeat_interval n) (returnP True))
               (refuse (m_value heartBtInt @ '' is not a valid numeric HeartBtInt'') SessionRejectReason_ValueIsIncorrect))"

text \<open>The part of \<open>process_logon\<close> under \<open>use_next_expected_msg_seq_num()\<close>.\<close>

definition process_logon_next_expected :: "'e links \<Rightarrow> message \<Rightarrow> ('e, bool) action" where
  "process_logon_next_expected io logon =
     (let refuse = (\<lambda>t. seqP (emit (Error t)) (seqP (send_logout io t) (returnP False)))
      in case fc_try_get NextExpectedMsgSeqNum_Tag (m_fields logon) of
           None \<Rightarrow> refuse ''Logon does not contain NextExpectedMsgSeqNum''
         | Some f \<Rightarrow>
             try_catch (stoi_u32 (m_value f))
               (\<lambda>next_expected.
                  bindP (the_session id) (\<lambda>s.
                    let outgoing = m_outgoing_msg_seq_num s
                    in if next_expected > outgoing then
                         refuse (''NextExpectedMsgSeqNum too high, expecting '' @ u32_to_string outgoing @
                                 '' but received '' @ u32_to_string next_expected)
                       else
                         seqP (whenP (next_expected + 1 < outgoing)
                           (seqP (emit (Warning (''NextExpectedMsgSeqNum too low, expecting '' @ u32_to_string outgoing @
                              '' but received '' @ u32_to_string next_expected @ '' - performing resend'')))
                           (seqP (set_state resending) (perform_resend io next_expected outgoing))))
                         (seqP (whenP (m_logon_behaviour (m_options s) = acceptor) (send_logon io False))
                         (seqP (send_post_logon_test_request io) (returnP True)))))
               (refuse (m_value f @ '' is not a valid value for NextExpectedMsgSeqNum'')))"

definition process_logon :: "'e links \<Rightarrow> message \<Rightarrow> ('e, bool) action" where
  "process_logon io logon =
     bindP (liftP (message_ResetSeqNumFlag logon)) (\<lambda>reset_seq_num_flag.
     guardP (extract_heartbeat_interval io logon) False
     (seqP (on_session (\<lambda>s. s\<lparr> m_logon_received := True \<rparr>))
     (bindP (the_session m_options) (\<lambda>opt.
        if m_use_next_expected_msg_seq_num opt then process_logon_next_expected io logon
        else if reset_seq_num_flag then
          bindP (liftP (message_MsgSeqNum logon)) (\<lambda>n.
            if n \<noteq> 1 then
              seqP (emit (Error ''Invalid logon message, the ResetSeqNumFlag is set and the MsgSeqNum is not 1''))
                (returnP False)
            else bindP (the_session m_state) (\<lambda>st.
              if st = resetting then seqP (send_test_request io) (returnP True)
              else seqP (emit (Information ''Logon message received with ResetSeqNumFlag - resetting sequence numbers''))
                (seqP (session_reset io)
                (seqP (send_logon io True)
                (seqP (send_post_logon_test_request io) (returnP True))))))
        else
          bindP (sequence_number_is_low io logon) (\<lambda>low.
            if low then returnP False
            else seqP (whenP (m_logon_behaviour opt = acceptor) (send_logon io reset_seq_num_flag))
              (bindP (sequence_number_is_high io logon) (\<lambda>high.
                 if high then returnP False
                 else seqP (send_post_logon_test_request io) (returnP True))))))))"

definition process_logout :: "'e links \<Rightarrow> message \<Rightarrow> ('e, unit) action" where
  "process_logout io logout =
     seqP (emit (Information ''Closing session in response to Logout'')) (session_close io)"

definition process_test_request :: "'e links \<Rightarrow> message \<Rightarrow> ('e, unit) action" where
  "process_test_request io test_request =
     (case fc_try_get TestReqID_Tag (m_fields test_request) of
        None \<Rightarrow>
          (let t = ''TestRequest does not contain a TestReqID''
           in seqP (send_reject io test_request t (Some SessionRejectReason_RequiredTagMissing)) (emit (Error t)))
      | Some testReqId \<Rightarrow>
          send_standard io (make_message True
            [field_string MsgType_Tag Heartbeat_MsgType, field_string TestReqID_Tag (m_value testReqId)]))"

definition process_heartbeat :: "'e links \<Rightarrow> message \<Rightarrow> ('e, unit) action" where
  "process_heartbeat io heartbeat =
     bindP (the_session id) (\<lambda>s.
       let finish = seqP (set_state logged_on) (start_defibrillator io)
       in if m_state s \<noteq> logging_on \<and> m_state s \<noteq> resetting \<and> m_state s \<noteq> resending then returnP ()
          else case fc_try_get TestReqID_Tag (m_fields heartbeat) of
                 None \<Rightarrow> finish
               | Some testReqId \<Rightarrow>
                   (case m_expected_test_request_id s of
                      None \<Rightarrow> emit (Warning ''Received a Heartbeat with an unexpected TestReqID'')
                    | Some expected \<Rightarrow>
                        (if m_value testReqId \<noteq> u32_to_string expected then
                           seqP (emit (Error ''Received a Heartbeat with an incorrect TestReqID during Logon - disconnecting''))
                             (session_close io)
                         else finish)))"

text \<open>The answer of \<open>process_sequence_reset\<close> and \<open>process_resend_request\<close> to a message they refuse.\<close>

definition report_and_reject :: "'e links \<Rightarrow> message \<Rightarrow> string \<Rightarrow> string \<Rightarrow> ('e, unit) action" where
  "report_and_reject io m t reason = seqP (emit (Error t)) (send_reject io m t (Some reason))"

text \<open>The end of \<open>process_sequence_reset\<close>.\<close>

definition finish_resend :: "'e links \<Rightarrow> ('e, unit) action" where
  "finish_resend io =
     bindP (the_session id) (\<lambda>s.
       whenP (m_state s = resending \<and> m_incoming_resent_msg_seq_num s \<ge> m_incoming_target_msg_seq_num s)
         (seqP (emit (Information ''Resend complete''))
         (seqP (send_test_request io) (start_defibrillator io))))"

text \<open>Its branch for a gap fill.\<close>

definition process_gap_fill :: "'e links \<Rightarrow> message \<Rightarrow> u32 \<Rightarrow> ('e, unit) action" where
  "process_gap_fill io sequence_reset NewSeqNo =
     guardP (validate_sequence_numbers io sequence_reset) ()
     (bindP (the_session id) (\<lambda>s.
        let next_expected = m_use_next_expected_msg_seq_num (m_options s)
        in if (next_expected \<and> m_state s \<noteq> logging_on) \<or> (\<not> next_expected \<and> m_state s \<noteq> resending) then
             report_and_reject io sequence_reset
               ''SequenceReset GapFill is not valid while not performing a resend'' SessionRejectReason_Other
           else
             seqP (emit (Information (''SeqenceReset (GapFill) received, NewSeqNo = '' @ u32_to_string NewSeqNo)))
             (seqP (on_session (\<lambda>s. s\<lparr> m_incoming_resent_msg_seq_num := NewSeqNo \<rparr>))
             (seqP (set_incoming_msg_seq_num NewSeqNo) (finish_resend io)))))"

definition process_sequence_reset :: "'e links \<Rightarrow> message \<Rightarrow> bool \<Rightarrow> ('e, unit) action" where
  "process_sequence_reset io sequence_reset poss_dup =
     (case fc_try_get NewSeqNo_Tag (m_fields sequence_reset) of
        None \<Rightarrow> report_and_reject io sequence_reset
                  ''SequenceReset does not contain a NewSeqNo field'' SessionRejectReason_RequiredTagMissing
      | Some NewSeqNo_field \<Rightarrow>
          bindP (liftP (message_GapFillFlag sequence_reset)) (\<lambda>GapFill.
          try_catch (stoi_u32 (m_value NewSeqNo_field))
            (\<lambda>NewSeqNo.
               bindP (the_session m_incoming_msg_seq_num) (\<lambda>expected.
                 if NewSeqNo \<le> expected then
                   report_and_reject io sequence_reset
                     (''NewSeqNo is not greater than expected MsgSeqNum = '' @ u32_to_string expected)
                     SessionRejectReason_ValueIsIncorrect
                 else if GapFill then process_gap_fill io sequence_reset NewSeqNo
                 else
                   seqP (on_session (\<lambda>s. s\<lparr> m_incoming_resent_msg_seq_num := NewSeqNo \<rparr>))
                   (seqP (emit (Information (''SeqenceReset (Reset) received, NewSeqNo = '' @ u32_to_string NewSeqNo)))
                     (finish_resend io))))
            (report_and_reject io sequence_reset (m_value NewSeqNo_field @ '' is not a valid value for NewSeqNo'')
               SessionRejectReason_ValueIsIncorrect)))"

definition process_resend_request :: "'e links \<Rightarrow> message \<Rightarrow> ('e, unit) action" where
  "process_resend_request io resend_request =
     seqP (stop_test_request_timer io)
     (case fc_try_get BeginSeqNo_Tag (m_fields resend_request) of
        None \<Rightarrow> report_and_reject io resend_request
                  ''ResendRequest does not contain a BeginSeqNo field'' SessionRejectReason_RequiredTagMissing
      | Some BeginSeqNo \<Rightarrow>
          (case fc_try_get EndSeqNo_Tag (m_fields resend_request) of
             None \<Rightarrow> report_and_reject io resend_request
                       ''ResendRequest does not contain a EndSeqNo field'' SessionRejectReason_RequiredTagMissing
           | Some EndSeqNo \<Rightarrow>
               bindP (liftP (stoi_u32 (m_value BeginSeqNo))) (\<lambda>first.
               bindP (liftP (stoi_u32 (m_value EndSeqNo))) (\<lambda>last.
               seqP (emit (Information (''Performing resend from BeginSeqNo = '' @ u32_to_string first @
                 '' to EndSeqNo '' @ u32_to_string last)))
               (bindP (the_session (\<lambda>s. m_begin_string (m_options s))) (\<lambda>version.
                  let last = (if (version = ''FIX.4.0'' \<or> version = ''FIX.4.1'') \<and> last = 9999 then 0 else last)
                  in seqP (perform_resend io first last) (send_post_logon_test_request io)))))))"

section \<open>The reader's signal and the timers\<close>

definition on_message_read :: "'e links \<Rightarrow> message \<Rightarrow> ('e, unit) action" where
  "on_message_read io m =
     seqP (emit (Message_received m))
     (guardP (validate_checksum io m) ()
     (guardP (validate_body_length io m) ()
     (guardP (validate_begin_string io m) ()
     (guardP (validate_comp_ids io m) ()
     (guardP (validate_first_message io m) ()
     (bindP (liftP (message_MsgType m)) (\<lambda>msg_type.
      bindP (liftP (message_PossDupFlag m)) (\<lambda>PossDupFlag.
        if msg_type = SequenceReset_MsgType then process_sequence_reset io m PossDupFlag
        else bindP (if PossDupFlag then liftP (message_is_admin m) else returnP False) (\<lambda>ignored.
          if ignored then emit (Warning (''Ignoring PossDup Admin message with MsgType='' @ msg_type))
          else guardP (if msg_type = Logon_MsgType then process_logon io m else validate_sequence_numbers io m) ()
            (bindP (liftP (message_MsgSeqNum m)) (\<lambda>n.
             seqP (set_incoming_msg_seq_num (n + 1))
               (if msg_type = Heartbeat_MsgType then process_heartbeat io m
                else if msg_type = TestRequest_MsgType then process_test_request io m
                else if msg_type = ResendRequest_MsgType then process_resend_request io m
                else if msg_type = Logout_MsgType then process_logout io m
                else returnP ()))))))))))))"

fun run_callback :: "'e links \<Rightarrow> session_callback \<Rightarrow> ('e, unit) action" where
  "run_callback io Post_logon_test_request =
     seqP (on_session (\<lambda>s. s\<lparr> m_test_request_timer_token := None \<rparr>)) (send_test_request io)"
| "run_callback io Defibrillate = defibrillate io"

end
