(* ===== verification/Session_Frame.thy ===== *)
theory Session_Frame
  imports Session
begin

text \<open>
  What every method of the session keeps. The locale \<open>session_frame\<close> is the contract of the
  steps a method is made of (a signal, a change of state, a timer, a call into a link, the
  sending of a message); the lemma for each method is proved once from it. \<open>session_methods\<close> adds
  the steps that move the sequence numbers, and \<open>session_relation\<close> is the contract of relations
  that look at no sequence number, which imply the other two.
\<close>

section \<open>Messages the session builds\<close>

definition is_reset_logon :: "message \<Rightarrow> bool" where
  "is_reset_logon m \<longleftrightarrow> message_MsgType m = Inr Logon_MsgType \<and> message_ResetSeqNumFlag m = Inr True"

definition is_gap_fill :: "message \<Rightarrow> bool" where
  "is_gap_fill m \<longleftrightarrow> message_MsgType m = Inr SequenceReset_MsgType \<and> message_GapFillFlag m = Inr True"

text \<open>
  A message with a MsgSeqNum field that does not reset the sequence numbers, sent with a fresh
  number unless it is a gap fill, whose number is that of the messages it stands for.
\<close>

definition plain_message :: "message \<Rightarrow> int \<Rightarrow> bool" where
  "plain_message m options \<longleftrightarrow> fc_try_get MsgSeqNum_Tag (m_fields m) \<noteq> None \<and> \<not> is_reset_logon m \<and>
     (is_gap_fill m \<longleftrightarrow> options AND set_msg_seq_num = 0)"

lemma fc_try_get_make_message:
  "fc_try_get t (m_fields (make_message b fs)) =
     (case List.find (has_tag t) (rev fs) of
        Some f \<Rightarrow> Some f | None \<Rightarrow> fc_try_get t (if b then header_fields else []))"
  by (simp add: make_message_def fc_set_all_fold fc.look_fold_upsert)

lemma fc_try_get_header:
  "fc_try_get t header_fields =
     (if t \<in> {BeginString_Tag, BodyLength_Tag, MsgType_Tag, SenderCompID_Tag, TargetCompID_Tag, MsgSeqNum_Tag,
              SendingTime_Tag} then Some (field_string t '''') else None)"
  by (auto simp: header_fields_def fc_try_get_def)

lemma message_value_try_get:
  "message_value name tag m =
     (case fc_try_get tag (m_fields m) of
        None \<Rightarrow> Inl (Runtime_error (''message does not have a '' @ name @ '' field''))
      | Some f \<Rightarrow> Inr (m_value f))"
  by (simp add: message_value_def fc_try_get_def)

lemma fc_get_bool_try_get:
  "fc_get_bool tag fs =
     (case fc_try_get tag fs of
        None \<Rightarrow> Inr False
      | Some f \<Rightarrow>
          (if m_value f = ''Y'' then Inr True
           else if m_value f = ''N'' then Inr False
           else Inl (Runtime_error (''field does not contain a valid boolean value '' @
                       int_to_string (m_tag f) @ ''='' @ m_value f))))"
  by (simp add: fc_get_bool_def fc_try_get_def)

lemmas built_message_simps = fc_try_get_make_message fc_try_get_header message_value_try_get fc_get_bool_try_get
  message_MsgType_def message_ResetSeqNumFlag_def message_GapFillFlag_def fc_try_get_upsert

lemma option_bits [simp]:
  "encode_standard AND set_msg_seq_num \<noteq> 0" "(encode_standard AND NOT set_msg_seq_num) AND set_msg_seq_num = 0"
  "encode_standard AND set_begin_string \<noteq> 0" "(encode_standard AND NOT set_msg_seq_num) AND set_begin_string \<noteq> 0"
  "encode_standard AND set_checksum \<noteq> 0" "(encode_standard AND NOT set_msg_seq_num) AND set_checksum \<noteq> 0"
  by (simp_all add: encode_standard_def set_checksum_def set_body_length_def set_begin_string_def set_msg_seq_num_def)

lemma plain_built:
  assumes "MsgSeqNum_Tag \<notin> set (tags fs)" "ResetSeqNumFlag_Tag \<notin> set (tags fs)" "type \<noteq> SequenceReset_MsgType"
    "MsgType_Tag \<notin> set (tags fs)"
  shows "plain_message (make_message True (field_string MsgType_Tag type # fs)) encode_standard"
proof -
  have n: "List.find (has_tag t) (rev fs) = None" if "t \<notin> set (tags fs)" for t
    using that fc_try_get_None_iff[of t "rev fs"] by (simp add: fc_try_get_def)
  show ?thesis
    using assms by (simp add: plain_message_def is_reset_logon_def is_gap_fill_def built_message_simps find_append n)
qed

section \<open>The contracts\<close>

text \<open>The part of a session that timers, test requests and the record of the peer's Logon leave alone.\<close>

definition same_control :: "session \<Rightarrow> session \<Rightarrow> bool" where
  "same_control s s' \<longleftrightarrow> m_state s = m_state s' \<and>
     m_incoming_msg_seq_num s = m_incoming_msg_seq_num s' \<and> m_outgoing_msg_seq_num s = m_outgoing_msg_seq_num s' \<and>
     (m_options s)\<lparr> m_heartbeat_interval := 0 \<rparr> = (m_options s')\<lparr> m_heartbeat_interval := 0 \<rparr>"

text \<open>The signals a method emits beside those of \<open>set_state\<close> and \<open>send\<close>.\<close>

fun is_report :: "signal \<Rightarrow> bool" where
  "is_report (State_changed _ _) = False"
| "is_report (Message_sent _) = False"
| "is_report _ = True"

text \<open>The changes of state the methods make.\<close>

fun state_edge :: "session_state \<Rightarrow> session_state \<Rightarrow> bool" where
  "state_edge a disconnected = True"
| "state_edge a resending = True"
| "state_edge a resetting = True"
| "state_edge a logging_on = (a = connected)"
| "state_edge a logged_on = (a \<in> {logging_on, resetting, resending})"
| "state_edge a connected = (a = logged_on)"

lemma stop_defibrillator_state: "m_state (sess (snd (stop_defibrillator io w))) = m_state (sess w)"
  by (auto simp: stop_defibrillator_def the_session_def on_session_def quiet_def seqP_def bindP_def
      split: option.splits prod.splits sum.splits)

lemma the_session_result: "the_session g w = (Inr x, w') \<longleftrightarrow> x = g (sess w) \<and> w' = w"
  by (auto simp: the_session_def)

text \<open>The steps that neither send nor move a sequence number.\<close>

locale session_steps = kept_relation R for R :: "bool \<Rightarrow> 'e world \<Rightarrow> 'e world \<Rightarrow> bool" +
  assumes on_state: "m_state (sess w) \<noteq> st \<Longrightarrow> state_edge (m_state (sess w)) st \<Longrightarrow>
      R b w (w\<lparr> sess := (sess w)\<lparr> m_state := st \<rparr>, emitted := emitted w @ [State_changed (m_state (sess w)) st] \<rparr>)"
    and on_signal: "is_report sig \<Longrightarrow> R b w (w\<lparr> emitted := emitted w @ [sig] \<rparr>)"
    and on_outside: "R b w (w\<lparr> outside := e \<rparr>)"
    and on_timers: "same_control (sess w) s' \<Longrightarrow> R b w (w\<lparr> sess := s' \<rparr>)"
begin

lemma set_state_at: "state_edge (m_state (sess w)) st \<or> m_state (sess w) = st \<Longrightarrow> R b w (snd (set_state st w))"
  using on_state[of w st] refl_R
  by (auto simp: set_state_def the_session_def on_session_def emit_def whenP_def)

lemma set_state_returns: "fst (set_state st w) = Inr ()"
  by (simp add: set_state_def the_session_def on_session_def emit_def whenP_def)

lemma kept_at_set_state: "state_edge (m_state (sess w)) st \<or> m_state (sess w) = st \<Longrightarrow> kept_at (set_state st) w"
  by (simp add: kept_at_def set_state_at)

lemma keeps_set_state: "keeps R (set_state disconnected)" "keeps R (set_state resending)" "keeps R (set_state resetting)"
  by (auto intro!: keeps_kept_at kept_at_set_state)

lemma keeps_emit: "is_report sig \<Longrightarrow> keeps R (emit sig)"
  using on_signal by (simp add: keeps_def emit_def)

lemma keeps_on_session: "(\<And>s. same_control s (f s)) \<Longrightarrow> keeps R (on_session f)"
  using on_timers by (simp add: keeps_def on_session_def)

lemma keeps_the_session: "keeps R (the_session f)"
  unfolding the_session_def by (rule keeps_get)

lemma keeps_quiet: "keeps R (quiet c)"
  using on_outside by (simp add: keeps_def quiet_def split: prod.splits)

lemma keeps_external: "keeps R (external c)"
proof (rule keepsI)
  fix w :: "'e world"
  obtain r closed e where c: "c (outside w) = (r, closed, e)" by (metis prod_cases3)
  have "R (returned r) (w\<lparr> outside := e \<rparr>) (snd (external c w))"
    using set_state_at[of "w\<lparr> outside := e \<rparr>" disconnected] refl_R by (simp add: external_def c whenP_def)
  then show "R (returned (fst (external c w))) w (snd (external c w))"
    using on_outside[of True w e] trans_R by (simp add: external_def c)
qed

lemma keeps_try_catch: "(\<And>x. keeps R (f x)) \<Longrightarrow> keeps R g \<Longrightarrow> keeps R (try_catch r f g)"
  unfolding try_catch_def by (rule keeps_sum)

lemma keeps_set_heartbeat_interval: "keeps R (set_heartbeat_interval n)"
  unfolding set_heartbeat_interval_def on_options_def
  by (rule keeps_on_session, simp add: same_control_def)

lemma keeps_allocate_test_request_id: "keeps R allocate_test_request_id"
  unfolding allocate_test_request_id_def
  by (intro keeps_the_session keeps_on_session keeps_intros; simp add: same_control_def)

lemmas keeps_steps = keeps_set_state keeps_emit keeps_on_session keeps_the_session keeps_external keeps_quiet
  keeps_try_catch keeps_set_heartbeat_interval keeps_allocate_test_request_id keeps_intros

lemma keeps_session_close: "keeps R (session_close io)"
  unfolding session_close_def by (intro keeps_steps)

lemma keeps_timers:
  "keeps R (stop_defibrillator io)" "keeps R (start_defibrillator io)" "keeps R (stop_test_request_timer io)"
  unfolding stop_defibrillator_def start_defibrillator_def stop_test_request_timer_def
  by (intro keeps_steps; simp add: same_control_def)+

end

section \<open>The methods\<close>

text \<open>The methods that leave the expected incoming number alone.\<close>

locale session_frame = session_steps R for R :: "bool \<Rightarrow> 'e world \<Rightarrow> 'e world \<Rightarrow> bool" +
  fixes io :: "'e links"
  assumes plain_send: "plain_message m options \<Longrightarrow> keeps R (session_send io m options)"
begin

lemma keeps_send_standard: "plain_message m encode_standard \<Longrightarrow> keeps R (send_standard io m)"
  unfolding send_standard_def by (intro keeps_steps plain_send)

lemma keeps_send_built:
  "MsgSeqNum_Tag \<notin> set (tags fs) \<Longrightarrow> ResetSeqNumFlag_Tag \<notin> set (tags fs) \<Longrightarrow> MsgType_Tag \<notin> set (tags fs) \<Longrightarrow>
   type \<noteq> SequenceReset_MsgType \<Longrightarrow> keeps R (send_standard io (make_message True (field_string MsgType_Tag type # fs)))"
  by (intro keeps_send_standard plain_built)

lemma keeps_logout_state:
  "keeps R (bindP (the_session m_state) (\<lambda>st. whenP (st = logged_on) (seqP (stop_defibrillator io) (set_state connected))))"
proof (intro keeps_kept_at kept_at_bind keeps_at[OF keeps_the_session])
  fix w x and w' :: "'e world"
  assume "the_session m_state w = (Inr x, w')"
  then show "kept_at (whenP (x = logged_on) (seqP (stop_defibrillator io) (set_state connected))) w'"
    using stop_defibrillator_state[of io w']
    by (auto simp: the_session_result whenP_def kept_at_return intro!: kept_at_seq keeps_at[OF keeps_timers(1)] kept_at_set_state)
qed

lemma keeps_send_logon: "keeps R (send_logon io False)"
proof -
  let ?l = "\<lambda>n. make_message True [field_string 35 ''A'', field_string 98 ''0'', field_u32 108 n]"
  have "plain_message (?l n) encode_standard" for n by (rule plain_built) simp_all
  moreover have "plain_message (?l n \<lparr> m_fields := snd (fc_set_u32 789 k Replace_first_or_append (m_fields (?l n))) \<rparr>) encode_standard" for n k
    by (simp add: plain_message_def is_reset_logon_def is_gap_fill_def built_message_simps fc_set_u32_def fc_set_string_def)
  ultimately show ?thesis
    unfolding send_logon_def Let_def by (auto intro!: keeps_bind keeps_the_session keeps_send_standard)
qed

lemma keeps_sends:
  "keeps R (defibrillate io)" "keeps R (send_test_request io)" "keeps R (send_post_logon_test_request io)"
  "keeps R (send_logout io t)"
  unfolding defibrillate_def send_test_request_def send_post_logon_test_request_def send_logout_def Let_def
  by (intro keeps_steps keeps_send_built keeps_session_close keeps_timers keeps_logout_state;
      simp add: same_control_def)+

lemma keeps_send_reject: "keeps R (send_reject io m t reason)"
proof -
  let ?r = "\<lambda>n. make_message True [field_string 35 ''3'', field_u32 45 n, field_string 58 t]"
  have "plain_message (?r n) encode_standard" for n by (rule plain_built) simp_all
  moreover have "plain_message (?r n \<lparr> m_fields := snd (fc_set_string 373 k Replace_first_or_append (m_fields (?r n))) \<rparr>) encode_standard" for n k
    by (simp add: plain_message_def is_reset_logon_def is_gap_fill_def built_message_simps fc_set_string_def)
  ultimately show ?thesis
    unfolding send_reject_def Let_def by (intro keeps_steps keeps_send_standard) simp_all
qed

lemma keeps_resend: "keeps R (send_gap_fill io a n)" "keeps R (perform_resend io a n)"
proof -
  have "plain_message (make_message True [field_string 35 ''4'', field_u32 34 a, field_bool 123 True,
      field_bool 43 True, field_u32 36 n]) (encode_standard AND NOT set_msg_seq_num)" for a n
    by (simp add: plain_message_def is_reset_logon_def is_gap_fill_def built_message_simps)
  then show "keeps R (send_gap_fill io a n)" for a n
    unfolding send_gap_fill_def by (intro keeps_steps plain_send)
  then show "keeps R (perform_resend io a n)"
    unfolding perform_resend_def by (intro keeps_steps)
qed

lemmas keeps_calls = keeps_steps keeps_send_built keeps_session_close keeps_timers keeps_send_logon keeps_sends
  keeps_send_reject keeps_resend

lemma keeps_validate:
  "keeps R (validate_checksum io m)" "keeps R (validate_body_length io m)" "keeps R (validate_begin_string io m)"
  "keeps R (validate_comp_ids io m)" "keeps R (validate_first_message io m)"
  unfolding validate_checksum_def validate_body_length_def validate_begin_string_def validate_comp_ids_def
    validate_first_message_def reject_and_close_def Let_def
  by (intro keeps_calls; simp)+

lemma keeps_sequence_number:
  "keeps R (sequence_number_is_high io m)" "keeps R (sequence_number_is_low io m)"
  "keeps R (validate_sequence_numbers io m)"
  unfolding validate_sequence_numbers_def sequence_number_is_high_def sequence_number_is_low_def request_resend_def Let_def
  by (intro keeps_calls; simp add: same_control_def)+

lemma keeps_session_logon: "keeps R (session_logon io)"
  unfolding session_logon_def
proof (intro keeps_kept_at kept_at_bind keeps_at[OF keeps_the_session])
  fix w x and w' :: "'e world"
  assume "the_session id w = (Inr x, w')"
  moreover have "keeps R (throwP (Logic_error t) :: ('e, unit) action)"
    "keeps R (if m_logon_behaviour (m_options x) \<noteq> initiator then returnP () else send_logon io False)" for t
    by (intro keeps_calls)+
  ultimately show "kept_at (if m_state x \<noteq> connected
      then throwP (Logic_error (''logon cannot be initiated in the current state '' @ session_state_to_string (m_state x)))
      else seqP (set_state logging_on)
        (if m_logon_behaviour (m_options x) \<noteq> initiator then returnP () else send_logon io False)) w'"
    by (simp only: the_session_result split: if_split, intro conjI impI)
       (simp_all add: keeps_at kept_at_seq kept_at_set_state split del: if_split)
qed

lemma keeps_session_open: "keeps R (session_open io)"
  unfolding session_open_def by (intro keeps_calls keeps_session_logon)

lemma keeps_extract_heartbeat_interval: "keeps R (extract_heartbeat_interval io m)"
  unfolding extract_heartbeat_interval_def Let_def by (intro keeps_calls; simp add: same_control_def)

lemma keeps_process_logon_next_expected: "keeps R (process_logon_next_expected io m)"
  unfolding process_logon_next_expected_def Let_def by (intro keeps_calls; simp add: same_control_def)

lemma keeps_process_heartbeat: "keeps R (process_heartbeat io m)"
  unfolding process_heartbeat_def Let_def
proof (intro keeps_kept_at kept_at_bind keeps_at[OF keeps_the_session])
  fix w x and w' :: "'e world"
  assume "the_session id w = (Inr x, w')"
  then have x: "x = sess w'" by (simp add: the_session_result)
  have c: "keeps R (seqP (emit (Error t)) (session_close io))" "keeps R (emit (Warning t))" for t
    by (intro keeps_calls; simp)+
  have f: "m_state (sess w') \<in> {logging_on, resetting, resending} \<Longrightarrow>
      kept_at (seqP (set_state logged_on) (start_defibrillator io)) w'"
    by (intro kept_at_seq kept_at_set_state keeps_at keeps_timers) auto
  show "kept_at (if m_state x \<noteq> logging_on \<and> m_state x \<noteq> resetting \<and> m_state x \<noteq> resending then returnP ()
       else case fc_try_get TestReqID_Tag (m_fields m) of
              None \<Rightarrow> seqP (set_state logged_on) (start_defibrillator io)
            | Some testReqId \<Rightarrow>
                (case m_expected_test_request_id x of
                   None \<Rightarrow> emit (Warning ''Received a Heartbeat with an unexpected TestReqID'')
                 | Some expected \<Rightarrow>
                     (if m_value testReqId \<noteq> u32_to_string expected then
                        seqP (emit (Error ''Received a Heartbeat with an incorrect TestReqID during Logon - disconnecting''))
                          (session_close io)
                      else seqP (set_state logged_on) (start_defibrillator io)))) w'"
    using f keeps_at[OF c(1), of _ w'] keeps_at[OF c(2), of _ w']
    by (auto simp: x kept_at_return split: option.splits)
qed

lemma keeps_report_and_reject: "keeps R (report_and_reject io m t reason)"
  unfolding report_and_reject_def by (intro keeps_calls; simp)

lemma keeps_finish_resend: "keeps R (finish_resend io)"
  unfolding finish_resend_def by (intro keeps_calls; simp)

lemma keeps_process:
  "keeps R (process_logout io m)" "keeps R (process_test_request io m)" "keeps R (process_resend_request io m)"
  unfolding process_logout_def process_test_request_def process_resend_request_def Let_def
  by (intro keeps_calls keeps_report_and_reject; simp add: same_control_def)+

lemma keeps_run_callback: "keeps R (run_callback io cb)"
  by (cases cb; simp; intro keeps_calls; simp add: same_control_def)

end

text \<open>The methods that move the incoming number.\<close>

locale session_methods = session_frame R io for R :: "bool \<Rightarrow> 'e world \<Rightarrow> 'e world \<Rightarrow> bool" and io +
  assumes on_incoming: "R b w (w\<lparr> sess := (sess w)\<lparr> m_incoming_msg_seq_num := n \<rparr> \<rparr>)"
    and reset_then_logon: "keeps R (seqP (session_reset io) (send_logon io True))"
begin

lemma keeps_set_incoming: "keeps R (set_incoming_msg_seq_num n)"
  using on_incoming by (simp add: keeps_def set_incoming_msg_seq_num_def on_session_def)

lemma keeps_reset_logon: "keeps R n \<Longrightarrow> keeps R (seqP (session_reset io) (seqP (send_logon io True) n))"
  using keeps_seq[OF reset_then_logon] by (simp only: seqP_assoc)

lemma keeps_process_logon: "keeps R (process_logon io m)"
  unfolding process_logon_def
  by (intro keeps_reset_logon keeps_calls keeps_sequence_number keeps_process_logon_next_expected
      keeps_extract_heartbeat_interval; (simp add: same_control_def keeps_send_logon)?)

lemma keeps_process_sequence_reset: "keeps R (process_sequence_reset io m b)"
  unfolding process_sequence_reset_def process_gap_fill_def Let_def
  by (intro keeps_calls keeps_sequence_number keeps_set_incoming keeps_report_and_reject keeps_finish_resend;
      simp add: same_control_def)

lemma keeps_on_message_read: "keeps R (on_message_read io m)"
  unfolding on_message_read_def
  by (intro keeps_calls keeps_validate keeps_sequence_number keeps_process_logon keeps_process_heartbeat keeps_process
      keeps_process_sequence_reset keeps_set_incoming; simp)

end

section \<open>Relations that look at no sequence number\<close>

locale session_relation = kept_relation R for R :: "bool \<Rightarrow> 'e world \<Rightarrow> 'e world \<Rightarrow> bool" +
  fixes io :: "'e links"
  assumes state_step: "m_state (sess w) \<noteq> st \<Longrightarrow> state_edge (m_state (sess w)) st \<Longrightarrow>
      R b w (w\<lparr> sess := (sess w)\<lparr> m_state := st \<rparr>, emitted := emitted w @ [State_changed (m_state (sess w)) st] \<rparr>)"
    and signal_step: "is_report sig \<or> sig = Message_sent m \<Longrightarrow> R b w (w\<lparr> emitted := emitted w @ [sig] \<rparr>)"
    and outside_step: "R b w (w\<lparr> outside := e \<rparr>)"
    and counter_step: "m_state s' = m_state (sess w) \<Longrightarrow>
      (m_options s')\<lparr> m_heartbeat_interval := 0 \<rparr> = (m_options (sess w))\<lparr> m_heartbeat_interval := 0 \<rparr> \<Longrightarrow>
      R b w (w\<lparr> sess := s' \<rparr>)"

sublocale session_relation \<subseteq> st: session_steps R
  by unfold_locales (auto simp: same_control_def intro: state_step signal_step outside_step counter_step)

context session_relation
begin

lemma keeps_numbers:
  "keeps R (set_incoming_msg_seq_num n)" "keeps R (set_outgoing_msg_seq_num n)" "keeps R allocate_outgoing_msg_seq_num"
  by (simp_all add: keeps_def set_incoming_msg_seq_num_def set_outgoing_msg_seq_num_def allocate_outgoing_msg_seq_num_def
      the_session_def on_session_def counter_step)

lemma keeps_session_send: "keeps R (session_send io m options)"
proof -
  have sent: "keeps R (emit (Message_sent m))" for m
    using signal_step by (auto simp: keeps_def emit_def)
  show ?thesis
    unfolding session_send_def by (intro sent st.keeps_steps keeps_numbers)
qed

lemma keeps_reset_then_logon: "keeps R (seqP (session_reset io) (send_logon io True))"
  unfolding session_reset_def send_logon_def send_standard_def Let_def
  by (intro st.keeps_steps keeps_numbers st.keeps_timers keeps_session_send)

end

sublocale session_relation \<subseteq> se: session_methods R io
  by unfold_locales (auto intro: keeps_session_send keeps_reset_then_logon counter_step)

end
