(* ===== verification/Session_Runs.thy ===== *)
theory Session_Runs
  imports Session_Frame
begin

text \<open>
  Runs of a session: the calls of the application, the messages and the \<open>closed\<close> signals of the
  links and the timers of the scheduler, in any order, with the links free to move on between
  two events. The states a run goes through, the options it cannot change, and the sequence
  numbers it gives out and accepts.
\<close>

section \<open>Events and runs\<close>

datatype session_event =
    Open_session
  | Close_session
  | Application_send message int
  | Message_read message
  | Timer_fired session_callback
  | Link_closed

fun handle_event :: "'e links \<Rightarrow> session_event \<Rightarrow> ('e, unit) action" where
  "handle_event io Open_session = session_open io"
| "handle_event io Close_session = session_close io"
| "handle_event io (Application_send m options) = seqP (session_send io m options) (returnP ())"
| "handle_event io (Message_read m) = on_message_read io m"
| "handle_event io (Timer_fired cb) = run_callback io cb"
| "handle_event io Link_closed = set_state disconnected"

text \<open>\<open>session_run io b evs w w'\<close>: the events \<open>evs\<close>, all of them handled without an exception if \<open>b\<close>.\<close>

inductive session_run :: "'e links \<Rightarrow> bool \<Rightarrow> session_event list \<Rightarrow> 'e world \<Rightarrow> 'e world \<Rightarrow> bool" for io where
  run_nil: "session_run io b [] w w"
| run_outside: "session_run io b evs w w' \<Longrightarrow> session_run io b evs w (w'\<lparr> outside := e \<rparr>)"
| run_event: "session_run io b evs w w' \<Longrightarrow> handle_event io ev w' = (r, w'') \<Longrightarrow> returned r \<or> \<not> b \<Longrightarrow>
    session_run io b (evs @ [ev]) w w''"

context session_methods
begin

lemma keeps_handle_event:
  "(\<And>m options. ev = Application_send m options \<Longrightarrow> keeps R (session_send io m options)) \<Longrightarrow>
   keeps R (handle_event io ev)"
  by (cases ev) (auto intro!: keeps_session_open keeps_session_close keeps_on_message_read keeps_run_callback keeps_steps)

lemma run_kept:
  assumes "session_run io b evs w w'"
    and "\<And>m options. Application_send m options \<in> set evs \<Longrightarrow> keeps R (session_send io m options)"
    and "\<And>s t. \<not> b \<Longrightarrow> R False s t \<Longrightarrow> R True s t"
  shows "R True w w'"
  using assms
proof (induction rule: session_run.induct)
  case (run_nil b w)
  show ?case by (rule refl_R)
next
  case (run_outside b evs w w' e)
  then show ?case using on_outside trans_R by blast
next
  case (run_event b evs w w' ev r w'')
  have "keeps R (handle_event io ev)" using run_event.prems by (intro keeps_handle_event) auto
  from keepsD[OF this run_event.hyps(2)] have "R True w' w''"
    using run_event.hyps(3) run_event.prems(2) by (cases "returned r") auto
  moreover have "R True w w'" using run_event by auto
  ultimately show ?case by (rule trans_R[rotated])
qed

end

section \<open>States\<close>

text \<open>
  The signals of a run describe a walk through the states: each \<open>state_changed\<close> starts where the
  session is, goes elsewhere, and along an edge of \<open>state_edge\<close>.
\<close>

fun state_path :: "session_state \<Rightarrow> signal list \<Rightarrow> session_state \<Rightarrow> bool" where
  "state_path st [] st' = (st = st')"
| "state_path st (State_changed a b # sigs) st' = (a = st \<and> a \<noteq> b \<and> state_edge a b \<and> state_path b sigs st')"
| "state_path st (_ # sigs) st' = state_path st sigs st'"

lemma state_path_append: "state_path a (xs @ ys) c \<longleftrightarrow> (\<exists>b. state_path a xs b \<and> state_path b ys c)"
  by (induction a xs c rule: state_path.induct) auto

lemma state_path_report: "is_report sig \<or> sig = Message_sent m \<Longrightarrow> state_path a [sig] b \<longleftrightarrow> a = b"
  by (cases sig) auto

definition state_history :: "'e world \<Rightarrow> 'e world \<Rightarrow> bool" where
  "state_history w w' \<longleftrightarrow>
     (\<exists>sigs. emitted w' = emitted w @ sigs \<and> state_path (m_state (sess w)) sigs (m_state (sess w')))"

interpretation sh: session_relation "\<lambda>_. state_history" io for io
proof unfold_locales
  show "state_history s s" for s :: "'e world" by (simp add: state_history_def)
  show "state_history s u" if "state_history s t" "state_history t u" for s t u :: "'e world"
    using that by (auto simp: state_history_def state_path_append)
qed (auto simp: state_history_def state_path_report)

text \<open>
  C19: whatever happens to a session, its \<open>state_changed\<close> signals lead from the state it started in
  to the state it is in, without a gap, and only along the edges of the state machine: logging_on
  is entered only from connected, logged_on only from logging_on, resetting or resending, and
  connected only from logged_on. Exceptions are no exception to this.
\<close>

theorem states_follow_edges:
  assumes "session_run io b evs w w'" "emitted w = []"
  shows "state_path (m_state (sess w)) (emitted w') (m_state (sess w'))"
  using sh.se.run_kept[OF assms(1)] sh.keeps_session_send assms(2) by (auto simp: state_history_def)

section \<open>Options\<close>

definition same_setup :: "'e world \<Rightarrow> 'e world \<Rightarrow> bool" where
  "same_setup w w' \<longleftrightarrow> (m_options (sess w'))\<lparr> m_heartbeat_interval := 0 \<rparr> = (m_options (sess w))\<lparr> m_heartbeat_interval := 0 \<rparr>"

interpretation su: session_relation "\<lambda>_. same_setup" io for io
  by unfold_locales (auto simp: same_setup_def)

text \<open>
  A run never changes the configuration of the session, the heartbeat interval apart, which
  the peer's Logon sets.
\<close>

theorem runs_keep_options:
  assumes "session_run io b evs w w'"
  shows "m_begin_string (m_options (sess w')) = m_begin_string (m_options (sess w)) \<and>
    m_sender_comp_id (m_options (sess w')) = m_sender_comp_id (m_options (sess w)) \<and>
    m_target_comp_id (m_options (sess w')) = m_target_comp_id (m_options (sess w)) \<and>
    m_logon_behaviour (m_options (sess w')) = m_logon_behaviour (m_options (sess w)) \<and>
    m_test_request_delay (m_options (sess w')) = m_test_request_delay (m_options (sess w)) \<and>
    m_timestamp_format (m_options (sess w')) = m_timestamp_format (m_options (sess w)) \<and>
    m_use_next_expected_msg_seq_num (m_options (sess w')) = m_use_next_expected_msg_seq_num (m_options (sess w))"
proof -
  have "same_setup w w'" using su.se.run_kept[OF assms] su.keeps_session_send by blast
  then show ?thesis unfolding same_setup_def
    by (cases "m_options (sess w)"; cases "m_options (sess w')") simp
qed

text \<open>
  Outside the state connected, the setters of the comp ids, the version, the behaviour and
  the test request delay throw and change nothing.
\<close>

theorem options_fixed_unless_connected:
  assumes "m_state (sess w) \<noteq> connected"
    and "setter \<in> {set_logon_behaviour bh, set_begin_string_option v, set_sender_comp_id v, set_target_comp_id v,
      set_test_request_delay n}"
  shows "setter w = (Inl (Logic_error (''session configuration cannot be changed while state = '' @
     session_state_to_string (m_state (sess w)))), w)"
  using assms by (auto simp: set_logon_behaviour_def set_begin_string_option_def set_sender_comp_id_def
      set_target_comp_id_def set_test_request_delay_def ensure_options_are_mutable_def the_session_def)

section \<open>The effect of a send\<close>

text \<open>What the session relies on: \<open>write\<close> fills in BodyLength and CheckSum and leaves every other field alone.\<close>

definition writer_keeps_fields :: "'e links \<Rightarrow> bool" where
  "writer_keeps_fields io \<longleftrightarrow> (\<forall>m options e m' c e' t. writer_write io m options e = (Inr m', c, e') \<longrightarrow>
     t \<noteq> BodyLength_Tag \<longrightarrow> t \<noteq> CheckSum_Tag \<longrightarrow> fc_try_get t (m_fields m') = fc_try_get t (m_fields m))"

fun sent_messages :: "signal list \<Rightarrow> message list" where
  "sent_messages [] = []"
| "sent_messages (Message_sent m # sigs) = m # sent_messages sigs"
| "sent_messages (_ # sigs) = sent_messages sigs"

lemma sent_messages_append: "sent_messages (xs @ ys) = sent_messages xs @ sent_messages ys"
  by (induction xs rule: sent_messages.induct) auto

lemma sent_messages_report: "is_report sig \<Longrightarrow> sent_messages [sig] = []"
  by (cases sig) auto

lemma set_state_apply:
  "set_state st w = (Inr (), w\<lparr> sess := (sess w)\<lparr> m_state := st \<rparr>,
     emitted := emitted w @ (if m_state (sess w) = st then [] else [State_changed (m_state (sess w)) st]) \<rparr>)"
  by (simp add: set_state_def the_session_def on_session_def emit_def whenP_def)

lemma external_apply:
  "external c w = (case c (outside w) of (r, closed, e) \<Rightarrow>
     (r, if closed then snd (set_state disconnected (w\<lparr> outside := e \<rparr>)) else w\<lparr> outside := e \<rparr>))"
  by (simp add: external_def whenP_def split: prod.splits)

lemma is_reset_logon_flag:
  assumes "message_MsgType m = Inr type"
    and "(if type = Logon_MsgType then liftP (message_ResetSeqNumFlag m) else returnP False) w = (Inr flag, w')"
  shows "flag \<longleftrightarrow> is_reset_logon m" and "w' = w"
  using assms by (auto simp: is_reset_logon_def split: if_splits)

lemma session_send_result:
  assumes "session_send io m options w = (Inr m', w')"
  obtains n now e c sigs where
    "writer_write io (m\<lparr> m_fields := stamp_fields (m_options (sess w)) options n now (m_fields m) \<rparr>) options e =
       (Inr m', c, outside w')"
    "emitted w' = emitted w @ sigs @ [Message_sent m']" "sent_messages sigs = []"
    "n = (if options AND set_msg_seq_num \<noteq> 0 then if is_reset_logon m then 1 else m_outgoing_msg_seq_num (sess w) else 0)"
    "sess w' = (sess w)\<lparr>
       m_state := if c then disconnected else if is_reset_logon m then resetting else m_state (sess w),
       m_outgoing_msg_seq_num := (if is_reset_logon m then 1 else m_outgoing_msg_seq_num (sess w)) +
         (if options AND set_msg_seq_num \<noteq> 0 then 1 else 0),
       m_incoming_msg_seq_num := if is_reset_logon m then 1 else m_incoming_msg_seq_num (sess w) \<rparr>"
proof -
  obtain type where type: "message_MsgType m = Inr type"
    using assms by (cases "message_MsgType m") (auto simp: session_send_def)
  obtain flag where flag: "(if type = Logon_MsgType then liftP (message_ResetSeqNumFlag m) else returnP False) w = (Inr flag, w)"
    using assms type by (cases "message_ResetSeqNumFlag m") (auto simp: session_send_def split: if_splits)
  note flag' = is_reset_logon_flag(1)[OF type flag]
  let ?r = "is_reset_logon m"
  let ?num = "options AND set_msg_seq_num \<noteq> 0"
  let ?n = "if ?num then if ?r then 1 else m_outgoing_msg_seq_num (sess w) else 0"
  obtain now e where now: "system_clock_now io (outside w) = (now, e)" by fastforce
  let ?m = "m\<lparr> m_fields := stamp_fields (m_options (sess w)) options ?n now (m_fields m) \<rparr>"
  obtain r c e2 where wr: "writer_write io ?m options e = (r, c, e2)" by (metis prod_cases3)
  have r: "r = Inr m'"
    using assms type flag flag' now wr
    by (cases r; cases ?num; cases ?r)
       (auto simp: session_send_def whenP_def set_state_apply set_outgoing_msg_seq_num_def set_incoming_msg_seq_num_def
          the_session_def on_session_def allocate_outgoing_msg_seq_num_def quiet_def external_apply emit_def
          seqP_def bindP_def split: if_splits)
  let ?sigs = "(if ?r \<and> m_state (sess w) \<noteq> resetting then [State_changed (m_state (sess w)) resetting] else []) @
      (if c \<and> (if ?r then resetting else m_state (sess w)) \<noteq> disconnected
       then [State_changed (if ?r then resetting else m_state (sess w)) disconnected] else [])"
  have "outside w' = e2 \<and> emitted w' = emitted w @ ?sigs @ [Message_sent m'] \<and> sess w' = (sess w)\<lparr>
       m_state := if c then disconnected else if ?r then resetting else m_state (sess w),
       m_outgoing_msg_seq_num := (if ?r then 1 else m_outgoing_msg_seq_num (sess w)) + (if ?num then 1 else 0),
       m_incoming_msg_seq_num := if ?r then 1 else m_incoming_msg_seq_num (sess w) \<rparr>"
    using assms type flag flag' now wr r
    by (cases ?num; cases ?r; cases c)
       (auto simp: session_send_def whenP_def set_state_apply set_outgoing_msg_seq_num_def set_incoming_msg_seq_num_def
          the_session_def on_session_def allocate_outgoing_msg_seq_num_def quiet_def external_apply emit_def
          seqP_def bindP_def split: if_splits)
  then show thesis
    using wr r by (intro that[of ?n now e c ?sigs]) auto
qed

lemma stamp_fields_apply:
  "fc_try_get t (stamp_fields opt options n now fs) =
     (if t = CheckSum_Tag \<and> options AND set_checksum \<noteq> 0 then Some (field_string CheckSum_Tag '''')
      else if fc_try_get t fs = None then None
      else if t = BeginString_Tag \<and> options AND set_begin_string \<noteq> 0 then Some (field_string t (m_begin_string opt))
      else if t = SenderCompID_Tag then Some (field_string t (m_sender_comp_id opt))
      else if t = TargetCompID_Tag then Some (field_string t (m_target_comp_id opt))
      else if t = MsgSeqNum_Tag \<and> options AND set_msg_seq_num \<noteq> 0 then Some (field_u32 t n)
      else if t = SendingTime_Tag then Some (field_string t (timestamp_string (m_timestamp_format opt) now))
      else fc_try_get t fs)"
  by (simp add: stamp_fields_def Let_def fc_set_string_def fc_set_u32_def fc_try_get_replace fc_try_get_upsert field_u32_def)

section \<open>Outgoing sequence numbers\<close>

text \<open>
  The messages a session sends are numbered consecutively from \<open>n\<close> on and \<open>n'\<close> comes next. A
  Logon with ResetSeqNumFlag is number 1 and restarts the count; a gap fill carries the number
  of the messages it stands for and does not count.
\<close>

fun numbered :: "u32 \<Rightarrow> message list \<Rightarrow> u32 \<Rightarrow> bool" where
  "numbered n [] n' = (n = n')"
| "numbered n (m # ms) n' =
     (if is_gap_fill m then numbered n ms n'
      else if is_reset_logon m then
        fc_try_get MsgSeqNum_Tag (m_fields m) = Some (field_u32 MsgSeqNum_Tag 1) \<and> numbered 2 ms n'
      else fc_try_get MsgSeqNum_Tag (m_fields m) = Some (field_u32 MsgSeqNum_Tag n) \<and> numbered (n + 1) ms n')"

lemma numbered_append: "numbered a (xs @ ys) c \<longleftrightarrow> (\<exists>b. numbered a xs b \<and> numbered b ys c)"
  by (induction a xs c rule: numbered.induct) auto

definition numbering :: "bool \<Rightarrow> 'e world \<Rightarrow> 'e world \<Rightarrow> bool" where
  "numbering b w w' \<longleftrightarrow> (b \<longrightarrow> (\<exists>sigs. emitted w' = emitted w @ sigs \<and>
     numbered (m_outgoing_msg_seq_num (sess w)) (sent_messages sigs) (m_outgoing_msg_seq_num (sess w'))))"

lemma message_kind_cong:
  "(\<And>t. t \<in> {MsgType_Tag, GapFillFlag_Tag, ResetSeqNumFlag_Tag} \<Longrightarrow>
      fc_try_get t (m_fields m') = fc_try_get t (m_fields m)) \<Longrightarrow>
   is_gap_fill m' = is_gap_fill m \<and> is_reset_logon m' = is_reset_logon m"
  by (simp add: is_gap_fill_def is_reset_logon_def built_message_simps)

text \<open>A message is fit to be numbered when it is plain, or when it is a Logon that resets the count.\<close>

definition numberable :: "message \<Rightarrow> int \<Rightarrow> bool" where
  "numberable m options \<longleftrightarrow> fc_try_get MsgSeqNum_Tag (m_fields m) \<noteq> None \<and>
     (is_gap_fill m \<longleftrightarrow> options AND set_msg_seq_num = 0)"

lemma sent_message_fields:
  assumes "writer_keeps_fields io"
    and "writer_write io (m\<lparr> m_fields := stamp_fields opt options n now (m_fields m) \<rparr>) options e = (Inr m', c, e')"
    and "t \<noteq> BodyLength_Tag" "t \<noteq> CheckSum_Tag"
  shows "fc_try_get t (m_fields m') = fc_try_get t (stamp_fields opt options n now (m_fields m))"
  using assms unfolding writer_keeps_fields_def by fastforce

lemma numbered_send:
  assumes io: "writer_keeps_fields io" and m: "numberable m options"
    and s: "session_send io m options w = (Inr m', w')"
    and k: "is_reset_logon m \<or> k = m_outgoing_msg_seq_num (sess w)"
  shows "\<exists>sigs. emitted w' = emitted w @ sigs @ [Message_sent m'] \<and> sent_messages sigs = [] \<and>
     numbered k [m'] (m_outgoing_msg_seq_num (sess w'))"
proof -
  from s obtain n now e c sigs where
    wr: "writer_write io (m\<lparr> m_fields := stamp_fields (m_options (sess w)) options n now (m_fields m) \<rparr>) options e =
       (Inr m', c, outside w')"
    and sigs: "emitted w' = emitted w @ sigs @ [Message_sent m']" "sent_messages sigs = []"
    and n: "n = (if options AND set_msg_seq_num \<noteq> 0 then if is_reset_logon m then 1 else m_outgoing_msg_seq_num (sess w) else 0)"
    and w': "sess w' = (sess w)\<lparr>
       m_state := if c then disconnected else if is_reset_logon m then resetting else m_state (sess w),
       m_outgoing_msg_seq_num := (if is_reset_logon m then 1 else m_outgoing_msg_seq_num (sess w)) +
         (if options AND set_msg_seq_num \<noteq> 0 then 1 else 0),
       m_incoming_msg_seq_num := if is_reset_logon m then 1 else m_incoming_msg_seq_num (sess w) \<rparr>"
    by (rule session_send_result)
  note f = sent_message_fields[OF io wr] stamp_fields_apply
  have kind: "is_gap_fill m' = is_gap_fill m \<and> is_reset_logon m' = is_reset_logon m"
    by (rule message_kind_cong) (auto simp: f)
  have seq: "\<not> is_gap_fill m \<Longrightarrow> fc_try_get MsgSeqNum_Tag (m_fields m') = Some (field_u32 MsgSeqNum_Tag n)"
    using m by (simp add: f numberable_def)
  have excl: "is_gap_fill m \<Longrightarrow> \<not> is_reset_logon m" by (auto simp: is_gap_fill_def is_reset_logon_def)
  have "numbered k [m'] (m_outgoing_msg_seq_num (sess w'))"
    using k m kind seq excl n w' by (auto simp: numberable_def)
  with sigs show ?thesis by blast
qed

text \<open>The steps that send nothing.\<close>

definition nothing_sent :: "'e world \<Rightarrow> 'e world \<Rightarrow> bool" where
  "nothing_sent w w' \<longleftrightarrow> (\<exists>sigs. emitted w' = emitted w @ sigs \<and> sent_messages sigs = [])"

interpretation ns: session_steps "\<lambda>_. nothing_sent"
proof unfold_locales
  show "nothing_sent s u" if "nothing_sent s t" "nothing_sent t u" for s t u :: "'e world"
    using that by (auto simp: nothing_sent_def sent_messages_append)
qed (auto simp: nothing_sent_def sent_messages_report)

lemma nothing_sent_reset: "keeps (\<lambda>_. nothing_sent) (session_reset io)"
proof -
  have "keeps (\<lambda>_. nothing_sent) (set_outgoing_msg_seq_num n)" "keeps (\<lambda>_. nothing_sent) (set_incoming_msg_seq_num n)" for n
    by (auto simp: keeps_def set_outgoing_msg_seq_num_def set_incoming_msg_seq_num_def on_session_def nothing_sent_def)
  then show ?thesis
    unfolding session_reset_def by (intro ns.keeps_steps ns.keeps_timers)
qed

locale faithful_writer =
  fixes io :: "'e links"
  assumes writer: "writer_keeps_fields io"
begin

lemma keeps_numbering_send:
  assumes "numberable m options"
  shows "keeps numbering (session_send io m options)"
proof (rule keepsI)
  fix w :: "'e world"
  show "numbering (returned (fst (session_send io m options w))) w (snd (session_send io m options w))"
  proof (cases "session_send io m options w")
    case (Pair r w')
    then show ?thesis
      using numbered_send[OF writer assms, of w _ w' "m_outgoing_msg_seq_num (sess w)"]
      by (cases r) (auto simp: numbering_def sent_messages_append)
  qed
qed

lemma send_logon_reset:
  assumes "send_logon io True w = (Inr x, w')"
  shows "\<exists>sigs m'. emitted w' = emitted w @ sigs @ [Message_sent m'] \<and> sent_messages sigs = [] \<and>
     numbered k [m'] (m_outgoing_msg_seq_num (sess w'))"
proof -
  let ?l = "make_message True [field_string 35 ''A'', field_string 98 ''0'',
      field_u32 108 (m_heartbeat_interval (m_options (sess w)))]"
  let ?f1 = "snd (fc_set_bool 141 True Replace_first_or_append (m_fields ?l))"
  define fs where "fs = (if m_use_next_expected_msg_seq_num (m_options (sess w))
      then snd (fc_set_u32 789 (m_incoming_msg_seq_num (sess w)) Replace_first_or_append ?f1) else ?f1)"
  let ?m = "?l\<lparr> m_fields := fs \<rparr>"
  have ok: "numberable ?m encode_standard" "is_reset_logon ?m"
    by (simp_all add: fs_def numberable_def is_gap_fill_def is_reset_logon_def built_message_simps
        fc_set_bool_def fc_set_string_def fc_set_u32_def)
  from assms obtain m' where "session_send io ?m encode_standard w = (Inr m', w')"
    by (cases "session_send io ?m encode_standard w"; cases "fst (session_send io ?m encode_standard w)")
       (auto simp: send_logon_def the_session_def send_standard_def Let_def fs_def seqP_def bindP_def split: if_splits)
  from numbered_send[OF writer ok(1) this, of k] ok(2) show ?thesis by blast
qed

lemma keeps_numbering_reset: "keeps numbering (seqP (session_reset io) (send_logon io True))"
proof (rule keepsI)
  fix w :: "'e world"
  obtain r1 w1 where w1: "session_reset io w = (r1, w1)" by fastforce
  obtain r2 w2 where w2: "send_logon io True w1 = (r2, w2)" by fastforce
  have "nothing_sent w w1" using keepsD[OF nothing_sent_reset w1] by simp
  then show "numbering (returned (fst (seqP (session_reset io) (send_logon io True) w))) w
      (snd (seqP (session_reset io) (send_logon io True) w))"
    using w1 w2 send_logon_reset[of w1 _ w2 "m_outgoing_msg_seq_num (sess w)"]
    by (cases r1; cases r2) (auto simp: numbering_def nothing_sent_def sent_messages_append)
qed

end

sublocale faithful_writer \<subseteq> nu: session_methods numbering io
proof unfold_locales
  show "numbering b s u" if "numbering True s t" "numbering b t u" for b and s t u :: "'a world"
    using that by (auto simp: numbering_def sent_messages_append numbered_append)
  show "keeps numbering (session_send io m options)" if "plain_message m options" for m options
    using that by (intro keeps_numbering_send) (simp add: plain_message_def numberable_def)
  show "keeps numbering (seqP (session_reset io) (send_logon io True))"
    by (rule keeps_numbering_reset)
qed (auto simp: numbering_def sent_messages_report same_control_def)

context faithful_writer
begin

lemma run_numbering:
  assumes "session_run io True evs w w'"
    and "\<And>m options. Application_send m options \<in> set evs \<Longrightarrow> numberable m options"
  shows "numbering True w w'"
  using nu.run_kept[OF assms(1)] keeps_numbering_send assms(2) by blast

end


end
