(* ===== verification/Session_Receive.thy ===== *)
theory Session_Receive
  imports Session_Runs
begin

text \<open>
  What \<open>session::on_message_read\<close> does with a message: which messages it accepts, how it refuses
  the others, and how each kind of accepted message moves the session.
\<close>

section \<open>Acceptance\<close>

definition checksum_ok :: "message \<Rightarrow> bool" where
  "checksum_ok m \<longleftrightarrow>
     (case fc_try_get CheckSum_Tag (m_fields m) of
        None \<Rightarrow> False
      | Some f \<Rightarrow> (case calculate_decode_checksum m of Inl _ \<Rightarrow> False | Inr n \<Rightarrow> format_checksum n = Inr (m_value f)))"

definition body_length_ok :: "message \<Rightarrow> bool" where
  "body_length_ok m \<longleftrightarrow> map_option m_value (fc_try_get BodyLength_Tag (m_fields m)) = Some (u32_to_string (calculate_body_length m))"

definition header_ok :: "session_options \<Rightarrow> message \<Rightarrow> bool" where
  "header_ok opt m \<longleftrightarrow>
     map_option m_value (fc_try_get BeginString_Tag (m_fields m)) = Some (m_begin_string opt) \<and>
     map_option m_value (fc_try_get TargetCompID_Tag (m_fields m)) = Some (m_sender_comp_id opt) \<and>
     map_option m_value (fc_try_get SenderCompID_Tag (m_fields m)) = Some (m_target_comp_id opt)"

definition first_message_ok :: "session \<Rightarrow> message \<Rightarrow> bool" where
  "first_message_ok s m \<longleftrightarrow> m_logon_behaviour (m_options s) = initiator \<or> m_logon_received s \<or>
     message_MsgType m \<in> {Inr Logon_MsgType, Inr Reject_MsgType, Inr Logout_MsgType}"

definition accepted :: "session \<Rightarrow> message \<Rightarrow> bool" where
  "accepted s m \<longleftrightarrow> checksum_ok m \<and> body_length_ok m \<and> header_ok (m_options s) m \<and> first_message_ok s m"

lemma bindP_returns: "bindP m f w = (Inr y, w') \<longleftrightarrow> (\<exists>x v. m w = (Inr x, v) \<and> f x v = (Inr y, w'))"
  by (auto simp: bindP_def split: prod.splits sum.splits)

lemma seqP_returns: "seqP m n w = (Inr y, w') \<longleftrightarrow> (\<exists>x v. m w = (Inr x, v) \<and> n v = (Inr y, w'))"
  by (simp add: seqP_def bindP_returns)

lemma guardP_returns:
  "guardP c d m w = (Inr y, w') \<longleftrightarrow>
     (\<exists>v. c w = (Inr True, v) \<and> m v = (Inr y, w')) \<or> (c w = (Inr False, w') \<and> y = d)"
  by (auto simp: guardP_def bindP_returns split: if_splits)

lemmas returns_simps = bindP_returns seqP_returns guardP_returns the_session_result

lemma reject_and_close_not_True: "reject_and_close io m t reason w \<noteq> (Inr True, w')"
  by (simp add: reject_and_close_def returns_simps)

lemma validate_checksum_True: "validate_checksum io m w = (Inr True, w') \<longleftrightarrow> checksum_ok m \<and> w' = w"
  by (auto simp: validate_checksum_def checksum_ok_def reject_and_close_not_True returns_simps
      split: option.splits sum.splits if_splits)

lemma validate_body_length_True: "validate_body_length io m w = (Inr True, w') \<longleftrightarrow> body_length_ok m \<and> w' = w"
  by (auto simp: validate_body_length_def body_length_ok_def reject_and_close_not_True Let_def
      split: option.splits if_splits)

lemma validate_begin_string_True:
  "validate_begin_string io m w = (Inr True, w') \<longleftrightarrow>
     map_option m_value (fc_try_get BeginString_Tag (m_fields m)) = Some (m_begin_string (m_options (sess w))) \<and> w' = w"
  by (cases "fc_try_get BeginString_Tag (m_fields m)")
     (auto simp: validate_begin_string_def reject_and_close_not_True the_session_def)

lemma comp_id_test: "f = None \<or> comp_id_text f \<noteq> v \<longleftrightarrow> map_option m_value f \<noteq> Some v"
  by (cases f) (simp_all add: comp_id_text_def)

lemma validate_comp_ids_True:
  "validate_comp_ids io m w = (Inr True, w') \<longleftrightarrow>
     map_option m_value (fc_try_get TargetCompID_Tag (m_fields m)) = Some (m_sender_comp_id (m_options (sess w))) \<and>
     map_option m_value (fc_try_get SenderCompID_Tag (m_fields m)) = Some (m_target_comp_id (m_options (sess w))) \<and> w' = w"
  unfolding validate_comp_ids_def comp_id_test Let_def
  by (auto simp: the_session_def reject_and_close_not_True)

lemma validate_first_message_True:
  "validate_first_message io m w = (Inr True, w') \<longleftrightarrow> first_message_ok (sess w) m \<and> w' = w"
proof -
  have "seqP a (seqP b (seqP c (returnP False))) w \<noteq> (Inr True, w')" for a b c :: "('a, unit) action" and w w'
    by (simp add: seqP_returns)
  then show ?thesis
    by (cases "message_MsgType m")
       (auto simp: validate_first_message_def first_message_ok_def Let_def the_session_def)
qed

text \<open>\<open>on_message_read\<close> after the validation of the message.\<close>

definition dispatch_message :: "'e links \<Rightarrow> message \<Rightarrow> ('e, unit) action" where
  "dispatch_message io m =
     bindP (liftP (message_MsgType m)) (\<lambda>msg_type.
      bindP (liftP (message_PossDupFlag m)) (\<lambda>PossDupFlag.
        if msg_type = SequenceReset_MsgType then process_sequence_reset io m PossDupFlag
        else bindP (if PossDupFlag then liftP (message_is_admin m) else returnP False) (\<lambda>ignored.
          if ignored then emit (Warning (''Ignoring PossDup Admin message with MsgType='' @ msg_type))
          else guardP (if msg_type = Logon_MsgType then process_logon io m else validate_sequence_numbers io m) ()
            (bindP (liftP (message_MsgSeqNum m)) (\<lambda>n.
             seqP (set_incoming_msg_seq_num (n + 1))
               (if msg_type = Heartbeat_MsgType then process_heartbeat io m
                else if msg_type = TestRequest_MsgType then process_test_request io m
                else if msg_type = ResendRequest_MsgType then process_resend_request io m
                else if msg_type = Logout_MsgType then process_logout io m
                else returnP ()))))))"

lemma on_message_read_dispatch:
  "on_message_read io m =
     seqP (emit (Message_received m))
     (guardP (validate_checksum io m) () (guardP (validate_body_length io m) ()
     (guardP (validate_begin_string io m) () (guardP (validate_comp_ids io m) ()
     (guardP (validate_first_message io m) () (dispatch_message io m))))))"
  unfolding on_message_read_def dispatch_message_def ..

abbreviation received :: "message \<Rightarrow> 'e world \<Rightarrow> 'e world" where
  "received m w \<equiv> w\<lparr> emitted := emitted w @ [Message_received m] \<rparr>"

lemma accepted_dispatch:
  assumes "accepted (sess w) m"
  shows "on_message_read io m w = dispatch_message io m (received m w)"
proof -
  let ?v = "received m w"
  have "validate_checksum io m ?v = (Inr True, ?v)" "validate_body_length io m ?v = (Inr True, ?v)"
    "validate_begin_string io m ?v = (Inr True, ?v)" "validate_comp_ids io m ?v = (Inr True, ?v)"
    "validate_first_message io m ?v = (Inr True, ?v)"
    using assms unfolding accepted_def header_ok_def validate_checksum_True validate_body_length_True
      validate_begin_string_True validate_comp_ids_True validate_first_message_True by simp_all
  then show ?thesis by (simp add: on_message_read_dispatch emit_def)
qed

section \<open>Sending, once more\<close>

text \<open>The fields \<open>send\<close> and \<open>write\<close> fill in; every other field of a message goes out as it is.\<close>

definition stamped_tags :: "int set" where
  "stamped_tags = {BeginString_Tag, BodyLength_Tag, CheckSum_Tag, MsgSeqNum_Tag, SenderCompID_Tag, SendingTime_Tag,
     TargetCompID_Tag}"

definition sent_as :: "message \<Rightarrow> message \<Rightarrow> bool" where
  "sent_as m m' \<longleftrightarrow> (\<forall>t. t \<notin> stamped_tags \<longrightarrow> fc_try_get t (m_fields m') = fc_try_get t (m_fields m))"

lemma sent_as_type: "sent_as m m' \<Longrightarrow> message_MsgType m' = message_MsgType m"
  by (simp add: sent_as_def stamped_tags_def message_MsgType_def message_value_try_get)

lemma sent_as_get: "sent_as m m' \<Longrightarrow> t \<notin> stamped_tags \<Longrightarrow> fc_try_get t (m_fields m') = fc_try_get t (m_fields m)"
  by (simp add: sent_as_def)

lemma send_effect:
  assumes io: "writer_keeps_fields io" and m: "plain_message m options"
    and s: "session_send io m options w = (Inr m', w')"
  obtains sigs c where "emitted w' = emitted w @ sigs @ [Message_sent m']" "sent_messages sigs = []" "sent_as m m'"
    "sess w' = (sess w)\<lparr> m_state := if c then disconnected else m_state (sess w),
       m_outgoing_msg_seq_num := m_outgoing_msg_seq_num (sess w) + (if is_gap_fill m then 0 else 1) \<rparr>"
    "fc_try_get MsgSeqNum_Tag (m_fields m') =
       (if is_gap_fill m then fc_try_get MsgSeqNum_Tag (m_fields m)
        else Some (field_u32 MsgSeqNum_Tag (m_outgoing_msg_seq_num (sess w))))"
proof -
  have nr: "\<not> is_reset_logon m" and gf: "is_gap_fill m \<longleftrightarrow> options AND set_msg_seq_num = 0"
    and has: "fc_try_get MsgSeqNum_Tag (m_fields m) \<noteq> None"
    using m by (auto simp: plain_message_def)
  from s obtain n now e c sigs where
    wr: "writer_write io (m\<lparr> m_fields := stamp_fields (m_options (sess w)) options n now (m_fields m) \<rparr>) options e =
       (Inr m', c, outside w')"
    and sigs: "emitted w' = emitted w @ sigs @ [Message_sent m']" "sent_messages sigs = []"
    and n: "n = (if options AND set_msg_seq_num \<noteq> 0 then if is_reset_logon m then 1 else m_outgoing_msg_seq_num (sess w) else 0)"
    and w': "sess w' = (sess w)\<lparr>
       m_state := if c then disconnected else if is_reset_logon m then resetting else m_state (sess w),
       m_outgoing_msg_seq_num := (if is_reset_logon m then 1 else m_outgoing_msg_seq_num (sess w)) +
         (if options AND set_msg_seq_num \<noteq> 0 then 1 else 0),
       m_incoming_msg_seq_num := if is_reset_logon m then 1 else m_incoming_msg_seq_num (sess w) \<rparr>"
    by (rule session_send_result)
  note f = sent_message_fields[OF io wr] stamp_fields_apply
  have "sent_as m m'" by (auto simp: sent_as_def stamped_tags_def f)
  moreover have "fc_try_get MsgSeqNum_Tag (m_fields m') =
       (if is_gap_fill m then fc_try_get MsgSeqNum_Tag (m_fields m)
        else Some (field_u32 MsgSeqNum_Tag (m_outgoing_msg_seq_num (sess w))))"
    using has gf nr n by (auto simp: f)
  ultimately show thesis
    using that[of sigs c] sigs w' nr gf by simp
qed

lemma send_standard_effect:
  assumes io: "writer_keeps_fields io" and m: "plain_message m encode_standard"
    and s: "send_standard io m w = (Inr x, w')"
  obtains m' sigs c where "emitted w' = emitted w @ sigs @ [Message_sent m']" "sent_messages sigs = []" "sent_as m m'"
    "sess w' = (sess w)\<lparr> m_state := if c then disconnected else m_state (sess w),
       m_outgoing_msg_seq_num := m_outgoing_msg_seq_num (sess w) + 1 \<rparr>"
    "fc_try_get MsgSeqNum_Tag (m_fields m') = Some (field_u32 MsgSeqNum_Tag (m_outgoing_msg_seq_num (sess w)))"
proof -
  have gf: "\<not> is_gap_fill m" using m by (simp add: plain_message_def)
  from s obtain m' where m': "session_send io m encode_standard w = (Inr m', w')"
    by (auto simp: send_standard_def seqP_returns)
  show thesis by (rule send_effect[OF io m m']) (use gf in \<open>auto intro: that\<close>)
qed

section \<open>Refused messages\<close>

text \<open>Methods that return leave the expected incoming number alone, as long as they send no resetting Logon.\<close>

definition incoming_kept :: "bool \<Rightarrow> 'e world \<Rightarrow> 'e world \<Rightarrow> bool" where
  "incoming_kept b w w' \<longleftrightarrow> (b \<longrightarrow> m_incoming_msg_seq_num (sess w') = m_incoming_msg_seq_num (sess w))"

lemma incoming_kept_send:
  assumes "\<not> is_reset_logon m"
  shows "keeps incoming_kept (session_send io m options)"
proof (rule keepsI)
  fix w :: "'a world"
  obtain r w' where s: "session_send io m options w = (r, w')" by fastforce
  show "incoming_kept (returned (fst (session_send io m options w))) w (snd (session_send io m options w))"
  proof (cases r)
    case (Inr m')
    then show ?thesis using s assms
      by (auto simp: incoming_kept_def elim: session_send_result[of io m options w m' w'])
  qed (simp add: s incoming_kept_def)
qed

interpretation ik: session_frame incoming_kept io for io
  by unfold_locales (auto simp: incoming_kept_def same_control_def plain_message_def intro: incoming_kept_send)

lemma session_close_state: "session_close io w = (Inr x, w') \<Longrightarrow> m_state (sess w') = disconnected"
  by (auto simp: session_close_def seqP_returns set_state_apply)

lemma nothing_sentD: "keeps (\<lambda>_. nothing_sent) f \<Longrightarrow> f w = (r, w') \<Longrightarrow> \<exists>sigs. emitted w' = emitted w @ sigs \<and> sent_messages sigs = []"
  by (drule (1) keepsD) (simp add: nothing_sent_def)

definition is_reject_of :: "message \<Rightarrow> string \<Rightarrow> message \<Rightarrow> bool" where
  "is_reject_of m t rej \<longleftrightarrow> message_MsgType rej = Inr Reject_MsgType \<and>
     (\<exists>n. message_MsgSeqNum m = Inr n \<and> fc_try_get RefSeqNum_Tag (m_fields rej) = Some (field_u32 RefSeqNum_Tag n)) \<and>
     fc_try_get Text_Tag (m_fields rej) = Some (field_string Text_Tag t)"

lemma send_reject_effect:
  assumes io: "writer_keeps_fields io" and s: "send_reject io m t (Some reason) w = (Inr x, w')"
  shows "\<exists>sigs rej. emitted w' = emitted w @ sigs \<and> sent_messages sigs = [rej] \<and> is_reject_of m t rej"
proof -
  from s obtain n where n: "message_MsgSeqNum m = Inr n"
    by (cases "message_MsgSeqNum m") (auto simp: send_reject_def)
  let ?r = "make_message True [field_string 35 ''3'', field_u32 45 n, field_string 58 t]"
  let ?r' = "?r\<lparr> m_fields := snd (fc_set_string 373 reason Replace_first_or_append (m_fields ?r)) \<rparr>"
  from s n obtain rm where rm: "rm \<in> {?r, ?r'}" and sd: "send_standard io rm w = (Inr x, w')"
    by (cases "is_field_defined (m_orchestration io) (word_of_int 373)")
       (auto simp: send_reject_def Let_def bindP_returns split: if_splits)
  from rm have p: "plain_message rm encode_standard" and
    f: "message_MsgType rm = Inr ''3''" "fc_try_get 45 (m_fields rm) = Some (field_u32 45 n)"
       "fc_try_get 58 (m_fields rm) = Some (field_string 58 t)"
    by (auto simp: plain_message_def is_reset_logon_def is_gap_fill_def built_message_simps fc_set_string_def)
  from send_standard_effect[OF io p sd] obtain rej sigs where
    "emitted w' = emitted w @ sigs @ [Message_sent rej]" "sent_messages sigs = []" "sent_as rm rej" by metis
  with f n show ?thesis
    by (intro exI[of _ "sigs @ [Message_sent rej]"] exI[of _ rej])
       (auto simp: sent_messages_append is_reject_of_def sent_as_type sent_as_get stamped_tags_def)
qed

lemma reject_and_close_effect:
  assumes io: "writer_keeps_fields io" and s: "reject_and_close io m t reason w = (Inr x, w')"
  shows "m_state (sess w') = disconnected \<and>
    (\<exists>sigs rej. emitted w' = emitted w @ sigs \<and> sent_messages sigs = [rej] \<and> is_reject_of m t rej)"
proof -
  from s obtain w1 w2 where s1: "send_reject io m t (Some reason) w1 = (Inr (), w2)" and s2: "session_close io w2 = (Inr (), w')"
    and w1: "emitted w1 = emitted w @ [Error t]"
    by (auto simp: reject_and_close_def seqP_returns emit_def)
  from send_reject_effect[OF io s1] obtain sigs rej where
    r: "emitted w2 = emitted w1 @ sigs" "sent_messages sigs = [rej]" "is_reject_of m t rej" by blast
  from nothing_sentD[OF ns.keeps_session_close s2] obtain sigs2 where
    c: "emitted w' = emitted w2 @ sigs2" "sent_messages sigs2 = []" by blast
  show ?thesis using session_close_state[OF s2] r c w1
    by (intro conjI exI[of _ "[Error t] @ sigs @ sigs2"] exI[of _ rej]) (auto simp: sent_messages_append)
qed

lemma send_logout_effect:
  assumes io: "writer_keeps_fields io" and s: "send_logout io t w = (Inr x, w')"
  shows "m_state (sess w') = disconnected \<and>
    (\<exists>sigs out. emitted w' = emitted w @ sigs \<and> sent_messages sigs = [out] \<and> message_MsgType out = Inr Logout_MsgType \<and>
       fc_try_get Text_Tag (m_fields out) = Some (field_string Text_Tag t) \<and>
       fc_try_get MsgSeqNum_Tag (m_fields out) = Some (field_u32 MsgSeqNum_Tag (m_outgoing_msg_seq_num (sess w))))"
proof -
  let ?m = "make_message True [field_string 35 ''5'', field_string 58 t]"
  let ?st = "bindP (the_session m_state) (\<lambda>st. whenP (st = logged_on) (seqP (stop_defibrillator io) (set_state connected)))"
  from s obtain w1 w2 where sd: "send_standard io ?m w = (Inr (), w1)"
    and st: "?st w1 = (Inr (), w2)" and cl: "session_close io w2 = (Inr (), w')"
    by (auto simp: send_logout_def seqP_returns)
  have p: "plain_message ?m encode_standard" by (rule plain_built) simp_all
  from send_standard_effect[OF io p sd] obtain out sigs where
    o: "emitted w1 = emitted w @ sigs @ [Message_sent out]" "sent_messages sigs = []" "sent_as ?m out"
      "fc_try_get MsgSeqNum_Tag (m_fields out) = Some (field_u32 MsgSeqNum_Tag (m_outgoing_msg_seq_num (sess w)))" by metis
  have "keeps (\<lambda>_. nothing_sent) ?st"
    by (intro ns.keeps_steps ns.keeps_timers)
       (auto simp: keeps_def set_state_apply nothing_sent_def)
  from nothing_sentD[OF this st] obtain s2 where a: "emitted w2 = emitted w1 @ s2" "sent_messages s2 = []" by blast
  from nothing_sentD[OF ns.keeps_session_close cl] obtain s3 where b: "emitted w' = emitted w2 @ s3" "sent_messages s3 = []" by blast
  show ?thesis using session_close_state[OF cl] o a b
    by (intro conjI exI[of _ "(sigs @ [Message_sent out]) @ s2 @ s3"] exI[of _ out])
       (auto simp: sent_messages_append sent_as_type sent_as_get stamped_tags_def built_message_simps)
qed

text \<open>A message that is not accepted is answered by one of the refusals.\<close>

lemma validation_refused:
  assumes io: "writer_keeps_fields io"
    and v: "validate_checksum io m w = (Inr False, w') \<or> validate_body_length io m w = (Inr False, w') \<or>
      validate_begin_string io m w = (Inr False, w') \<or> validate_comp_ids io m w = (Inr False, w')"
  shows "m_state (sess w') = disconnected \<and>
    (\<exists>sigs rej t. emitted w' = emitted w @ sigs \<and> sent_messages sigs = [rej] \<and> is_reject_of m t rej)"
proof -
  from v obtain t reason where "reject_and_close io m t reason w = (Inr False, w')"
    by (auto simp: validate_checksum_def validate_body_length_def validate_begin_string_def validate_comp_ids_def
        returns_simps Let_def split: option.splits if_splits)
  from reject_and_close_effect[OF io this] show ?thesis by blast
qed

lemma first_message_refused:
  assumes io: "writer_keeps_fields io" and v: "validate_first_message io m w = (Inr False, w')"
  shows "m_state (sess w') = disconnected \<and>
    (\<exists>sigs rej out t. emitted w' = emitted w @ sigs \<and> sent_messages sigs = [rej, out] \<and> is_reject_of m t rej \<and>
       message_MsgType out = Inr Logout_MsgType)"
proof -
  let ?t = "''First message is not a Logon''"
  define w1 where "w1 = w\<lparr> emitted := emitted w @ [Error ?t] \<rparr>"
  then have w1: "emitted w1 = emitted w @ [Error ?t]" by simp
  from v obtain w2 where r: "send_reject io m ?t (Some SessionRejectReason_Other) w1 = (Inr (), w2)"
    and l: "send_logout io ?t w2 = (Inr (), w')"
    by (auto simp: validate_first_message_def returns_simps Let_def emit_def w1_def split: if_splits)
  from send_reject_effect[OF io r] obtain s1 rej where
    a: "emitted w2 = emitted w1 @ s1" "sent_messages s1 = [rej]" "is_reject_of m ?t rej" by blast
  from send_logout_effect[OF io l] obtain s2 out where
    b: "m_state (sess w') = disconnected" "emitted w' = emitted w2 @ s2" "sent_messages s2 = [out]"
       "message_MsgType out = Inr Logout_MsgType" by blast
  show ?thesis using w1 a b
    by (intro conjI exI[of _ "[Error ?t] @ s1 @ s2"] exI[of _ rej] exI[of _ out] exI[of _ ?t])
       (auto simp: sent_messages_append)
qed

lemma not_accepted:
  assumes "on_message_read io m w = (Inr (), w')" "\<not> accepted (sess w) m"
  shows "validate_checksum io m (received m w) = (Inr False, w') \<or> validate_body_length io m (received m w) = (Inr False, w') \<or>
      validate_begin_string io m (received m w) = (Inr False, w') \<or> validate_comp_ids io m (received m w) = (Inr False, w') \<or>
      validate_first_message io m (received m w) = (Inr False, w')"
    and "m_incoming_msg_seq_num (sess w') = m_incoming_msg_seq_num (sess w)"
proof -
  let ?v = "received m w"
  note True_conds = validate_checksum_True validate_body_length_True validate_begin_string_True
    validate_comp_ids_True validate_first_message_True
  show refused: "validate_checksum io m ?v = (Inr False, w') \<or> validate_body_length io m ?v = (Inr False, w') \<or>
      validate_begin_string io m ?v = (Inr False, w') \<or> validate_comp_ids io m ?v = (Inr False, w') \<or>
      validate_first_message io m ?v = (Inr False, w')"
    using assms unfolding on_message_read_dispatch
    by (auto simp: seqP_returns guardP_returns emit_def True_conds accepted_def header_ok_def)
  have "incoming_kept True ?v w'"
    using refused by (auto dest!: keepsD[OF ik.keeps_validate(1)] keepsD[OF ik.keeps_validate(2)]
        keepsD[OF ik.keeps_validate(3)] keepsD[OF ik.keeps_validate(4)] keepsD[OF ik.keeps_validate(5)])
  then show "m_incoming_msg_seq_num (sess w') = m_incoming_msg_seq_num (sess w)" by (simp add: incoming_kept_def)
qed

text \<open>
  C16: a message that fails the checksum, the body length, the version, the comp ids or the rule
  that an acceptor's first message is a Logon is never acted upon: when \<open>on_message_read\<close> returns,
  the peer has been sent a Reject that names the message, the session is disconnected, and the
  expected incoming number is what it was.
\<close>

theorem refused_messages_are_rejected:
  assumes "writer_keeps_fields io" "on_message_read io m w = (Inr (), w')" "\<not> accepted (sess w) m"
  shows "m_state (sess w') = disconnected \<and> m_incoming_msg_seq_num (sess w') = m_incoming_msg_seq_num (sess w) \<and>
    (\<exists>sigs rej rest t. emitted w' = emitted w @ Message_received m # sigs \<and>
       sent_messages sigs = rej # rest \<and> is_reject_of m t rej)"
proof (cases "validate_first_message io m (received m w) = (Inr False, w')")
  case True
  from first_message_refused[OF assms(1) this] not_accepted(2)[OF assms(2,3)] show ?thesis by auto
next
  case False
  with not_accepted(1)[OF assms(2,3)] have "validate_checksum io m (received m w) = (Inr False, w') \<or>
      validate_body_length io m (received m w) = (Inr False, w') \<or>
      validate_begin_string io m (received m w) = (Inr False, w') \<or> validate_comp_ids io m (received m w) = (Inr False, w')"
    by blast
  from validation_refused[OF assms(1) this] not_accepted(2)[OF assms(2,3)] show ?thesis by auto
qed

section \<open>Incoming sequence numbers\<close>

lemma incoming_keptD:
  "keeps incoming_kept f \<Longrightarrow> f w = (Inr x, w') \<Longrightarrow> m_incoming_msg_seq_num (sess w') = m_incoming_msg_seq_num (sess w)"
  by (drule (1) keepsD) (simp add: incoming_kept_def)

lemma sequence_number_False:
  "sequence_number_is_low io m w = (Inr False, w') \<longleftrightarrow>
     (\<exists>n. message_MsgSeqNum m = Inr n \<and> m_incoming_msg_seq_num (sess w) \<le> n) \<and> w' = w"
  "sequence_number_is_high io m w = (Inr False, w') \<longleftrightarrow>
     (\<exists>n. message_MsgSeqNum m = Inr n \<and> n \<le> m_incoming_msg_seq_num (sess w)) \<and> w' = w"
  by (auto simp: sequence_number_is_low_def sequence_number_is_high_def returns_simps Let_def not_less split: if_splits)

lemma validate_sequence_numbers_True:
  "validate_sequence_numbers io m w = (Inr True, w') \<longleftrightarrow>
     message_MsgSeqNum m = Inr (m_incoming_msg_seq_num (sess w)) \<and> w' = w"
proof -
  have "validate_sequence_numbers io m w = (Inr True, w') \<longleftrightarrow>
      (\<exists>v. sequence_number_is_high io m w = (Inr False, v) \<and> sequence_number_is_low io m v = (Inr False, w'))"
    by (auto simp: validate_sequence_numbers_def bindP_returns split: if_splits)
  then show ?thesis by (auto simp: sequence_number_False)
qed

lemma keeps_next_expected:
  "f w = (r, w') \<Longrightarrow> keeps (\<lambda>_. same_setup) f \<Longrightarrow>
   m_use_next_expected_msg_seq_num (m_options (sess w')) = m_use_next_expected_msg_seq_num (m_options (sess w))"
  by (drule (1) keepsD[rotated], cases "m_options (sess w)", cases "m_options (sess w')") (simp add: same_setup_def)

lemma plain_logon_incoming:
  assumes "bindP (sequence_number_is_low io m) (\<lambda>low.
      if low then returnP False
      else seqP (whenP acceptor_side (send_logon io False))
        (bindP (sequence_number_is_high io m) (\<lambda>high.
           if high then returnP False
           else seqP (send_post_logon_test_request io) (returnP True)))) w = (Inr b, w')" (is "?f w = _")
  shows "m_incoming_msg_seq_num (sess w') = m_incoming_msg_seq_num (sess w)"
    and "b \<Longrightarrow> message_MsgSeqNum m = Inr (m_incoming_msg_seq_num (sess w))"
proof -
  note k = ik.keeps_calls ik.keeps_sequence_number
  have "keeps incoming_kept ?f"
    by (intro k)
  from incoming_keptD[OF this assms] show "m_incoming_msg_seq_num (sess w') = m_incoming_msg_seq_num (sess w)" .
  assume b
  with assms obtain v where lo: "sequence_number_is_low io m w = (Inr False, w)"
    and sl: "whenP acceptor_side (send_logon io False) w = (Inr (), v)"
    and hi: "sequence_number_is_high io m v = (Inr False, v)"
    by (auto simp: returns_simps sequence_number_False split: if_splits)
  have "keeps incoming_kept (whenP acceptor_side (send_logon io False))"
    by (intro k)
  from incoming_keptD[OF this sl] lo hi
  show "message_MsgSeqNum m = Inr (m_incoming_msg_seq_num (sess w))" by (auto simp: sequence_number_False)
qed

lemma process_logon_incoming:
  assumes "process_logon io m w = (Inr b, w')"
  shows "\<not> b \<Longrightarrow> m_incoming_msg_seq_num (sess w') = m_incoming_msg_seq_num (sess w)"
    and "b \<Longrightarrow> m_use_next_expected_msg_seq_num (m_options (sess w)) \<or>
      message_ResetSeqNumFlag m = Inr True \<and> message_MsgSeqNum m = Inr 1 \<or>
      message_MsgSeqNum m = Inr (m_incoming_msg_seq_num (sess w))"
proof -
  from assms obtain flag where flag: "message_ResetSeqNumFlag m = Inr flag"
    by (cases "message_ResetSeqNumFlag m") (auto simp: process_logon_def)
  from assms obtain ok w1 where ex: "extract_heartbeat_interval io m w = (Inr ok, w1)"
    by (auto simp: process_logon_def returns_simps flag)
  note i1 = incoming_keptD[OF ik.keeps_extract_heartbeat_interval ex]
  note u1 = keeps_next_expected[OF ex su.se.keeps_extract_heartbeat_interval]
  have "(\<not> b \<longrightarrow> m_incoming_msg_seq_num (sess w') = m_incoming_msg_seq_num (sess w)) \<and>
    (b \<longrightarrow> m_use_next_expected_msg_seq_num (m_options (sess w)) \<or> flag \<and> message_MsgSeqNum m = Inr 1 \<or>
      message_MsgSeqNum m = Inr (m_incoming_msg_seq_num (sess w)))"
  proof (cases ok)
    case False
    with assms ex i1 flag show ?thesis by (simp add: process_logon_def)
  next
    case True
    define w2 where "w2 = w1\<lparr> sess := (sess w1)\<lparr> m_logon_received := True \<rparr> \<rparr>"
    have i2: "m_incoming_msg_seq_num (sess w2) = m_incoming_msg_seq_num (sess w)" using i1 by (simp add: w2_def)
    consider (expect) "m_use_next_expected_msg_seq_num (m_options (sess w2))" "process_logon_next_expected io m w2 = (Inr b, w')"
      | (reset) "\<not> m_use_next_expected_msg_seq_num (m_options (sess w2))" flag "b \<longrightarrow> message_MsgSeqNum m = Inr 1"
          "\<not> b \<longrightarrow> sess w' = sess w2"
      | (plain) "\<not> m_use_next_expected_msg_seq_num (m_options (sess w2))" "\<not> flag"
          "bindP (sequence_number_is_low io m) (\<lambda>low.
            if low then returnP False
            else seqP (whenP (m_logon_behaviour (m_options (sess w2)) = acceptor) (send_logon io False))
              (bindP (sequence_number_is_high io m) (\<lambda>high.
                 if high then returnP False
                 else seqP (send_post_logon_test_request io) (returnP True)))) w2 = (Inr b, w')"
      using assms ex flag True
      by (cases "m_use_next_expected_msg_seq_num (m_options (sess w2))"; cases flag)
         (auto simp: process_logon_def w2_def on_session_def the_session_def returns_simps emit_def split: if_splits)
    then show ?thesis
    proof cases
      case expect
      with i2 u1 incoming_keptD[OF ik.keeps_process_logon_next_expected expect(2)] show ?thesis by (simp add: w2_def)
    next
      case reset
      with i2 show ?thesis by auto
    next
      case plain
      from plain_logon_incoming[OF plain(3)] show ?thesis using i2 by auto
    qed
  qed
  with flag show "\<not> b \<Longrightarrow> m_incoming_msg_seq_num (sess w') = m_incoming_msg_seq_num (sess w)"
    and "b \<Longrightarrow> m_use_next_expected_msg_seq_num (m_options (sess w)) \<or>
      message_ResetSeqNumFlag m = Inr True \<and> message_MsgSeqNum m = Inr 1 \<or>
      message_MsgSeqNum m = Inr (m_incoming_msg_seq_num (sess w))" by auto
qed

lemma process_gap_fill_incoming:
  assumes "process_gap_fill io m k w = (Inr (), w')"
  shows "m_incoming_msg_seq_num (sess w') = m_incoming_msg_seq_num (sess w) \<or>
    message_MsgSeqNum m = Inr (m_incoming_msg_seq_num (sess w)) \<and> m_incoming_msg_seq_num (sess w') = k"
proof -
  note kept = incoming_keptD[OF ik.keeps_finish_resend] incoming_keptD[OF ik.keeps_report_and_reject]
    incoming_keptD[OF ik.keeps_sequence_number(3)]
  show ?thesis
    using assms unfolding process_gap_fill_def Let_def
    by (auto simp: returns_simps validate_sequence_numbers_True on_session_def set_incoming_msg_seq_num_def emit_def
        dest!: kept split: if_splits)
qed

lemma process_sequence_reset_incoming:
  assumes "process_sequence_reset io m d w = (Inr (), w')"
  shows "m_incoming_msg_seq_num (sess w') = m_incoming_msg_seq_num (sess w) \<or>
    message_GapFillFlag m = Inr True \<and> message_MsgSeqNum m = Inr (m_incoming_msg_seq_num (sess w)) \<and>
    (\<exists>f k. fc_try_get NewSeqNo_Tag (m_fields m) = Some f \<and> stoi_u32 (m_value f) = Inr k \<and>
       m_incoming_msg_seq_num (sess w) < k \<and> m_incoming_msg_seq_num (sess w') = k)"
proof -
  note kept = incoming_keptD[OF ik.keeps_finish_resend] incoming_keptD[OF ik.keeps_report_and_reject]
  show ?thesis
  proof (cases "fc_try_get NewSeqNo_Tag (m_fields m)")
    case None
    with assms show ?thesis by (auto simp: process_sequence_reset_def dest!: kept)
  next
    case (Some f)
    with assms obtain g where g: "message_GapFillFlag m = Inr g"
      by (cases "message_GapFillFlag m") (auto simp: process_sequence_reset_def)
    show ?thesis
    proof (cases "stoi_u32 (m_value f)")
      case (Inl e)
      with assms Some g show ?thesis by (auto simp: process_sequence_reset_def try_catch_def dest!: kept)
    next
      case (Inr k)
      note run = process_sequence_reset_def try_catch_def the_session_def on_session_def emit_def
      consider "k \<le> m_incoming_msg_seq_num (sess w)" | "\<not> k \<le> m_incoming_msg_seq_num (sess w)" "\<not> g"
        | "m_incoming_msg_seq_num (sess w) < k" g by (meson not_le)
      then show ?thesis
      proof cases
        case 3
        then have "\<not> k \<le> m_incoming_msg_seq_num (sess w)" by (simp only: not_le)
        with 3 assms Some g Inr have "process_gap_fill io m k w = (Inr (), w')" by (simp add: run)
        from process_gap_fill_incoming[OF this] 3 Some g Inr show ?thesis by auto
      qed (use assms Some g Inr in \<open>auto simp: run dest!: kept\<close>)
    qed
  qed
qed

text \<open>The four handlers that follow the update of the expected number do not move it again.\<close>

lemma dispatch_cases:
  assumes "dispatch_message io m w = (Inr (), w')"
  obtains (reset) d where "message_MsgType m = Inr SequenceReset_MsgType" "process_sequence_reset io m d w = (Inr (), w')"
  | (ignored) "sess w' = sess w"
  | (refused) "message_MsgType m = Inr Logon_MsgType" "process_logon io m w = (Inr False, w')"
  | (out_of_sequence) "validate_sequence_numbers io m w = (Inr False, w')"
  | (logon) n v where "message_MsgType m = Inr Logon_MsgType" "process_logon io m w = (Inr True, v)"
      "message_MsgSeqNum m = Inr n" "m_incoming_msg_seq_num (sess w') = n + 1"
  | (in_sequence) "message_MsgSeqNum m = Inr (m_incoming_msg_seq_num (sess w))"
      "m_incoming_msg_seq_num (sess w') = m_incoming_msg_seq_num (sess w) + 1"
proof -
  from assms obtain type where type: "message_MsgType m = Inr type"
    by (cases "message_MsgType m") (simp_all add: dispatch_message_def)
  from assms type obtain d where d: "message_PossDupFlag m = Inr d"
    by (cases "message_PossDupFlag m") (simp_all add: dispatch_message_def)
  let ?tail = "if type = Heartbeat_MsgType then process_heartbeat io m
      else if type = TestRequest_MsgType then process_test_request io m
      else if type = ResendRequest_MsgType then process_resend_request io m
      else if type = Logout_MsgType then process_logout io m else returnP ()"
  have tail: "keeps incoming_kept ?tail"
    by (intro ik.keeps_calls ik.keeps_process_heartbeat ik.keeps_process)
  let ?check = "if type = Logon_MsgType then process_logon io m else validate_sequence_numbers io m"
  consider "type = SequenceReset_MsgType" "process_sequence_reset io m d w = (Inr (), w')"
    | "sess w' = sess w" | "?check w = (Inr False, w')"
    | v n where "?check w = (Inr True, v)" "message_MsgSeqNum m = Inr n"
        "?tail (v\<lparr> sess := (sess v)\<lparr> m_incoming_msg_seq_num := n + 1 \<rparr> \<rparr>) = (Inr (), w')"
  proof -
    assume 1: "type = SequenceReset_MsgType \<Longrightarrow> process_sequence_reset io m d w = (Inr (), w') \<Longrightarrow> thesis"
      and 2: "sess w' = sess w \<Longrightarrow> thesis" and 3: "?check w = (Inr False, w') \<Longrightarrow> thesis"
      and 4: "\<And>v n. ?check w = (Inr True, v) \<Longrightarrow> message_MsgSeqNum m = Inr n \<Longrightarrow>
        ?tail (v\<lparr> sess := (sess v)\<lparr> m_incoming_msg_seq_num := n + 1 \<rparr> \<rparr>) = (Inr (), w') \<Longrightarrow> thesis"
    show thesis
    proof (cases "type = SequenceReset_MsgType")
      case True
      with assms type d 1 show thesis by (simp add: dispatch_message_def)
    next
      case False
      with assms type d obtain ign where ign: "(if d then liftP (message_is_admin m) else returnP False) w = (Inr ign, w)"
        by (cases "message_is_admin m"; cases d) (auto simp: dispatch_message_def)
      show thesis
      proof (cases ign)
        case True
        with False assms type d ign have "sess w' = sess w" by (auto simp: dispatch_message_def emit_def)
        with 2 show thesis .
      next
        case ni: False
        with False assms type d ign have "guardP ?check ()
            (bindP (liftP (message_MsgSeqNum m)) (\<lambda>n. seqP (set_incoming_msg_seq_num (n + 1)) ?tail)) w = (Inr (), w')"
          by (simp add: dispatch_message_def)
        with 3 4 show thesis
          by (auto simp only: guardP_returns bindP_returns seqP_returns set_incoming_msg_seq_num_def on_session_def
              modifyP_apply liftP_apply prod.inject)
      qed
    qed
  qed
  then show thesis
  proof cases
    case 1
    with reset type show thesis by simp
  next
    case 2
    with ignored show thesis by simp
  next
    case 3
    with refused out_of_sequence type show thesis by (simp split: if_splits)
  next
    case (4 v n)
    from incoming_keptD[OF tail 4(3)] have i: "m_incoming_msg_seq_num (sess w') = n + 1" by simp
    with 4 logon in_sequence type show thesis
      by (auto simp: validate_sequence_numbers_True split: if_splits)
  qed
qed


section \<open>Messages in, above and below the sequence\<close>

text \<open>A message that is neither a Logon nor a SequenceReset nor marked as a possible duplicate.\<close>

definition sequenced :: "message \<Rightarrow> u32 \<Rightarrow> bool" where
  "sequenced m n \<longleftrightarrow> (\<exists>type. message_MsgType m = Inr type \<and> type \<noteq> Logon_MsgType \<and> type \<noteq> SequenceReset_MsgType) \<and>
     message_PossDupFlag m = Inr False \<and> message_MsgSeqNum m = Inr n"

definition handle_in_sequence :: "'e links \<Rightarrow> message \<Rightarrow> string \<Rightarrow> ('e, unit) action" where
  "handle_in_sequence io m type =
     (if type = Heartbeat_MsgType then process_heartbeat io m
      else if type = TestRequest_MsgType then process_test_request io m
      else if type = ResendRequest_MsgType then process_resend_request io m
      else if type = Logout_MsgType then process_logout io m
      else returnP ())"

lemma sequenced_dispatch:
  assumes "accepted (sess w) m" "sequenced m n" "message_MsgType m = Inr type"
  shows "on_message_read io m w =
     guardP (validate_sequence_numbers io m) ()
       (seqP (set_incoming_msg_seq_num (n + 1)) (handle_in_sequence io m type)) (received m w)"
  using assms by (auto simp: accepted_dispatch dispatch_message_def sequenced_def handle_in_sequence_def guardP_def bindP_def
      split: prod.splits sum.splits)

lemma in_sequence_handled:
  assumes "accepted (sess w) m" "sequenced m (m_incoming_msg_seq_num (sess w))" "message_MsgType m = Inr type"
  shows "on_message_read io m w = handle_in_sequence io m type
     ((received m w)\<lparr> sess := (sess w)\<lparr> m_incoming_msg_seq_num := m_incoming_msg_seq_num (sess w) + 1 \<rparr> \<rparr>)"
proof -
  have "validate_sequence_numbers io m (received m w) = (Inr True, received m w)"
    using assms(2) by (simp add: validate_sequence_numbers_True sequenced_def)
  with sequenced_dispatch[OF assms] show ?thesis
    by (simp add: set_incoming_msg_seq_num_def on_session_def)
qed

text \<open>
  An accepted application message with the expected number is delivered and the expected
  number moves one on; nothing is sent and nothing else of the session changes.
\<close>

theorem in_sequence_application_message:
  assumes "accepted (sess w) m" "sequenced m (m_incoming_msg_seq_num (sess w))" "message_is_admin m = Inr False"
  shows "on_message_read io m w = (Inr (), w\<lparr> emitted := emitted w @ [Message_received m],
     sess := (sess w)\<lparr> m_incoming_msg_seq_num := m_incoming_msg_seq_num (sess w) + 1 \<rparr> \<rparr>)"
proof -
  from assms(2) obtain type where type: "message_MsgType m = Inr type" by (auto simp: sequenced_def)
  with assms(3) have "handle_in_sequence io m type = returnP ()"
    by (auto simp: handle_in_sequence_def message_is_admin_def)
  with in_sequence_handled[OF assms(1,2) type] show ?thesis by simp
qed

text \<open>
  While a recovery is in flight, a message above the expected number sends nothing: it only
  extends the number the recovery has to reach.
\<close>

theorem gap_while_resending_extends_target:
  assumes "accepted (sess w) m" "sequenced m n" "m_incoming_msg_seq_num (sess w) < n" "m_state (sess w) = resending"
  shows "on_message_read io m w = (Inr (), w\<lparr> emitted := emitted w @ [Message_received m],
     sess := (sess w)\<lparr> m_incoming_target_msg_seq_num := max (m_incoming_target_msg_seq_num (sess w)) n \<rparr> \<rparr>)"
proof -
  let ?w' = "(received m w)\<lparr> sess := (sess w)\<lparr> m_incoming_target_msg_seq_num := max (m_incoming_target_msg_seq_num (sess w)) n \<rparr> \<rparr>"
  from assms(2) obtain type where type: "message_MsgType m = Inr type" by (auto simp: sequenced_def)
  have "sequence_number_is_high io m (received m w) = (Inr True, ?w')"
    using assms(2-4) by (auto simp: sequence_number_is_high_def sequenced_def the_session_def on_session_def whenP_def max_def)
  then have "validate_sequence_numbers io m (received m w) = (Inr False, ?w')"
    by (simp add: validate_sequence_numbers_def)
  with sequenced_dispatch[OF assms(1,2) type] show ?thesis by simp
qed


text \<open>
  An accepted message below the expected number ends the session: exactly one Logout goes out,
  whose text names both numbers, the session is disconnected, and the expected number stays.
\<close>

theorem low_number_logs_out:
  assumes io: "writer_keeps_fields io" and a: "accepted (sess w) m" and m: "sequenced m n"
    and low: "n < m_incoming_msg_seq_num (sess w)" and r: "on_message_read io m w = (Inr (), w')"
  shows "(\<exists>sigs out. emitted w' = emitted w @ sigs \<and> sent_messages sigs = [out] \<and>
      message_MsgType out = Inr Logout_MsgType \<and>
      fc_try_get Text_Tag (m_fields out) = Some (field_string Text_Tag (''MsgSeqNum too low, expecting '' @
        u32_to_string (m_incoming_msg_seq_num (sess w)) @ '' but received '' @ u32_to_string n))) \<and>
    m_state (sess w') = disconnected \<and> m_incoming_msg_seq_num (sess w') = m_incoming_msg_seq_num (sess w)"
proof -
  let ?t = "''MsgSeqNum too low, expecting '' @ u32_to_string (m_incoming_msg_seq_num (sess w)) @ '' but received '' @ u32_to_string n"
  from m obtain type where type: "message_MsgType m = Inr type" by (auto simp: sequenced_def)
  have v: "validate_sequence_numbers io m (received m w) = (Inr False, w')"
    using r low m unfolding sequenced_dispatch[OF a m type]
    by (auto simp: guardP_returns validate_sequence_numbers_True sequenced_def)
  have "\<not> m_incoming_msg_seq_num (sess w) < n" using low by simp
  with v low m have "send_logout io ?t ((received m w)\<lparr> emitted := emitted (received m w) @ [Error ?t] \<rparr>) = (Inr (), w')"
    by (auto simp: validate_sequence_numbers_def returns_simps sequence_number_is_high_def sequence_number_is_low_def
        sequenced_def the_session_def emit_def Let_def split: if_splits)
  from send_logout_effect[OF io this] obtain sigs out where
    "m_state (sess w') = disconnected" "emitted w' = emitted w @ [Message_received m, Error ?t] @ sigs" "sent_messages sigs = [out]"
    "message_MsgType out = Inr Logout_MsgType" "fc_try_get Text_Tag (m_fields out) = Some (field_string Text_Tag ?t)"
    by auto
  moreover have "m_incoming_msg_seq_num (sess w') = m_incoming_msg_seq_num (sess w)"
    using incoming_keptD[OF ik.keeps_sequence_number(3) v] by simp
  ultimately show ?thesis
    by (intro conjI exI[of _ "[Message_received m, Error ?t] @ sigs"] exI[of _ out]) auto
qed

end
