(* ===== verification/Session_Recovery.thy ===== *)
theory Session_Recovery
  imports Session_Receive
begin

text \<open>
  How a session answers its peer: heartbeats for test requests, gap fills for resend requests,
  the end of a recovery and of a logon. The last section puts two sessions together.
\<close>

section \<open>Answers\<close>

lemma admin_in_sequence:
  assumes "accepted (sess w) m" "sequenced m (m_incoming_msg_seq_num (sess w))" "message_MsgType m = Inr type"
    and "on_message_read io m w = (Inr (), w')"
  obtains v where "handle_in_sequence io m type v = (Inr (), w')"
    "sess v = (sess w)\<lparr> m_incoming_msg_seq_num := m_incoming_msg_seq_num (sess w) + 1 \<rparr>"
    "emitted v = emitted w @ [Message_received m]"
  using assms(4) unfolding in_sequence_handled[OF assms(1-3)] by (rule that) simp_all

text \<open>
  An accepted TestRequest with the expected number is answered by exactly one message, a
  Heartbeat that echoes its TestReqID.
\<close>

theorem test_request_echoed:
  assumes io: "writer_keeps_fields io" and a: "accepted (sess w) m"
    and m: "sequenced m (m_incoming_msg_seq_num (sess w))" "message_MsgType m = Inr TestRequest_MsgType"
    and f: "fc_try_get TestReqID_Tag (m_fields m) = Some f" and r: "on_message_read io m w = (Inr (), w')"
  shows "\<exists>sigs hb. emitted w' = emitted w @ sigs \<and> sent_messages sigs = [hb] \<and>
    message_MsgType hb = Inr Heartbeat_MsgType \<and>
    fc_try_get TestReqID_Tag (m_fields hb) = Some (field_string TestReqID_Tag (m_value f)) \<and>
    fc_try_get MsgSeqNum_Tag (m_fields hb) = Some (field_u32 MsgSeqNum_Tag (m_outgoing_msg_seq_num (sess w)))"
proof -
  let ?m = "make_message True [field_string 35 ''0'', field_string 112 (m_value f)]"
  from admin_in_sequence[OF a m r] f obtain v where sd: "send_standard io ?m v = (Inr (), w')"
    and v: "sess v = (sess w)\<lparr> m_incoming_msg_seq_num := m_incoming_msg_seq_num (sess w) + 1 \<rparr>"
      "emitted v = emitted w @ [Message_received m]"
    by (auto simp: handle_in_sequence_def process_test_request_def)
  have p: "plain_message ?m encode_standard" by (rule plain_built) simp_all
  from send_standard_effect[OF io p sd] obtain hb sigs where
    "emitted w' = emitted v @ sigs @ [Message_sent hb]" "sent_messages sigs = []" "sent_as ?m hb"
    "fc_try_get MsgSeqNum_Tag (m_fields hb) = Some (field_u32 MsgSeqNum_Tag (m_outgoing_msg_seq_num (sess v)))" by metis
  with v show ?thesis
    by (intro exI[of _ "[Message_received m] @ sigs @ [Message_sent hb]"] exI[of _ hb])
       (auto simp: sent_messages_append sent_as_type sent_as_get stamped_tags_def built_message_simps)
qed

definition is_gap_fill_for :: "u32 \<Rightarrow> u32 \<Rightarrow> message \<Rightarrow> bool" where
  "is_gap_fill_for a n gf \<longleftrightarrow> is_gap_fill gf \<and> message_PossDupFlag gf = Inr True \<and>
     fc_try_get MsgSeqNum_Tag (m_fields gf) = Some (field_u32 MsgSeqNum_Tag a) \<and>
     fc_try_get NewSeqNo_Tag (m_fields gf) = Some (field_u32 NewSeqNo_Tag n)"

lemma perform_resend_effect:
  assumes io: "writer_keeps_fields io" and s: "perform_resend io a b w = (Inr (), w')"
  shows "\<exists>sigs gf c. emitted w' = emitted w @ sigs \<and> sent_messages sigs = [gf] \<and>
    is_gap_fill_for a (m_outgoing_msg_seq_num (sess w)) gf \<and>
    sess w' = (sess w)\<lparr> m_state := if c then disconnected else m_state (sess w) \<rparr>"
proof -
  let ?n = "m_outgoing_msg_seq_num (sess w)"
  let ?m = "make_message True [field_string 35 ''4'', field_u32 34 a, field_bool 123 True, field_bool 43 True, field_u32 36 ?n]"
  let ?o = "encode_standard AND NOT set_msg_seq_num"
  from s obtain gf where sd: "session_send io ?m ?o w = (Inr gf, w')"
    by (auto simp: perform_resend_def send_gap_fill_def seqP_returns the_session_def)
  have gm: "is_gap_fill ?m" by (simp add: is_gap_fill_def built_message_simps)
  have p: "plain_message ?m ?o" using gm by (simp add: plain_message_def is_reset_logon_def built_message_simps)
  from send_effect[OF io p sd] obtain sigs c where
    e: "emitted w' = emitted w @ sigs @ [Message_sent gf]" "sent_messages sigs = []" "sent_as ?m gf"
    and w': "sess w' = (sess w)\<lparr> m_state := if c then disconnected else m_state (sess w),
       m_outgoing_msg_seq_num := ?n + (if is_gap_fill ?m then 0 else 1) \<rparr>"
    and num: "fc_try_get 34 (m_fields gf) = (if is_gap_fill ?m then fc_try_get 34 (m_fields ?m) else Some (field_u32 34 ?n))"
    by metis
  have "is_gap_fill_for a ?n gf"
    using e(3) num gm by (simp add: is_gap_fill_for_def is_gap_fill_def sent_as_type sent_as_get stamped_tags_def
        message_GapFillFlag_def message_PossDupFlag_def fc_get_bool_try_get fc_try_get_make_message)
  then show ?thesis using e w' gm
    by (intro exI[of _ "sigs @ [Message_sent gf]"] exI[of _ gf] exI[of _ c]) (auto simp: sent_messages_append)
qed

lemma stop_test_request_timer_effect:
  "stop_test_request_timer io w = (Inr x, w') \<Longrightarrow>
   emitted w' = emitted w \<and> sess w' = (sess w)\<lparr> m_test_request_timer_token := None \<rparr>"
  by (cases "m_test_request_timer_token (sess w)"; cases "sess w")
     (auto simp: stop_test_request_timer_def the_session_def on_session_def quiet_def seqP_returns split: prod.splits)

lemma post_logon_delayed:
  "send_post_logon_test_request io w = (Inr x, w') \<Longrightarrow> m_test_request_delay (m_options (sess w)) \<noteq> 0 \<Longrightarrow> emitted w' = emitted w"
  by (auto simp: send_post_logon_test_request_def the_session_def on_session_def quiet_def bindP_returns split: prod.splits)

lemma emitted_extends: "keeps (\<lambda>_. state_history) f \<Longrightarrow> f w = (r, w') \<Longrightarrow> \<exists>sigs. emitted w' = emitted w @ sigs"
  by (drule (1) keepsD) (auto simp: state_history_def)

text \<open>
  C26: an accepted ResendRequest with the expected number is answered at once: the first message
  that goes out is a gap fill from the requested BeginSeqNo to the number the next message will
  have, marked as a possible duplicate; with a test request delay it is the only one.
\<close>

theorem resend_request_answered:
  assumes io: "writer_keeps_fields io" and a: "accepted (sess w) m"
    and m: "sequenced m (m_incoming_msg_seq_num (sess w))" "message_MsgType m = Inr ResendRequest_MsgType"
    and f: "fc_try_get BeginSeqNo_Tag (m_fields m) = Some f" "stoi_u32 (m_value f) = Inr b"
      "fc_try_get EndSeqNo_Tag (m_fields m) = Some g"
    and r: "on_message_read io m w = (Inr (), w')"
  shows "\<exists>sigs gf rest. emitted w' = emitted w @ sigs \<and> sent_messages sigs = gf # rest \<and>
    is_gap_fill_for b (m_outgoing_msg_seq_num (sess w)) gf \<and>
    (m_test_request_delay (m_options (sess w)) \<noteq> 0 \<longrightarrow> rest = [])"
proof -
  from admin_in_sequence[OF a m r] obtain v where h: "process_resend_request io m v = (Inr (), w')"
    and v: "sess v = (sess w)\<lparr> m_incoming_msg_seq_num := m_incoming_msg_seq_num (sess w) + 1 \<rparr>"
      "emitted v = emitted w @ [Message_received m]"
    by (auto simp: handle_in_sequence_def)
  from h f obtain v1 v2 v3 t z where st: "stop_test_request_timer io v = (Inr (), v1)"
    and e2: "v2 = v1\<lparr> emitted := emitted v1 @ [Information t] \<rparr>"
    and pr: "perform_resend io b z v2 = (Inr (), v3)" and po: "send_post_logon_test_request io v3 = (Inr (), w')"
    by (auto simp: process_resend_request_def Let_def returns_simps emit_def)
  note s1 = stop_test_request_timer_effect[OF st]
  from perform_resend_effect[OF io pr] obtain sigs gf c where
    g: "emitted v3 = emitted v2 @ sigs" "sent_messages sigs = [gf]" "is_gap_fill_for b (m_outgoing_msg_seq_num (sess v2)) gf"
    and v3: "sess v3 = (sess v2)\<lparr> m_state := if c then disconnected else m_state (sess v2) \<rparr>" by blast
  from emitted_extends[OF sh.se.keeps_sends(3) po] obtain more where more: "emitted w' = emitted v3 @ more" by blast
  have "m_test_request_delay (m_options (sess w)) \<noteq> 0 \<Longrightarrow> more = []"
    using post_logon_delayed[OF po] more v3 e2 s1 v by simp
  moreover have "is_gap_fill_for b (m_outgoing_msg_seq_num (sess w)) gf" using g(3) e2 s1 v by simp
  ultimately show ?thesis
    using v s1 e2 g more
    by (intro exI[of _ "[Message_received m, Information t] @ sigs @ more"] exI[of _ gf] exI[of _ "sent_messages more"])
       (auto simp: sent_messages_append)
qed

section \<open>The end of a recovery and of a logon\<close>

lemma stop_defibrillator_effect:
  "stop_defibrillator io w = (Inr x, w') \<Longrightarrow>
   emitted w' = emitted w \<and> sess w' = (sess w)\<lparr> m_heartbeat_timer_token := None \<rparr>"
  by (cases "m_heartbeat_timer_token (sess w)"; cases "sess w")
     (auto simp: stop_defibrillator_def the_session_def on_session_def quiet_def seqP_returns split: prod.splits)

lemma start_defibrillator_effect:
  assumes "start_defibrillator io w = (Inr x, w')"
  shows "emitted w' = emitted w \<and> (\<exists>token. sess w' = (sess w)\<lparr> m_heartbeat_timer_token := token \<rparr> \<and>
     (token = None \<longleftrightarrow> m_heartbeat_interval (m_options (sess w)) = 0))"
proof -
  from assms obtain v where v: "stop_defibrillator io w = (Inr (), v)" by (auto simp: start_defibrillator_def seqP_returns)
  with assms show ?thesis using stop_defibrillator_effect[OF v]
    by (cases "m_heartbeat_interval (m_options (sess w)) = 0")
       (auto simp: start_defibrillator_def the_session_def on_session_def quiet_def bindP_returns split: prod.splits)
qed

lemma send_test_request_effect:
  assumes io: "writer_keeps_fields io" and s: "send_test_request io w = (Inr (), w')"
  shows "\<exists>sigs tr c. emitted w' = emitted w @ sigs \<and> sent_messages sigs = [tr] \<and>
    message_MsgType tr = Inr TestRequest_MsgType \<and>
    fc_try_get TestReqID_Tag (m_fields tr) = Some (field_u32 TestReqID_Tag (m_next_test_request_id (sess w))) \<and>
    sess w' = (sess w)\<lparr> m_next_test_request_id := m_next_test_request_id (sess w) + 1,
      m_expected_test_request_id := Some (m_next_test_request_id (sess w)),
      m_state := if c then disconnected else m_state (sess w),
      m_outgoing_msg_seq_num := m_outgoing_msg_seq_num (sess w) + 1 \<rparr>"
proof -
  let ?n = "m_next_test_request_id (sess w)"
  let ?m = "make_message True [field_string 35 ''1'', field_u32 112 ?n]"
  from s obtain v where sd: "send_standard io ?m v = (Inr (), w')" and ve: "emitted v = emitted w"
    and v: "sess v = (sess w)\<lparr> m_next_test_request_id := ?n + 1, m_expected_test_request_id := Some ?n \<rparr>"
    by (auto simp: send_test_request_def allocate_test_request_id_def the_session_def on_session_def returns_simps)
  have p: "plain_message ?m encode_standard" by (rule plain_built) simp_all
  from send_standard_effect[OF io p sd] obtain tr sigs c where
    e: "emitted w' = emitted v @ sigs @ [Message_sent tr]" "sent_messages sigs = []" "sent_as ?m tr"
    and w': "sess w' = (sess v)\<lparr> m_state := if c then disconnected else m_state (sess v),
       m_outgoing_msg_seq_num := m_outgoing_msg_seq_num (sess v) + 1 \<rparr>" by metis
  show ?thesis using e w' v ve
    by (intro exI[of _ "sigs @ [Message_sent tr]"] exI[of _ tr] exI[of _ c])
       (auto simp: sent_messages_append sent_as_type sent_as_get stamped_tags_def built_message_simps)
qed

text \<open>
  During a recovery, an accepted gap fill that starts at the expected number moves the expected
  number to its NewSeqNo. If that reaches the number the recovery is after, exactly one TestRequest
  goes out, with a fresh id that the session then waits for; otherwise nothing is sent and the
  session stays resending.
\<close>

theorem gap_fill_advances_recovery:
  assumes io: "writer_keeps_fields io" and a: "accepted (sess w) m" and gf: "is_gap_fill m" "message_PossDupFlag m = Inr p"
    and num: "message_MsgSeqNum m = Inr (m_incoming_msg_seq_num (sess w))"
    and f: "fc_try_get NewSeqNo_Tag (m_fields m) = Some f" "stoi_u32 (m_value f) = Inr k" "m_incoming_msg_seq_num (sess w) < k"
    and st: "m_state (sess w) = resending" "\<not> m_use_next_expected_msg_seq_num (m_options (sess w))"
    and r: "on_message_read io m w = (Inr (), w')"
  shows "m_incoming_msg_seq_num (sess w') = k \<and>
    (\<exists>sigs. emitted w' = emitted w @ sigs \<and>
      (if m_incoming_target_msg_seq_num (sess w) \<le> k
       then \<exists>tr. sent_messages sigs = [tr] \<and> message_MsgType tr = Inr TestRequest_MsgType \<and>
         fc_try_get TestReqID_Tag (m_fields tr) = Some (field_u32 TestReqID_Tag (m_next_test_request_id (sess w))) \<and>
         m_expected_test_request_id (sess w') = Some (m_next_test_request_id (sess w))
       else sent_messages sigs = [] \<and> m_state (sess w') = resending))"
proof -
  let ?v = "received m w"
  have nle: "\<not> k \<le> m_incoming_msg_seq_num (sess w)" using f(3) by (simp only: not_le)
  have "validate_sequence_numbers io m ?v = (Inr True, ?v)" using num by (simp add: validate_sequence_numbers_True)
  moreover have "process_gap_fill io m k ?v = (Inr (), w')"
    using r f(1,2) gf nle by (simp add: accepted_dispatch[OF a] dispatch_message_def is_gap_fill_def process_sequence_reset_def
        try_catch_def the_session_def)
  ultimately obtain v t where fin: "finish_resend io v = (Inr (), w')"
    and v: "sess v = (sess w)\<lparr> m_incoming_resent_msg_seq_num := k, m_incoming_msg_seq_num := k \<rparr>"
      "emitted v = emitted w @ [Message_received m, Information t]"
    using st by (auto simp: process_gap_fill_def Let_def the_session_def on_session_def set_incoming_msg_seq_num_def emit_def)
  show ?thesis
  proof (cases "m_incoming_target_msg_seq_num (sess w) \<le> k")
    case True
    with fin st v obtain x y where "send_test_request io x = (Inr (), y)" and d: "start_defibrillator io y = (Inr (), w')"
      and x: "sess x = sess v" "emitted x = emitted v @ [Information ''Resend complete'']"
      by (auto simp: finish_resend_def the_session_def emit_def seqP_returns)
    from send_test_request_effect[OF io this(1)] obtain sigs tr where
      "emitted y = emitted x @ sigs" "sent_messages sigs = [tr]" "message_MsgType tr = Inr TestRequest_MsgType"
      "fc_try_get TestReqID_Tag (m_fields tr) = Some (field_u32 TestReqID_Tag (m_next_test_request_id (sess w)))"
      "m_expected_test_request_id (sess y) = Some (m_next_test_request_id (sess w))" "m_incoming_msg_seq_num (sess y) = k"
      using x v by auto
    with start_defibrillator_effect[OF d] x v True show ?thesis
      by (intro conjI exI[of _ "[Message_received m, Information t, Information ''Resend complete''] @ sigs"])
         (auto simp: sent_messages_append)
  next
    case False
    with fin st v have "w' = v" by (simp add: finish_resend_def the_session_def)
    with v False st show ?thesis by simp
  qed
qed

text \<open>
  While the session is logging on, resetting or resending, an accepted Heartbeat with the
  expected number and the awaited TestReqID completes the logon: the session is logged on, nothing
  is sent, and heartbeats are scheduled unless the interval is zero.
\<close>

theorem heartbeat_completes_logon:
  assumes a: "accepted (sess w) m" and m: "sequenced m (m_incoming_msg_seq_num (sess w))" "message_MsgType m = Inr Heartbeat_MsgType"
    and f: "fc_try_get TestReqID_Tag (m_fields m) = Some f"
      "map_option u32_to_string (m_expected_test_request_id (sess w)) = Some (m_value f)"
    and st: "m_state (sess w) \<in> {logging_on, resetting, resending}" and r: "on_message_read io m w = (Inr (), w')"
  shows "emitted w' = emitted w @ [Message_received m, State_changed (m_state (sess w)) logged_on] \<and>
    m_state (sess w') = logged_on \<and> m_incoming_msg_seq_num (sess w') = m_incoming_msg_seq_num (sess w) + 1 \<and>
    (m_heartbeat_timer_token (sess w') = None \<longleftrightarrow> m_heartbeat_interval (m_options (sess w)) = 0)"
proof -
  from admin_in_sequence[OF a m r] obtain v where h: "process_heartbeat io m v = (Inr (), w')"
    and v: "sess v = (sess w)\<lparr> m_incoming_msg_seq_num := m_incoming_msg_seq_num (sess w) + 1 \<rparr>"
      "emitted v = emitted w @ [Message_received m]"
    by (auto simp: handle_in_sequence_def)
  from f(2) obtain e where "m_expected_test_request_id (sess w) = Some e" "u32_to_string e = m_value f" by auto
  with h f(1) st v obtain y where d: "start_defibrillator io y = (Inr (), w')"
    and y: "sess y = (sess v)\<lparr> m_state := logged_on \<rparr>"
      "emitted y = emitted v @ [State_changed (m_state (sess w)) logged_on]"
    by (auto simp: process_heartbeat_def the_session_def seqP_returns set_state_apply)
  from start_defibrillator_effect[OF d] y v show ?thesis by auto
qed

section \<open>Where the session does not do what it should\<close>

text \<open>
  A SequenceReset in reset mode (no gap fill) is acknowledged but has no effect on the expected
  number: the peer goes on from NewSeqNo while the session still waits for the old number.
\<close>

theorem sequence_reset_leaves_incoming_number:
  assumes "accepted (sess w) m" "message_MsgType m = Inr SequenceReset_MsgType" "message_GapFillFlag m = Inr False"
    and "on_message_read io m w = (Inr (), w')"
  shows "m_incoming_msg_seq_num (sess w') = m_incoming_msg_seq_num (sess w)"
proof -
  from assms(2,4) obtain d where "process_sequence_reset io m d (received m w) = (Inr (), w')"
    by (auto simp: accepted_dispatch[OF assms(1)] dispatch_message_def bindP_returns)
  from process_sequence_reset_incoming[OF this] assms(3) show ?thesis by auto
qed

text \<open>
  A ResendRequest whose BeginSeqNo is not a number makes \<open>on_message_read\<close> throw into the
  reader's loop instead of rejecting the message, as every other numeric field does.
\<close>

theorem bad_begin_seq_no_throws:
  assumes a: "accepted (sess w) m" and m: "sequenced m (m_incoming_msg_seq_num (sess w))" "message_MsgType m = Inr ResendRequest_MsgType"
    and f: "fc_try_get BeginSeqNo_Tag (m_fields m) = Some f" "stoi (m_value f) = Inl e"
      "fc_try_get EndSeqNo_Tag (m_fields m) \<noteq> None" and t: "m_test_request_timer_token (sess w) = None"
  shows "fst (on_message_read io m w) = Inl e"
  using f t by (auto simp: in_sequence_handled[OF a m] handle_in_sequence_def process_resend_request_def
      stop_test_request_timer_def the_session_def stoi_u32_def)

text \<open>
  The timer that delays the first TestRequest is not stopped when the session closes: when it
  fires on a disconnected session, a TestRequest is still sent and takes a sequence number.
\<close>

theorem test_request_sent_after_close:
  assumes "writer_keeps_fields io" "m_state (sess w) = disconnected"
    and "run_callback io Post_logon_test_request w = (Inr (), w')"
  shows "(\<exists>sigs tr. emitted w' = emitted w @ sigs \<and> sent_messages sigs = [tr] \<and>
      message_MsgType tr = Inr TestRequest_MsgType) \<and>
    m_outgoing_msg_seq_num (sess w') = m_outgoing_msg_seq_num (sess w) + 1"
proof -
  let ?v = "w\<lparr> sess := (sess w)\<lparr> m_test_request_timer_token := None \<rparr> \<rparr>"
  from assms(3) have "send_test_request io ?v = (Inr (), w')" by (simp add: on_session_def)
  from send_test_request_effect[OF assms(1) this] show ?thesis by auto
qed

end
