(* ===== verification/Session_Progress.thy ===== *)
theory Session_Progress
  imports Session_Recovery
begin

text \<open>
  When the session's methods return. Exceptions can come from the links and from messages whose
  fields do not parse; with links that do not throw, every method returns, and so does
  \<open>on_message_read\<close> for every well-formed message.
\<close>

section \<open>Returning\<close>

definition obliging :: "'e links \<Rightarrow> bool" where
  "obliging io \<longleftrightarrow> (\<forall>e. returned (fst (reader_open io e)) \<and> returned (fst (reader_close io e)) \<and>
     returned (fst (writer_close io e)) \<and> (\<forall>m options. returned (fst (writer_write io m options e))) \<and>
     (\<forall>n cb. returned (fst (schedule_relative_callback io n cb e)) \<and> returned (fst (schedule_repeating_callback io n cb e))) \<and>
     (\<forall>token. returned (fst (cancel_callback io token e)))) \<and>
     returned (is_field_defined (m_orchestration io) (word_of_int SessionRejectReason_Tag))"

definition runs :: "('s, 'a) proc \<Rightarrow> bool" where
  "runs m \<longleftrightarrow> (\<forall>s. returned (fst (m s)))"

lemma returned_iff: "returned r \<longleftrightarrow> (\<exists>x. r = Inr x)"
  by (cases r) auto

lemma runsD: "runs m \<Longrightarrow> \<exists>x s'. m s = (Inr x, s')"
  by (metis prod.collapse returned_iff runs_def)

lemma runs_basic:
  "runs (returnP x)" "runs (getP f)" "runs (modifyP f)" "runs (liftP (Inr y))" "runs (the_session g)" "runs (on_session h)"
  "runs (emit sig)" "runs (set_state st)" "runs (set_incoming_msg_seq_num n)" "runs (set_outgoing_msg_seq_num n)"
  "runs (set_heartbeat_interval n)"
  by (simp_all add: runs_def the_session_def on_session_def emit_def set_state_apply set_incoming_msg_seq_num_def
      set_outgoing_msg_seq_num_def set_heartbeat_interval_def on_options_def)

lemma runs_lift: "returned r \<Longrightarrow> runs (liftP r)"
  by (simp add: runs_def)

lemma bindP_lift_Inr: "bindP (liftP (Inr x)) f = f x"
  by (rule ext) simp

lemma runs_bind: "runs m \<Longrightarrow> (\<And>x. runs (f x)) \<Longrightarrow> runs (bindP m f)"
  unfolding runs_def bindP_def by (auto split: prod.splits sum.splits) (metis fst_conv returned.simps(1))

lemma runs_seq: "runs m \<Longrightarrow> runs n \<Longrightarrow> runs (seqP m n)"
  unfolding seqP_def by (rule runs_bind)

lemma runs_guard: "runs c \<Longrightarrow> runs m \<Longrightarrow> runs (guardP c d m)"
  unfolding guardP_def by (rule runs_bind) (simp_all add: runs_basic)

lemma runs_when: "(b \<Longrightarrow> runs m) \<Longrightarrow> runs (whenP b m)"
  by (cases b) (simp_all add: runs_basic)

lemma runs_if: "(b \<Longrightarrow> runs m) \<Longrightarrow> (\<not> b \<Longrightarrow> runs n) \<Longrightarrow> runs (if b then m else n)"
  by simp

lemma runs_option:
  "(x = None \<Longrightarrow> runs m) \<Longrightarrow> (\<And>y. x = Some y \<Longrightarrow> runs (f y)) \<Longrightarrow> runs (case x of None \<Rightarrow> m | Some y \<Rightarrow> f y)"
  by (cases x) auto

lemma runs_try_catch: "(\<And>x. runs (f x)) \<Longrightarrow> runs g \<Longrightarrow> runs (try_catch r f g)"
  by (cases r) (simp_all add: try_catch_def)

lemma runs_external: "(\<And>e. returned (fst (c e))) \<Longrightarrow> runs (external c)"
  by (simp add: runs_def external_apply split: prod.splits) (metis fst_conv)

lemma runs_quiet: "(\<And>e. returned (fst (c e))) \<Longrightarrow> runs (quiet c)"
  by (simp add: runs_def quiet_def split: prod.splits) (metis fst_conv)

lemma runs_allocate: "runs allocate_test_request_id" "runs allocate_outgoing_msg_seq_num"
  unfolding allocate_test_request_id_def allocate_outgoing_msg_seq_num_def by (intro runs_bind runs_seq runs_basic)+

lemmas runs_intros = runs_basic runs_bind runs_seq runs_guard runs_when runs_if runs_option runs_try_catch runs_allocate

section \<open>The methods\<close>

lemma runs_links:
  assumes "obliging io"
  shows "runs (external (reader_open io))" "runs (external (reader_close io))" "runs (external (writer_close io))"
    "runs (external (writer_write io m options))" "runs (quiet (schedule_relative_callback io n cb))"
    "runs (quiet (schedule_repeating_callback io n cb))" "runs (quiet (cancel_callback io token))"
    "runs (quiet (\<lambda>e. case system_clock_now io e of (t, e') \<Rightarrow> (Inr t, e')))"
    "runs (liftP (is_field_defined (m_orchestration io) (word_of_int SessionRejectReason_Tag)))"
  using assms by (auto simp: obliging_def intro!: runs_external runs_quiet runs_lift split: prod.splits)

definition sendable :: "message \<Rightarrow> bool" where
  "sendable m \<longleftrightarrow> returned (message_MsgType m) \<and> returned (message_ResetSeqNumFlag m)"

lemma runs_session_send: "obliging io \<Longrightarrow> sendable m \<Longrightarrow> runs (session_send io m options)"
  unfolding session_send_def sendable_def by (intro runs_intros runs_links runs_lift) simp_all

lemma runs_send_standard: "obliging io \<Longrightarrow> sendable m \<Longrightarrow> runs (send_standard io m)"
  unfolding send_standard_def by (intro runs_intros runs_session_send)

lemma sendable_built:
  assumes "ResetSeqNumFlag_Tag \<notin> set (tags fs)"
  shows "sendable (make_message True (field_string MsgType_Tag type # fs))"
proof -
  have "List.find (has_tag ResetSeqNumFlag_Tag) (rev fs) = None"
    using assms fc_try_get_None_iff[of ResetSeqNumFlag_Tag "rev fs"] by (simp add: fc_try_get_def)
  then show ?thesis by (simp add: sendable_def built_message_simps find_append split: option.splits)
qed

lemma sendable_set:
  "sendable m \<Longrightarrow> t \<noteq> MsgType_Tag \<Longrightarrow> t \<noteq> ResetSeqNumFlag_Tag \<or> v = ''Y'' \<Longrightarrow>
   sendable (m\<lparr> m_fields := snd (fc_set_string t v Replace_first_or_append (m_fields m)) \<rparr>)"
  by (auto simp: sendable_def built_message_simps fc_set_string_def)

lemma runs_send_built:
  "obliging io \<Longrightarrow> ResetSeqNumFlag_Tag \<notin> set (tags fs) \<Longrightarrow>
   runs (send_standard io (make_message True (field_string MsgType_Tag type # fs)))"
  by (intro runs_send_standard sendable_built)

lemma runs_close_and_timers:
  assumes "obliging io"
  shows "runs (session_close io)" "runs (stop_defibrillator io)" "runs (start_defibrillator io)" "runs (stop_test_request_timer io)"
  unfolding session_close_def stop_defibrillator_def start_defibrillator_def stop_test_request_timer_def
  by (intro runs_intros runs_links assms)+

lemma runs_sends:
  assumes "obliging io"
  shows "runs (defibrillate io)" "runs (send_test_request io)" "runs (send_post_logon_test_request io)" "runs (send_logout io t)"
  unfolding defibrillate_def send_test_request_def send_post_logon_test_request_def send_logout_def
  by (intro runs_intros runs_links runs_send_built runs_close_and_timers assms; simp)+

lemma runs_send_logon: "obliging io \<Longrightarrow> runs (send_logon io b)"
  unfolding send_logon_def Let_def fc_set_bool_def fc_set_u32_def
  by (rule runs_bind, rule runs_basic, rule runs_send_standard)
     (auto simp: sendable_def built_message_simps fc_set_string_def)

lemma runs_send_reject: "obliging io \<Longrightarrow> returned (message_MsgSeqNum m) \<Longrightarrow> runs (send_reject io m t reason)"
  unfolding send_reject_def Let_def
  by (intro runs_intros runs_links runs_lift runs_send_standard) (auto intro!: sendable_set sendable_built)

lemma runs_resend: "obliging io \<Longrightarrow> runs (perform_resend io a b)"
  unfolding perform_resend_def send_gap_fill_def
  by (intro runs_intros runs_session_send sendable_built) simp_all

lemmas runs_calls = runs_intros runs_links runs_send_built runs_close_and_timers runs_sends runs_send_logon runs_send_reject
  runs_resend

section \<open>Messages\<close>

text \<open>
  A decoded message with a type, a readable number and readable flags; the numbers of a
  ResendRequest are readable too.
\<close>

definition well_formed :: "message \<Rightarrow> bool" where
  "well_formed m \<longleftrightarrow> returned (message_MsgType m) \<and> returned (message_MsgSeqNum m) \<and> returned (message_PossDupFlag m) \<and>
     returned (message_GapFillFlag m) \<and> returned (message_ResetSeqNumFlag m) \<and>
     (\<exists>n. calculate_decode_checksum m = Inr n \<and> n \<le> 999) \<and>
     (message_MsgType m = Inr ResendRequest_MsgType \<longrightarrow>
       (\<forall>t f. t \<in> {BeginSeqNo_Tag, EndSeqNo_Tag} \<longrightarrow> fc_try_get t (m_fields m) = Some f \<longrightarrow> returned (stoi_u32 (m_value f))))"

lemma well_formed_code [code]:
  "well_formed m \<longleftrightarrow> returned (message_MsgType m) \<and> returned (message_MsgSeqNum m) \<and> returned (message_PossDupFlag m) \<and>
     returned (message_GapFillFlag m) \<and> returned (message_ResetSeqNumFlag m) \<and>
     (case calculate_decode_checksum m of Inl _ \<Rightarrow> False | Inr n \<Rightarrow> n \<le> 999) \<and>
     (message_MsgType m = Inr ResendRequest_MsgType \<longrightarrow>
       list_all (\<lambda>t. case fc_try_get t (m_fields m) of None \<Rightarrow> True | Some f \<Rightarrow> returned (stoi_u32 (m_value f)))
         [BeginSeqNo_Tag, EndSeqNo_Tag])"
  by (auto simp: well_formed_def split: sum.splits option.splits)

lemma sequenced_code [code]:
  "sequenced m n \<longleftrightarrow>
     (case message_MsgType m of Inl _ \<Rightarrow> False | Inr type \<Rightarrow> type \<noteq> Logon_MsgType \<and> type \<noteq> SequenceReset_MsgType) \<and>
     message_PossDupFlag m = Inr False \<and> message_MsgSeqNum m = Inr n"
  by (auto simp: sequenced_def split: sum.splits)

lemma runs_validate:
  assumes ob: "obliging io" and m: "well_formed m"
  shows "runs (validate_checksum io m)" "runs (validate_body_length io m)" "runs (validate_begin_string io m)"
    "runs (validate_comp_ids io m)" "runs (validate_first_message io m)" "runs (validate_sequence_numbers io m)"
    "runs (sequence_number_is_high io m)" "runs (sequence_number_is_low io m)"
proof -
  have r: "returned (message_MsgType m)" "returned (message_MsgSeqNum m)" using m by (simp_all add: well_formed_def)
  obtain n where n: "calculate_decode_checksum m = Inr n" "n \<le> 999" using m by (auto simp: well_formed_def)
  then have f: "returned (format_checksum n)" by (simp add: format_checksum_def not_less)
  have rc: "runs (reject_and_close io m t reason)" for t reason
    unfolding reject_and_close_def by (intro runs_calls ob r)
  show "runs (validate_checksum io m)"
    unfolding validate_checksum_def n(1) bindP_lift_Inr by (intro runs_calls rc runs_lift f)
  show "runs (validate_body_length io m)" "runs (validate_begin_string io m)" "runs (validate_comp_ids io m)"
    unfolding validate_body_length_def validate_begin_string_def validate_comp_ids_def Let_def by (intro runs_calls rc)+
  show "runs (validate_first_message io m)"
    unfolding validate_first_message_def Let_def by (intro runs_calls runs_lift ob r)
  show hi: "runs (sequence_number_is_high io m)"
    unfolding sequence_number_is_high_def request_resend_def by (intro runs_calls runs_lift ob r; simp)
  show lo: "runs (sequence_number_is_low io m)"
    unfolding sequence_number_is_low_def Let_def by (intro runs_calls runs_lift ob r)
  show "runs (validate_sequence_numbers io m)"
    unfolding validate_sequence_numbers_def by (intro runs_calls hi lo)
qed

lemma runs_process_logon:
  assumes ob: "obliging io" and m: "well_formed m"
  shows "runs (process_logon io m)"
proof -
  have r: "returned (message_MsgSeqNum m)" "returned (message_ResetSeqNumFlag m)" using m by (simp_all add: well_formed_def)
  have ex: "runs (extract_heartbeat_interval io m)"
    unfolding extract_heartbeat_interval_def Let_def by (intro runs_calls ob r)
  have nx: "runs (process_logon_next_expected io m)"
    unfolding process_logon_next_expected_def Let_def by (intro runs_calls ob)
  show ?thesis
    unfolding process_logon_def session_reset_def
    by (intro runs_calls runs_lift runs_validate m ob r ex nx)
qed

lemma runs_process:
  assumes ob: "obliging io" and m: "well_formed m"
  shows "runs (process_logout io m)" "runs (process_test_request io m)" "runs (process_heartbeat io m)"
    "runs (process_sequence_reset io m d)" "message_MsgType m = Inr ResendRequest_MsgType \<Longrightarrow> runs (process_resend_request io m)"
proof -
  have r: "returned (message_MsgSeqNum m)" "returned (message_GapFillFlag m)" using m by (simp_all add: well_formed_def)
  have rr: "runs (report_and_reject io m t reason)" for t reason
    unfolding report_and_reject_def by (intro runs_calls ob r)
  have fr: "runs (finish_resend io)"
    unfolding finish_resend_def by (intro runs_calls ob)
  have gf: "runs (process_gap_fill io m k)" for k
    unfolding process_gap_fill_def Let_def by (intro runs_calls runs_validate rr fr ob m)
  show "runs (process_logout io m)" "runs (process_test_request io m)" "runs (process_heartbeat io m)"
    unfolding process_logout_def process_test_request_def process_heartbeat_def Let_def
    by (intro runs_calls ob r; simp)+
  show "runs (process_sequence_reset io m d)"
    unfolding process_sequence_reset_def by (intro runs_calls runs_lift rr fr gf ob r)
  assume "message_MsgType m = Inr ResendRequest_MsgType"
  with m have n: "fc_try_get t (m_fields m) = Some f \<Longrightarrow> returned (stoi_u32 (m_value f))" if "t \<in> {BeginSeqNo_Tag, EndSeqNo_Tag}" for t f
    using that by (auto simp: well_formed_def)
  show "runs (process_resend_request io m)"
    unfolding process_resend_request_def Let_def
    by (intro runs_calls runs_lift rr ob) (auto intro: n)
qed

lemma on_message_read_returns:
  assumes ob: "obliging io" and m: "well_formed m"
  shows "\<exists>w'. on_message_read io m w = (Inr (), w')"
proof -
  obtain type where type: "message_MsgType m = Inr type" using m by (auto simp: well_formed_def returned_iff)
  have r: "returned (message_PossDupFlag m)" "returned (message_MsgSeqNum m)" using m by (simp_all add: well_formed_def)
  have adm: "returned (message_is_admin m)" by (simp add: message_is_admin_def type)
  have "runs (on_message_read io m)"
    unfolding on_message_read_def type bindP_lift_Inr
    by (intro runs_intros runs_lift runs_validate runs_process_logon runs_process ob m r adm) (simp add: type)
  from runsD[OF this] show ?thesis by simp
qed

text \<open>
  C27: with links that do not throw, \<open>on_message_read\<close> returns for every well-formed message in every
  state of the session: no branch of the session layer itself throws.
\<close>

theorem well_formed_messages_are_handled:
  assumes "obliging io" "well_formed m"
  shows "\<exists>w'. on_message_read io m w = (Inr (), w')"
  using assms by (rule on_message_read_returns)

end
