(* ===== verification/Socket_Writer.thy ===== *)
theory Socket_Writer
  imports Message_Encoding
begin

text \<open>
  \<open>libcrocofix/socket_writer.cppm\<close>, \<open>socket_writer.cpp\<close>: two buffers of 8192 bytes, one that collects
  encoded messages and one that the socket is writing. A buffer is modelled by the bytes up to
  its offset; \<open>m_socket\<close> is what the socket does with them: the bytes of completed writes in
  order, and whether it is open. A completion of an asynchronous write is a step of its own; the
  wait above the high water mark runs the completions that are due and no other handler.
\<close>

section \<open>State and operations\<close>

record socket =
  sock_open :: bool
  sock_sent :: string

record socket_writer =
  m_socket :: socket
  m_pending_buffer :: string
  m_active_buffer :: string

definition buffer_size :: nat where "buffer_size = 8192"
definition buffer_high_water_mark :: nat where "buffer_high_water_mark = 7500"

definition make_socket_writer :: "socket \<Rightarrow> socket_writer" where
  "make_socket_writer s = \<lparr> m_socket = s, m_pending_buffer = [], m_active_buffer = [] \<rparr>"

definition socket_close :: "socket \<Rightarrow> socket" where
  "socket_close s = s\<lparr> sock_open := False \<rparr>"

definition socket_writer_close :: "socket_writer \<Rightarrow> socket_writer" where
  "socket_writer_close sw = sw\<lparr> m_socket := socket_close (m_socket sw) \<rparr>"

definition flush_pending_writes :: "socket_writer \<Rightarrow> socket_writer" where
  "flush_pending_writes sw =
     (if m_active_buffer sw \<noteq> [] then sw
      else sw\<lparr> m_active_buffer := m_pending_buffer sw, m_pending_buffer := m_active_buffer sw \<rparr>)"

text \<open>The completion handler of the write in progress.\<close>

definition on_write_complete :: "(socket_writer, unit) proc" where
  "on_write_complete = (\<lambda>sw.
     (if \<not> sock_open (m_socket sw) then (Inl (Runtime_error ''Bad file descriptor''), sw)
      else (let sw' = sw\<lparr> m_socket := (m_socket sw)\<lparr> sock_sent := sock_sent (m_socket sw) @ m_active_buffer sw \<rparr>,
                          m_active_buffer := [] \<rparr>
            in (Inr (), if m_pending_buffer sw' \<noteq> [] then flush_pending_writes sw' else sw'))))"

text \<open>\<open>write\<close> up to the wait: the message is in the pending buffer before anything else can run.\<close>

definition enqueue_message :: "message \<Rightarrow> int \<Rightarrow> (socket_writer, message) proc" where
  "enqueue_message m options = (\<lambda>sw.
     (if length (m_pending_buffer sw) \<ge> buffer_size then (Inl (Out_of_range ''array::at''), sw)
      else case message_encode (buffer_size - length (m_pending_buffer sw)) options m of
        (Inl e, m') \<Rightarrow> (Inl e, sw)
      | (Inr (encoded_size, out), m') \<Rightarrow>
          (if encoded_size = 0 then (Inl (Runtime_error ''failed to encode message''), sw)
           else (Inr m', flush_pending_writes (sw\<lparr> m_pending_buffer := m_pending_buffer sw @ out \<rparr>)))))"

text \<open>\<open>while (m_active_buffer->offset > 0) io_context.run_one();\<close>\<close>

function run_until_written :: "(socket_writer, unit) proc" where
  "run_until_written sw =
     (if m_active_buffer sw = [] then (Inr (), sw)
      else case on_write_complete sw of
             (Inl e, sw') \<Rightarrow> (Inl e, sw')
           | (Inr _, sw') \<Rightarrow> run_until_written sw')"
  by pat_completeness auto
termination
  by (relation "measure (\<lambda>sw. (if m_active_buffer sw = [] then 0 else 1) + (if m_pending_buffer sw = [] then 0 else 1))")
     (auto simp: on_write_complete_def flush_pending_writes_def Let_def split: if_splits)

declare run_until_written.simps [simp del]

definition socket_writer_write :: "message \<Rightarrow> int \<Rightarrow> (socket_writer, message) proc" where
  "socket_writer_write m options =
     bindP (enqueue_message m options) (\<lambda>m'.
     bindP (getP (\<lambda>sw. length (m_pending_buffer sw) > buffer_high_water_mark)) (\<lambda>high.
       seqP (whenP high run_until_written) (returnP m')))"

section \<open>Order on the wire\<close>

text \<open>All bytes the writer has taken and not lost: written, being written, waiting.\<close>

definition taken :: "socket_writer \<Rightarrow> string" where
  "taken sw = sock_sent (m_socket sw) @ m_active_buffer sw @ m_pending_buffer sw"

lemma taken_flush: "taken (flush_pending_writes sw) = taken sw"
  by (simp add: taken_def flush_pending_writes_def)

lemma taken_complete: "on_write_complete sw = (r, sw') \<Longrightarrow> taken sw' = taken sw"
  by (auto simp: on_write_complete_def taken_def flush_pending_writes_def Let_def split: if_splits)

lemma taken_run_until_written: "run_until_written sw = (r, sw') \<Longrightarrow> taken sw' = taken sw"
proof (induction sw arbitrary: r sw' rule: run_until_written.induct)
  case (1 sw)
  show ?case
  proof (cases "m_active_buffer sw = []")
    case True
    with 1(2) show ?thesis by (simp add: run_until_written.simps)
  next
    case False
    obtain x v where x: "on_write_complete sw = (x, v)" by fastforce
    with 1(2) False have "x = Inr () \<Longrightarrow> run_until_written v = (r, sw')" "x \<noteq> Inr () \<Longrightarrow> sw' = v"
      by (auto simp: run_until_written.simps[of sw] split: sum.splits)
    then show ?thesis using 1(1)[OF False x[symmetric]] taken_complete[OF x] by (cases x) auto
  qed
qed

lemma taken_enqueue:
  "enqueue_message m options sw = (r, sw') \<Longrightarrow>
   taken sw' = taken sw @ (case r of Inl _ \<Rightarrow> [] | Inr _ \<Rightarrow>
     (case fst (message_encode (buffer_size - length (m_pending_buffer sw)) options m) of Inl _ \<Rightarrow> [] | Inr (_, out) \<Rightarrow> out))"
  by (auto simp: enqueue_message_def taken_flush split: if_splits prod.splits sum.splits) (simp_all add: taken_def)

text \<open>
  The runs of a writer: a message is written, a write completes, the socket is closed. The list
  holds the texts of the messages that were accepted, in the order of the calls.
\<close>

inductive writer_run :: "socket_writer \<Rightarrow> string list \<Rightarrow> socket_writer \<Rightarrow> bool" where
  writer_start: "writer_run sw [] sw"
| writer_wrote: "writer_run sw outs sw1 \<Longrightarrow> enqueue_message m options sw1 = (Inr m', sw2) \<Longrightarrow>
    message_encode (buffer_size - length (m_pending_buffer sw1)) options m = (Inr (n, out), m'') \<Longrightarrow>
    writer_run sw (outs @ [out]) sw2"
| writer_failed: "writer_run sw outs sw1 \<Longrightarrow> enqueue_message m options sw1 = (Inl e, sw2) \<Longrightarrow> writer_run sw outs sw2"
| writer_done: "writer_run sw outs sw1 \<Longrightarrow> m_active_buffer sw1 \<noteq> [] \<Longrightarrow> on_write_complete sw1 = (r, sw2) \<Longrightarrow> writer_run sw outs sw2"
| writer_closed: "writer_run sw outs sw1 \<Longrightarrow> writer_run sw outs (socket_writer_close sw1)"

lemma writer_run_taken: "writer_run sw0 outs sw \<Longrightarrow> taken sw = taken sw0 @ concat outs"
proof (induction rule: writer_run.induct)
  case (writer_wrote sw outs sw1 m options m' sw2 n out m'')
  then show ?case using taken_enqueue[OF writer_wrote.hyps(2)] by simp
next
  case (writer_failed sw outs sw1 m options e sw2)
  then show ?case using taken_enqueue[OF writer_failed.hyps(2)] by simp
next
  case (writer_closed sw outs sw1)
  then show ?case by (simp add: socket_writer_close_def socket_close_def taken_def)
qed (auto dest: taken_complete)

text \<open>
  C20: however the calls of write, the completions of the socket and the closing of the socket
  interleave (so also when other messages are written while a call of write is waiting), the
  bytes written, being written and waiting are always exactly the texts of the accepted messages
  in the order of the calls: nothing is lost, repeated or reordered.
\<close>

theorem bytes_are_written_in_order:
  assumes "writer_run (make_socket_writer \<lparr> sock_open = True, sock_sent = [] \<rparr>) outs sw"
  shows "sock_sent (m_socket sw) @ m_active_buffer sw @ m_pending_buffer sw = concat outs"
  using writer_run_taken[OF assms] by (simp add: taken_def make_socket_writer_def)

section \<open>Room in the buffers\<close>

definition writer_ok :: "socket_writer \<Rightarrow> bool" where
  "writer_ok sw \<longleftrightarrow> length (m_pending_buffer sw) \<le> buffer_high_water_mark \<and> length (m_active_buffer sw) \<le> buffer_size \<and>
     (m_active_buffer sw = [] \<longrightarrow> m_pending_buffer sw = [])"

lemma run_until_written_open:
  "sock_open (m_socket sw) \<Longrightarrow> m_active_buffer sw = [] \<longrightarrow> m_pending_buffer sw = [] \<Longrightarrow>
   \<exists>sw'. run_until_written sw = (Inr (), sw') \<and> m_active_buffer sw' = [] \<and> m_pending_buffer sw' = [] \<and> sock_open (m_socket sw')"
proof (induction sw rule: run_until_written.induct)
  case (1 sw)
  show ?case
  proof (cases "m_active_buffer sw = []")
    case True
    with 1(2,3) show ?thesis by (auto simp: run_until_written.simps)
  next
    case False
    from 1(2) obtain v where v: "on_write_complete sw = (Inr (), v)" "sock_open (m_socket v)"
      "m_active_buffer v = [] \<longrightarrow> m_pending_buffer v = []"
      by (auto simp: on_write_complete_def flush_pending_writes_def Let_def)
    from 1(1)[OF False v(1)[symmetric] refl v(2,3)] v(1) False show ?thesis
      by (simp add: run_until_written.simps[of sw])
  qed
qed

lemma write_returns:
  assumes ok: "writer_ok sw" "sock_open (m_socket sw)"
    and enc: "message_encode (buffer_size - length (m_pending_buffer sw)) options m = (Inr (n, out), m')" "n \<noteq> 0"
  shows "\<exists>sw'. socket_writer_write m options sw = (Inr m', sw') \<and> writer_ok sw' \<and> sock_open (m_socket sw') \<and>
     taken sw' = taken sw @ out"
proof -
  let ?sw = "flush_pending_writes (sw\<lparr> m_pending_buffer := m_pending_buffer sw @ out \<rparr>)"
  have n: "n = length out" "n \<le> buffer_size - length (m_pending_buffer sw)" using message_encode_fits[OF enc(1)] by auto
  have q: "enqueue_message m options sw = (Inr m', ?sw)"
    using ok(1) enc by (simp add: enqueue_message_def writer_ok_def buffer_size_def buffer_high_water_mark_def)
  have t: "taken ?sw = taken sw @ out" by (simp add: taken_flush) (simp add: taken_def)
  have shape: "sock_open (m_socket ?sw)" "length (m_active_buffer ?sw) \<le> buffer_size" "m_active_buffer ?sw \<noteq> []"
    using ok n enc(2) by (auto simp: flush_pending_writes_def writer_ok_def)
  show ?thesis
  proof (cases "length (m_pending_buffer ?sw) > buffer_high_water_mark")
    case False
    with q t shape show ?thesis by (simp add: socket_writer_write_def writer_ok_def)
  next
    case True
    from run_until_written_open[of ?sw] shape obtain sw' where
      r: "run_until_written ?sw = (Inr (), sw')" "m_active_buffer sw' = []" "m_pending_buffer sw' = []" "sock_open (m_socket sw')"
      by blast
    with q t True taken_run_until_written[OF r(1)] show ?thesis
      by (simp add: socket_writer_write_def writer_ok_def buffer_high_water_mark_def)
  qed
qed


text \<open>
  A call of write that throws on an open socket has taken nothing: the bytes written and
  waiting are as before, so that the next message follows the last one accepted.
\<close>

theorem failed_write_takes_nothing:
  assumes "writer_ok sw" "sock_open (m_socket sw)" "socket_writer_write m options sw = (Inl e, sw')"
  shows "sw' = sw"
proof (cases "enqueue_message m options sw")
  case (Pair r v)
  show ?thesis
  proof (cases r)
    case (Inl e')
    with Pair assms(3) show ?thesis
      by (auto simp: socket_writer_write_def enqueue_message_def split: if_splits prod.splits sum.splits)
  next
    case (Inr m')
    with Pair obtain n out m'' where "message_encode (buffer_size - length (m_pending_buffer sw)) options m = (Inr (n, out), m'')" "n \<noteq> 0"
      by (auto simp: enqueue_message_def split: if_splits prod.splits sum.splits)
    from write_returns[OF assms(1,2) this] assms(3) show ?thesis by auto
  qed
qed

section \<open>The properties at a concrete message\<close>

definition sample_out :: message where
  "sample_out = empty_message\<lparr> m_fields := [field_string 8 ''F'', field_string 10 []] \<rparr>"

definition sample_writer :: socket_writer where
  "sample_writer = make_socket_writer \<lparr> sock_open = True, sock_sent = [] \<rparr>"

lemma sample_encode:
  "message_encode 8192 set_checksum sample_out = (Inr (11, ''8=F'' @ soh @ ''10=188'' @ soh),
     empty_message\<lparr> m_fields := [field_string 8 ''F'', field_string 10 ''188''] \<rparr>)"
  by code_simp

lemma sample_writer_ok: "writer_ok sample_writer" "sock_open (m_socket sample_writer)" "m_pending_buffer sample_writer = []"
  "m_active_buffer sample_writer = []" "taken sample_writer = []"
  by (simp_all add: sample_writer_def make_socket_writer_def writer_ok_def taken_def)


theorem failed_write_takes_nothing_witness:
  "socket_writer_write empty_message 0 sample_writer =
     (Inl (Runtime_error ''failed to encode message''), sample_writer)"
proof -
  have e: "fst (socket_writer_write empty_message 0 sample_writer) = Inl (Runtime_error ''failed to encode message'')"
    by code_simp
  obtain sw' where "socket_writer_write empty_message 0 sample_writer = (Inl (Runtime_error ''failed to encode message''), sw')"
    using e by (metis prod.collapse)
  with failed_write_takes_nothing[OF sample_writer_ok(1,2) this] show ?thesis by simp
qed

theorem bytes_are_written_in_order_witness:
  "\<exists>sw. enqueue_message sample_out set_checksum sample_writer =
      (Inr (empty_message\<lparr> m_fields := [field_string 8 ''F'', field_string 10 ''188''] \<rparr>), sw) \<and>
    sock_sent (m_socket sw) @ m_active_buffer sw @ m_pending_buffer sw = ''8=F'' @ soh @ ''10=188'' @ soh"
proof -
  let ?sw = "flush_pending_writes (sample_writer\<lparr> m_pending_buffer := ''8=F'' @ soh @ ''10=188'' @ soh \<rparr>)"
  have enc: "message_encode (buffer_size - length (m_pending_buffer sample_writer)) set_checksum sample_out =
      (Inr (11, ''8=F'' @ soh @ ''10=188'' @ soh), empty_message\<lparr> m_fields := [field_string 8 ''F'', field_string 10 ''188''] \<rparr>)"
    using sample_encode by (simp add: sample_writer_ok buffer_size_def)
  then have q: "enqueue_message sample_out set_checksum sample_writer =
      (Inr (empty_message\<lparr> m_fields := [field_string 8 ''F'', field_string 10 ''188''] \<rparr>), ?sw)"
    by (simp add: enqueue_message_def sample_writer_ok buffer_size_def)
  have "writer_run sample_writer ([] @ [''8=F'' @ soh @ ''10=188'' @ soh]) ?sw"
    by (rule writer_wrote[OF writer_start q enc])
  from bytes_are_written_in_order[OF this[unfolded sample_writer_def]] q show ?thesis
    by (auto simp: sample_writer_def)
qed

end
