(* ===== verification/Boost_Asio_Scheduler.thy ===== *)
theory Boost_Asio_Scheduler
  imports Croco_Prelude Std_Convert Std_Map
begin

text \<open>
  \<open>libcrocofix/boost_asio_scheduler.cppm\<close>, \<open>boost_asio_scheduler.cpp\<close>: timers by cancellation token. A
  callback is a value of type \<open>'c\<close>; \<open>posted\<close> is the queue of callbacks handed to the io_context. A
  timer of boost::asio is modelled by its interval, the callback of the wait that is pending on it and
  whether that wait was cancelled; when the wait completes, its handler runs with an error in that case
  and without one otherwise. The unordered map is searched by key only, so its order plays no part.
\<close>

section \<open>State and operations\<close>

record 'c system_timer =
  interval :: nat
  pending_callback :: 'c
  cancelled :: bool

record 'c boost_asio_scheduler =
  m_next_cancellation_token :: u64
  m_timers :: "(u64, 'c system_timer) std_map"
  posted :: "'c list"

definition make_scheduler :: "'c boost_asio_scheduler" where
  "make_scheduler = \<lparr> m_next_cancellation_token = 0, m_timers = [], posted = [] \<rparr>"

definition scheduler_schedule :: "'c \<Rightarrow> 'c boost_asio_scheduler \<Rightarrow> 'c boost_asio_scheduler" where
  "scheduler_schedule task sch = sch\<lparr> posted := posted sch @ [task] \<rparr>"

text \<open>What the two ways to start a timer have in common: a token, a timer, a wait on it.\<close>

definition start_timer :: "nat \<Rightarrow> 'c \<Rightarrow> ('c boost_asio_scheduler, u64) proc" where
  "start_timer when callback = (\<lambda>sch.
     (let token = m_next_cancellation_token sch;
          sch' = sch\<lparr> m_next_cancellation_token := token + 1 \<rparr>
      in case map_try_emplace token \<lparr> interval = when, pending_callback = callback, cancelled = False \<rparr> (m_timers sch') of
           (inserted, timers) \<Rightarrow>
             (if \<not> inserted
              then (Inl (Runtime_error (''failed to insert timer with cancellation token '' @ u64_to_string token)), sch')
              else (Inr token, sch'\<lparr> m_timers := timers \<rparr>))))"

definition asio_schedule_relative_callback :: "nat \<Rightarrow> 'c \<Rightarrow> ('c boost_asio_scheduler, u64) proc" where
  "asio_schedule_relative_callback when callback = start_timer when callback"

definition asio_schedule_repeating_callback :: "nat \<Rightarrow> 'c \<Rightarrow> ('c boost_asio_scheduler, u64) proc" where
  "asio_schedule_repeating_callback when callback = start_timer when callback"

definition asio_cancel_callback :: "u64 \<Rightarrow> 'c boost_asio_scheduler \<Rightarrow> 'c boost_asio_scheduler" where
  "asio_cancel_callback token sch =
     (case map_find token (m_timers sch) of
        None \<Rightarrow> sch
      | Some t \<Rightarrow> sch\<lparr> m_timers := map_assign token (t\<lparr> cancelled := True \<rparr>) (m_timers sch) \<rparr>)"

definition erase_timer :: "u64 \<Rightarrow> 'c boost_asio_scheduler \<Rightarrow> 'c boost_asio_scheduler" where
  "erase_timer token sch = sch\<lparr> m_timers := filter (\<lambda>e. fst e \<noteq> token) (m_timers sch) \<rparr>"

text \<open>
  The handler of a single shot timer. It reads the token through a reference to a variable of a call
  that has returned: \<open>stale\<close> is whatever it finds there.
\<close>

definition relative_handler :: "bool \<Rightarrow> u64 \<Rightarrow> 'c \<Rightarrow> 'c boost_asio_scheduler \<Rightarrow> 'c boost_asio_scheduler" where
  "relative_handler error stale callback sch =
     erase_timer stale (if \<not> error then scheduler_schedule callback sch else sch)"

text \<open>The handler of a repeating timer.\<close>

definition repeating_handler :: "bool \<Rightarrow> u64 \<Rightarrow> nat \<Rightarrow> 'c \<Rightarrow> ('c boost_asio_scheduler, unit) proc" where
  "repeating_handler error token when callback = (\<lambda>sch.
     (if error then (Inr (), erase_timer token sch)
      else (let sch' = scheduler_schedule callback sch
            in case map_find token (m_timers sch') of
                 None \<Rightarrow> (Inl (Runtime_error (''unable to find timer with cancellation token '' @ u64_to_string token)), sch')
               | Some t \<Rightarrow> (Inr (), sch'\<lparr> m_timers :=
                   map_assign token \<lparr> interval = when, pending_callback = callback, cancelled = False \<rparr> (m_timers sch') \<rparr>))))"

section \<open>Tokens\<close>

text \<open>Every timer has a token that was given out, so the next one is free.\<close>

definition scheduler_ok :: "'c boost_asio_scheduler \<Rightarrow> bool" where
  "scheduler_ok sch \<longleftrightarrow> sm.all_entries (\<lambda>token _. token < m_next_cancellation_token sch) (m_timers sch)"

lemma map_find_filter: "map_find k (filter (\<lambda>e. fst e \<noteq> token) m) = (if k = token then None else map_find k m)"
  unfolding map_find_def by (induction m) auto

lemma erase_timer_ok: "scheduler_ok sch \<Longrightarrow> scheduler_ok (erase_timer token sch)"
  by (auto simp: scheduler_ok_def erase_timer_def sm.all_entries_def map_find_filter map_ok_def sorted_wrt_filter
      simp flip: filter_map[of "\<lambda>k. k \<noteq> token" fst, unfolded comp_def] split: if_splits)

lemma less_successor:
  assumes "(n :: u64) \<noteq> - 1"
  shows "k \<le> n \<Longrightarrow> k < n + 1"
proof -
  have "unat n \<noteq> 2 ^ 64 - 1"
  proof
    assume "unat n = 2 ^ 64 - 1"
    then have "n = - 1" by (simp add: word_unat_eq_iff unsigned_minus_1_eq_mask mask_eq_exp_minus_1)
    with assms show False by simp
  qed
  moreover have "unat n < 2 ^ LENGTH(64)" by (rule unsigned_less)
  ultimately have "unat n + 1 < 2 ^ 64" by simp
  then have "unat (n + 1) = unat n + 1" by (simp add: unat_word_ariths)
  then show "k \<le> n \<Longrightarrow> k < n + 1" by (simp add: word_less_nat_alt word_le_nat_alt)
qed

lemma start_timer_fresh:
  assumes "scheduler_ok sch" "m_next_cancellation_token sch \<noteq> - 1"
  obtains sch' where "start_timer when callback sch = (Inr (m_next_cancellation_token sch), sch')" "scheduler_ok sch'"
    "map_find (m_next_cancellation_token sch) (m_timers sch) = None"
    "\<And>k. map_find k (m_timers sch') = (if k = m_next_cancellation_token sch
       then Some \<lparr> interval = when, pending_callback = callback, cancelled = False \<rparr> else map_find k (m_timers sch))"
    "posted sch' = posted sch"
proof -
  let ?n = "m_next_cancellation_token sch"
  let ?t = "\<lparr> interval = when, pending_callback = callback, cancelled = False \<rparr>"
  have ok: "map_ok (m_timers sch)" and lt: "\<And>k v. map_find k (m_timers sch) = Some v \<Longrightarrow> k < ?n"
    using assms(1) by (auto simp: scheduler_ok_def sm.all_entries_def)
  have free: "map_find ?n (m_timers sch) = None" using lt[of ?n] by (cases "map_find ?n (m_timers sch)") auto
  have up: "k < ?n + 1" if "k < ?n \<or> k = ?n" for k
    using that less_successor[OF assms(2)] by auto
  let ?sch = "sch\<lparr> m_next_cancellation_token := ?n + 1, m_timers := snd (map_try_emplace ?n ?t (m_timers sch)) \<rparr>"
  have run: "start_timer when callback sch = (Inr ?n, ?sch)"
    using sm.emplace_flag[OF ok, of ?n ?t] free
    by (cases "map_try_emplace ?n ?t (m_timers sch)") (simp add: start_timer_def Let_def)
  have "scheduler_ok ?sch"
    using sm.find_emplace[OF ok, of _ ?n ?t] sm.ok_emplace[OF ok, of ?n ?t] lt up
    by (auto simp: scheduler_ok_def sm.all_entries_def split: if_splits)
  then show thesis
    using that[OF run] free sm.find_emplace[OF ok, of _ ?n ?t] by simp
qed

text \<open>
  Until the tokens run out, starting a timer succeeds: it returns a token that no live timer
  has, adds exactly that timer, posts nothing, and keeps the next token free.
\<close>

theorem timers_get_fresh_tokens:
  assumes "scheduler_ok sch" "m_next_cancellation_token sch \<noteq> - 1"
    and "start \<in> {asio_schedule_relative_callback, asio_schedule_repeating_callback}"
  shows "\<exists>sch' token. start when callback sch = (Inr token, sch') \<and> map_find token (m_timers sch) = None \<and>
    scheduler_ok sch' \<and> posted sch' = posted sch \<and>
    (\<forall>k. map_find k (m_timers sch') = (if k = token
       then Some \<lparr> interval = when, pending_callback = callback, cancelled = False \<rparr> else map_find k (m_timers sch)))"
proof -
  have st: "start = start_timer"
    using assms(3) by (auto simp: asio_schedule_relative_callback_def asio_schedule_repeating_callback_def fun_eq_iff)
  show ?thesis unfolding st by (rule start_timer_fresh[OF assms(1,2), of "when" callback]) auto
qed

text \<open>
  A repeating timer that has been cancelled does not fire again: when its wait completes, its
  callback is not posted and the timer is gone, while every other timer is untouched. Repeating
  timers do clean themselves up.
\<close>

theorem cancelled_timer_is_removed:
  assumes "map_find token (m_timers sch) = Some t"
  shows "\<exists>t1 sch2. map_find token (m_timers (asio_cancel_callback token sch)) = Some t1 \<and>
    repeating_handler (cancelled t1) token (interval t1) (pending_callback t1) (asio_cancel_callback token sch) = (Inr (), sch2) \<and>
    posted sch2 = posted sch \<and>
    (\<forall>k. map_find k (m_timers sch2) = (if k = token then None else map_find k (m_timers sch)))"
  using assms
  by (auto simp: asio_cancel_callback_def repeating_handler_def erase_timer_def sm.find_assign map_find_filter)

text \<open>
  A repeating timer that is not cancelled posts its callback once and waits again with the
  interval it was started with.
\<close>

lemma repeating_timer_rearms:
  assumes "map_find token (m_timers sch) = Some t" "\<not> cancelled t"
  shows "\<exists>sch2. repeating_handler (cancelled t) token (interval t) (pending_callback t) sch = (Inr (), sch2) \<and>
    posted sch2 = posted sch @ [pending_callback t] \<and> (\<forall>k. map_find k (m_timers sch2) = map_find k (m_timers sch))"
proof -
  have "\<lparr> interval = interval t, pending_callback = pending_callback t, cancelled = False \<rparr> = t"
    using assms(2) by (cases t) simp
  with assms show ?thesis
    by (auto simp: repeating_handler_def scheduler_schedule_def sm.find_assign)
qed

definition sample_scheduler :: "nat boost_asio_scheduler" where
  "sample_scheduler = \<lparr> m_next_cancellation_token = 1,
     m_timers = [(0, \<lparr> interval = 5, pending_callback = 7, cancelled = False \<rparr>)], posted = [] \<rparr>"

lemma sample_scheduler_find:
  "map_find 0 (m_timers sample_scheduler) = Some \<lparr> interval = 5, pending_callback = 7, cancelled = False \<rparr>"
  by (simp add: sample_scheduler_def map_find_def)

theorem timers_get_fresh_tokens_witness:
  "\<exists>sch' token. asio_schedule_relative_callback 9 3 sample_scheduler = (Inr token, sch') \<and>
    map_find token (m_timers sch') = Some \<lparr> interval = 9, pending_callback = 3, cancelled = False \<rparr>"
proof -
  have "scheduler_ok sample_scheduler"
    by (auto simp: scheduler_ok_def sm.all_entries_def sample_scheduler_def map_ok_def map_find_def split: if_splits)
  moreover have "m_next_cancellation_token sample_scheduler \<noteq> - 1" by (simp add: sample_scheduler_def)
  ultimately show ?thesis
    using timers_get_fresh_tokens[of sample_scheduler asio_schedule_relative_callback 9 3] by auto
qed

theorem cancelled_timer_is_removed_witness:
  "\<exists>sch2. repeating_handler True 0 5 7 (asio_cancel_callback 0 sample_scheduler) = (Inr (), sch2) \<and>
     map_find 0 (m_timers sch2) = None \<and> posted sch2 = []"
proof -
  have "map_find 0 (m_timers (asio_cancel_callback 0 sample_scheduler)) =
      Some \<lparr> interval = 5, pending_callback = 7, cancelled = True \<rparr>"
    by (simp add: asio_cancel_callback_def sample_scheduler_find sm.find_assign)
  with cancelled_timer_is_removed[OF sample_scheduler_find] show ?thesis by (auto simp: sample_scheduler_def)
qed

end
