(* ===== verification/Socket_Session.thy ===== *)
theory Socket_Session
  imports Session_Progress Socket_Writer Boost_Asio_Scheduler
begin

text \<open>
  A session on the links the library ships: \<open>socket_reader\<close>, \<open>socket_writer\<close> and \<open>boost_asio_scheduler\<close> on
  one socket. They satisfy the contract the session properties rely on; the properties are then
  evaluated at concrete messages on these links.
\<close>

section \<open>The links\<close>

record socket_world =
  the_writer :: socket_writer
  the_scheduler :: "session_callback boost_asio_scheduler"
  reading :: bool
  the_clock :: utc_time

definition close_socket :: "(socket_world, unit) call" where
  "close_socket e = (Inr (), False, e\<lparr> the_writer := socket_writer_close (the_writer e) \<rparr>)"

definition socket_links :: "orchestration \<Rightarrow> socket_world links" where
  "socket_links orch =
     \<lparr> reader_open = (\<lambda>e. (Inr (), False, e\<lparr> reading := True \<rparr>)),
       reader_close = close_socket,
       writer_write = (\<lambda>m options e.
         case socket_writer_write m options (the_writer e) of (r, sw) \<Rightarrow> (r, False, e\<lparr> the_writer := sw \<rparr>)),
       writer_close = close_socket,
       schedule_relative_callback = (\<lambda>when cb e.
         case asio_schedule_relative_callback when cb (the_scheduler e) of (r, sch) \<Rightarrow> (r, e\<lparr> the_scheduler := sch \<rparr>)),
       schedule_repeating_callback = (\<lambda>when cb e.
         case asio_schedule_repeating_callback when cb (the_scheduler e) of (r, sch) \<Rightarrow> (r, e\<lparr> the_scheduler := sch \<rparr>)),
       cancel_callback = (\<lambda>token e. (Inr (), e\<lparr> the_scheduler := asio_cancel_callback token (the_scheduler e) \<rparr>)),
       system_clock_now = (\<lambda>e. (the_clock e, e)),
       m_orchestration = orch \<rparr>"

lemma enqueue_keeps_fields:
  "enqueue_message m options sw = (Inr m', sw') \<Longrightarrow> t \<noteq> BodyLength_Tag \<Longrightarrow> t \<noteq> CheckSum_Tag \<Longrightarrow>
   fc_try_get t (m_fields m') = fc_try_get t (m_fields m)"
  by (auto simp: enqueue_message_def dest: message_encode_keeps split: if_splits prod.splits sum.splits)

lemma socket_writer_keeps_fields:
  "socket_writer_write m options sw = (Inr m', sw') \<Longrightarrow> t \<noteq> BodyLength_Tag \<Longrightarrow> t \<noteq> CheckSum_Tag \<Longrightarrow>
   fc_try_get t (m_fields m') = fc_try_get t (m_fields m)"
  by (auto simp: socket_writer_write_def bindP_returns seqP_returns dest: enqueue_keeps_fields)

lemma socket_links_keep_fields: "writer_keeps_fields (socket_links orch)"
  unfolding writer_keeps_fields_def
  by (auto simp: socket_links_def dest: socket_writer_keeps_fields split: prod.splits)

interpretation sl: faithful_writer "socket_links orch" for orch
  by unfold_locales (rule socket_links_keep_fields)

section \<open>Links that record\<close>

text \<open>
  Links that keep the messages written and do nothing else: the reader and writer of a session
  under test. They never throw.
\<close>

definition sample_orchestration :: orchestration where
  "sample_orchestration = \<lparr> o_messages = make_message_collection [],
     o_fields = \<lparr> m_field_offsets = replicate 373 0 @ [1], m_of_fields = [sample_field False, sample_field False],
                  m_fields_by_name = [] \<rparr> \<rparr>"

definition recording_links :: "message list links" where
  "recording_links =
     \<lparr> reader_open = (\<lambda>e. (Inr (), False, e)),
       reader_close = (\<lambda>e. (Inr (), False, e)),
       writer_write = (\<lambda>m options e. (Inr m, False, e @ [m])),
       writer_close = (\<lambda>e. (Inr (), False, e)),
       schedule_relative_callback = (\<lambda>n cb e. (Inr 0, e)),
       schedule_repeating_callback = (\<lambda>n cb e. (Inr 0, e)),
       cancel_callback = (\<lambda>token e. (Inr (), e)),
       system_clock_now = (\<lambda>e. (\<lparr> tm_year = 2024, tm_mon = 1, tm_mday = 2, tm_hour = 3, tm_min = 4, tm_sec = 5,
         tm_millis = 6 \<rparr>, e)),
       m_orchestration = sample_orchestration \<rparr>"

lemma recording_links_keep: "writer_keeps_fields recording_links"
  by (auto simp: writer_keeps_fields_def recording_links_def)

lemma recording_links_obliging: "obliging recording_links"
proof -
  have "returned (is_field_defined sample_orchestration (word_of_int SessionRejectReason_Tag))" by code_simp
  then show ?thesis by (simp add: obliging_def recording_links_def)
qed

section \<open>A session and its messages\<close>

definition sample_session :: "session_state \<Rightarrow> session" where
  "sample_session st = initial_session\<lparr> m_state := st,
     m_options := default_session_options\<lparr> m_begin_string := ''F'', m_sender_comp_id := ''A'', m_target_comp_id := ''B'' \<rparr>,
     m_expected_test_request_id := Some 0, m_incoming_msg_seq_num := 5, m_incoming_target_msg_seq_num := 7 \<rparr>"

definition sample_world :: "session_state \<Rightarrow> message list world" where
  "sample_world st = \<lparr> sess = sample_session st, outside = [], emitted = [] \<rparr>"

definition sample_in :: "string \<Rightarrow> u32 \<Rightarrow> field list \<Rightarrow> message" where
  "sample_in type n extra =
     (let m = \<lparr> m_fields = [field_string 8 ''F'', field_string 9 [], field_string 35 type, field_string 49 ''B'',
                 field_string 56 ''A'', field_u32 34 n] @ extra @ [field_string 10 ''000''],
               m_decode_checksum = 0, m_decode_checksum_valid = True \<rparr>
      in m\<lparr> m_fields := snd (fc_set_u32 9 (calculate_body_length m) Replace_first (m_fields m)) \<rparr>)"

lemma sample_world_sess [simp]: "sess (sample_world st) = sample_session st" "emitted (sample_world st) = []"
  by (simp_all add: sample_world_def)

lemma sample_session_simps [simp]:
  "m_state (sample_session st) = st" "m_incoming_msg_seq_num (sample_session st) = 5"
  "m_incoming_target_msg_seq_num (sample_session st) = 7" "m_outgoing_msg_seq_num (sample_session st) = 1"
  "m_expected_test_request_id (sample_session st) = Some 0" "m_next_test_request_id (sample_session st) = 0"
  "m_test_request_timer_token (sample_session st) = None"
  "m_use_next_expected_msg_seq_num (m_options (sample_session st)) = False"
  "m_test_request_delay (m_options (sample_session st)) = 1000" "m_heartbeat_interval (m_options (sample_session st)) = 30"
  by (simp_all add: sample_session_def initial_session_def default_session_options_def)

text \<open>The session is an initiator, so that what it accepts does not depend on its state.\<close>

lemma accepted_any_state: "accepted (sample_session connected) m \<Longrightarrow> accepted (sample_session st) m"
  by (simp add: accepted_def first_message_ok_def sample_session_def initial_session_def default_session_options_def)

lemma sample_read:
  assumes "well_formed m"
  obtains w' where "on_message_read recording_links m (sample_world st) = (Inr (), w')"
  using on_message_read_returns[OF recording_links_obliging assms] by blast

section \<open>Sample messages\<close>

definition order_5 :: message where "order_5 = sample_in ''D'' 5 []"
definition order_6 :: message where "order_6 = sample_in ''D'' 6 []"
definition order_4 :: message where "order_4 = sample_in ''D'' 4 []"
definition test_request_5 :: message where "test_request_5 = sample_in ''1'' 5 [field_string 112 ''X'']"
definition resend_request_5 :: message where
  "resend_request_5 = sample_in ''2'' 5 [field_string 7 ''1'', field_string 16 ''0'']"
definition bad_resend_request_5 :: message where
  "bad_resend_request_5 = sample_in ''2'' 5 [field_string 7 ''x'', field_string 16 ''0'']"
definition heartbeat_5 :: message where "heartbeat_5 = sample_in ''0'' 5 [field_string 112 ''0'']"
definition reset_5 :: message where "reset_5 = sample_in ''4'' 5 [field_string 36 ''9'']"
definition gap_fill_5 :: message where
  "gap_fill_5 = sample_in ''4'' 5 [field_string 123 ''Y'', field_string 43 ''Y'', field_string 36 ''9'']"
definition foreign_5 :: message where
  "foreign_5 = order_5\<lparr> m_fields := snd (fc_set_string 49 ''Z'' Replace_first (m_fields order_5)) \<rparr>"

lemma samples_accepted:
  "accepted (sample_session connected) order_5" "accepted (sample_session connected) order_6"
  "accepted (sample_session connected) order_4" "accepted (sample_session connected) test_request_5"
  "accepted (sample_session connected) resend_request_5" "accepted (sample_session connected) bad_resend_request_5"
  "accepted (sample_session connected) heartbeat_5" "accepted (sample_session connected) reset_5"
  "accepted (sample_session connected) gap_fill_5"
  by code_simp+

lemma samples_well_formed:
  "well_formed order_5" "well_formed order_6" "well_formed order_4" "well_formed test_request_5" "well_formed resend_request_5"
  "well_formed heartbeat_5" "well_formed reset_5" "well_formed gap_fill_5" "well_formed foreign_5"
  by code_simp+

lemma samples_sequenced:
  "sequenced order_5 5" "sequenced order_6 6" "sequenced order_4 4" "sequenced test_request_5 5" "sequenced resend_request_5 5"
  "sequenced bad_resend_request_5 5" "sequenced heartbeat_5 5"
  by code_simp+

lemma samples_types:
  "message_MsgType test_request_5 = Inr ''1''" "message_MsgType resend_request_5 = Inr ''2''"
  "message_MsgType bad_resend_request_5 = Inr ''2''" "message_MsgType heartbeat_5 = Inr ''0''"
  "message_MsgType reset_5 = Inr ''4''"
  by code_simp+

lemmas sample_accepted = samples_accepted[THEN accepted_any_state]

section \<open>The session properties at the samples\<close>

lemma sample_run:
  "session_run recording_links False [ev] (sample_world st) (snd (handle_event recording_links ev (sample_world st)))"
  using run_event[OF run_nil, of recording_links ev "sample_world st" _ _ False] by (metis append_Nil prod.collapse)

theorem states_follow_edges_witness:
  "state_path connected (emitted (snd (session_open recording_links (sample_world connected))))
     (m_state (sess (snd (session_open recording_links (sample_world connected)))))"
  using states_follow_edges[OF sample_run[of Open_session connected]] by simp

theorem runs_keep_options_witness:
  "m_sender_comp_id (m_options (sess (snd (session_open recording_links (sample_world connected))))) = ''A''"
  using runs_keep_options[OF sample_run[of Open_session connected]]
  by (simp add: sample_session_def initial_session_def)

theorem options_fixed_unless_connected_witness:
  "set_sender_comp_id ''X'' (sample_world logged_on) =
     (Inl (Logic_error ''session configuration cannot be changed while state = logged_on''), sample_world logged_on)"
  using options_fixed_unless_connected[of "sample_world logged_on" "set_sender_comp_id ''X''" acceptor "''X''" 0] by simp


theorem refused_messages_are_rejected_witness:
  "\<exists>w' rej rest sigs t. on_message_read recording_links foreign_5 (sample_world logged_on) = (Inr (), w') \<and>
    m_state (sess w') = disconnected \<and> emitted w' = Message_received foreign_5 # sigs \<and>
    sent_messages sigs = rej # rest \<and> is_reject_of foreign_5 t rej"
proof -
  have n: "\<not> accepted (sess (sample_world logged_on)) foreign_5" by code_simp
  obtain w' where r: "on_message_read recording_links foreign_5 (sample_world logged_on) = (Inr (), w')"
    using sample_read[OF samples_well_formed(9)] .
  from refused_messages_are_rejected[OF recording_links_keep r n] r show ?thesis by auto
qed


theorem in_sequence_application_message_witness:
  "on_message_read recording_links order_5 (sample_world logged_on) = (Inr (), (sample_world logged_on)\<lparr>
     emitted := [Message_received order_5], sess := (sample_session logged_on)\<lparr> m_incoming_msg_seq_num := 6 \<rparr> \<rparr>)"
proof -
  have "message_is_admin order_5 = Inr False" by code_simp
  with in_sequence_application_message[of "sample_world logged_on" order_5 recording_links] sample_accepted(1) samples_sequenced(1)
  show ?thesis by simp
qed

theorem gap_while_resending_extends_target_witness:
  "on_message_read recording_links order_6 (sample_world resending) = (Inr (), (sample_world resending)\<lparr>
     emitted := [Message_received order_6], sess := (sample_session resending)\<lparr> m_incoming_target_msg_seq_num := 7 \<rparr> \<rparr>)"
  using gap_while_resending_extends_target[of "sample_world resending" order_6 6 recording_links] sample_accepted(2) samples_sequenced(2)
  by (simp add: max_def)


theorem low_number_logs_out_witness:
  "\<exists>w' out. on_message_read recording_links order_4 (sample_world logged_on) = (Inr (), w') \<and>
    sent_messages (emitted w') = [out] \<and> message_MsgType out = Inr Logout_MsgType \<and> m_state (sess w') = disconnected"
proof -
  obtain w' where r: "on_message_read recording_links order_4 (sample_world logged_on) = (Inr (), w')"
    using sample_read[OF samples_well_formed(3)] .
  from low_number_logs_out[OF recording_links_keep _ samples_sequenced(3) _ r] sample_accepted(3) r show ?thesis by auto
qed

theorem test_request_echoed_witness:
  "\<exists>w' hb. on_message_read recording_links test_request_5 (sample_world logged_on) = (Inr (), w') \<and>
    sent_messages (emitted w') = [hb] \<and> message_MsgType hb = Inr Heartbeat_MsgType \<and>
    fc_try_get 112 (m_fields hb) = Some (field_string 112 ''X'')"
proof -
  obtain w' where r: "on_message_read recording_links test_request_5 (sample_world logged_on) = (Inr (), w')"
    using sample_read[OF samples_well_formed(4)] .
  have f: "fc_try_get 112 (m_fields test_request_5) = Some (field_string 112 ''X'')" by code_simp
  from test_request_echoed[OF recording_links_keep _ _ samples_types(1) f r] sample_accepted(4) samples_sequenced(4) r
  show ?thesis by auto
qed

theorem resend_request_answered_witness:
  "\<exists>w' gf. on_message_read recording_links resend_request_5 (sample_world logged_on) = (Inr (), w') \<and>
    sent_messages (emitted w') = [gf] \<and> is_gap_fill_for 1 1 gf"
proof -
  obtain w' where r: "on_message_read recording_links resend_request_5 (sample_world logged_on) = (Inr (), w')"
    using sample_read[OF samples_well_formed(5)] .
  have f: "fc_try_get 7 (m_fields resend_request_5) = Some (field_string 7 ''1'')"
    "stoi_u32 (m_value (field_string 7 ''1'')) = Inr 1"
    "fc_try_get 16 (m_fields resend_request_5) = Some (field_string 16 ''0'')" by code_simp+
  from resend_request_answered[OF recording_links_keep _ _ samples_types(2) f r] sample_accepted(5) samples_sequenced(5) r
  show ?thesis by auto
qed

theorem gap_fill_advances_recovery_witness:
  "\<exists>w' tr. on_message_read recording_links gap_fill_5 (sample_world resending) = (Inr (), w') \<and>
    m_incoming_msg_seq_num (sess w') = 9 \<and> sent_messages (emitted w') = [tr] \<and> message_MsgType tr = Inr TestRequest_MsgType"
proof -
  obtain w' where r: "on_message_read recording_links gap_fill_5 (sample_world resending) = (Inr (), w')"
    using sample_read[OF samples_well_formed(8)] .
  have f: "is_gap_fill gap_fill_5" "message_PossDupFlag gap_fill_5 = Inr True" "message_MsgSeqNum gap_fill_5 = Inr 5"
    "fc_try_get 36 (m_fields gap_fill_5) = Some (field_string 36 ''9'')"
    "stoi_u32 (m_value (field_string 36 ''9'')) = Inr 9" by code_simp+
  from gap_fill_advances_recovery[OF recording_links_keep _ f(1,2) _ f(4,5) _ _ _ r] sample_accepted(9) f(3) r
  show ?thesis by auto
qed

theorem heartbeat_completes_logon_witness:
  "\<exists>w'. on_message_read recording_links heartbeat_5 (sample_world logging_on) = (Inr (), w') \<and>
    emitted w' = [Message_received heartbeat_5, State_changed logging_on logged_on] \<and>
    m_state (sess w') = logged_on \<and> m_heartbeat_timer_token (sess w') \<noteq> None"
proof -
  obtain w' where r: "on_message_read recording_links heartbeat_5 (sample_world logging_on) = (Inr (), w')"
    using sample_read[OF samples_well_formed(6)] .
  have f: "fc_try_get 112 (m_fields heartbeat_5) = Some (field_string 112 ''0'')"
    "map_option u32_to_string (Some 0) = Some (m_value (field_string 112 ''0''))" by code_simp+
  from heartbeat_completes_logon[OF _ _ samples_types(4) f(1) _ _ r] f(2) sample_accepted(7) samples_sequenced(7) r
  show ?thesis by auto
qed

theorem sequence_reset_leaves_incoming_number_witness:
  "\<exists>w'. on_message_read recording_links reset_5 (sample_world logged_on) = (Inr (), w') \<and>
    m_incoming_msg_seq_num (sess w') = 5"
proof -
  obtain w' where r: "on_message_read recording_links reset_5 (sample_world logged_on) = (Inr (), w')"
    using sample_read[OF samples_well_formed(7)] .
  have "message_GapFillFlag reset_5 = Inr False" by code_simp
  with sequence_reset_leaves_incoming_number[OF _ samples_types(5) _ r] sample_accepted(8) r show ?thesis by auto
qed

theorem bad_begin_seq_no_throws_witness:
  "fst (on_message_read recording_links bad_resend_request_5 (sample_world logged_on)) = Inl (Invalid_argument ''stoi'')"
proof -
  have f: "fc_try_get 7 (m_fields bad_resend_request_5) = Some (field_string 7 ''x'')"
    "stoi (m_value (field_string 7 ''x'')) = Inl (Invalid_argument ''stoi'')"
    "fc_try_get 16 (m_fields bad_resend_request_5) \<noteq> None" by code_simp+
  show ?thesis
    by (rule bad_begin_seq_no_throws[OF _ _ samples_types(3) f]) (simp_all add: sample_accepted(6) samples_sequenced(6))
qed

theorem test_request_sent_after_close_witness:
  "\<exists>w' tr. run_callback recording_links Post_logon_test_request (sample_world disconnected) = (Inr (), w') \<and>
    sent_messages (emitted w') = [tr] \<and> message_MsgType tr = Inr TestRequest_MsgType"
proof -
  have "runs (run_callback recording_links Post_logon_test_request)"
    by simp (intro runs_calls recording_links_obliging)
  then obtain w' where r: "run_callback recording_links Post_logon_test_request (sample_world disconnected) = (Inr (), w')"
    using runsD by fastforce
  from test_request_sent_after_close[OF recording_links_keep _ r] r show ?thesis by auto
qed

theorem well_formed_messages_are_handled_witness:
  "\<exists>w'. on_message_read recording_links gap_fill_5 (sample_world connected) = (Inr (), w')"
  by (rule well_formed_messages_are_handled[OF recording_links_obliging samples_well_formed(8)])

end
