(* ===== verification/Socket_Reader.thy ===== *)
theory Socket_Reader
  imports Message_Decoding
begin

text \<open>
  \<open>libcrocofix/socket_reader.cppm\<close>, \<open>socket_reader.cpp\<close>: a buffer of 8192 bytes that the socket fills
  and from which messages are decoded in place. The buffer is modelled by the bytes up to
  \<open>m_write_offset\<close>; the messages given to \<open>dispatch_message_read\<close> are recorded in order. \<open>dict\<close> is the
  generated table the decoder consults.
\<close>

section \<open>State and operations\<close>

definition read_buffer_size :: nat where "read_buffer_size = 8192"

record socket_reader =
  m_read_buffer :: string
  m_read_offset :: nat
  m_message :: message
  dispatched :: "message list"

definition make_socket_reader :: socket_reader where
  "make_socket_reader = \<lparr> m_read_buffer = [], m_read_offset = 0, m_message = empty_message, dispatched = [] \<rparr>"

text \<open>\<open>read\<close> up to the asynchronous call: a full buffer is compacted.\<close>

definition prepare_read :: "socket_reader \<Rightarrow> socket_reader" where
  "prepare_read sr =
     (if length (m_read_buffer sr) = read_buffer_size
      then sr\<lparr> m_read_buffer := drop (m_read_offset sr) (m_read_buffer sr), m_read_offset := 0 \<rparr> else sr)"

definition read_room :: "socket_reader \<Rightarrow> nat" where
  "read_room sr = read_buffer_size - length (m_read_buffer sr)"

lemma message_decode_progress:
  assumes "message_decode dict s m = (Inr r, m')"
  shows "consumed r \<le> length s" and "complete r \<Longrightarrow> 0 < consumed r"
proof -
  obtain k where L: "decode_loop dict (m_fields m) [] s = (Inr (consumed r, k, complete r), m_fields m')"
    using message_decode_Inr[OF assms] by blast
  from decode_loop_bounds[OF L] show "consumed r \<le> length s" by simp
  assume "complete r"
  with L have "decode_loop dict (m_fields m) [] s = (Inr (consumed r, k, True), m_fields m')" by simp
  then obtain f n where n: "decode_round dict (m_fields m) [] s = Decoded f n" and "s \<noteq> []" and
    "consumed r = n \<or> decode_loop dict (m_fields m @ [f]) (take n s) (drop n s) = (Inr (consumed r, k, True), m_fields m')"
    by (subst (asm) decode_loop.simps) (auto split: if_splits decode_step.splits)
  then show "0 < consumed r"
    using decode_round_progress[OF n] decode_loop_bounds[of dict "m_fields m @ [f]" "take n s" "drop n s"]
    by (cases s) fastforce+
qed

function decode_buffer :: "orchestration_field_collection \<Rightarrow> (socket_reader, unit) proc" where
  "decode_buffer dict sr =
     (case message_decode dict (drop (m_read_offset sr) (m_read_buffer sr)) (m_message sr) of
        (Inl e, m) \<Rightarrow> (Inl e, sr\<lparr> m_message := m \<rparr>)
      | (Inr r, m) \<Rightarrow>
          (let sr' = sr\<lparr> m_read_offset := m_read_offset sr + consumed r \<rparr>
           in if \<not> complete r then (Inr (), sr'\<lparr> m_message := m \<rparr>)
              else decode_buffer dict (sr'\<lparr> dispatched := dispatched sr @ [m], m_message := message_reset m \<rparr>)))"
  by pat_completeness auto
termination
  by (relation "measure (\<lambda>(dict, sr). length (m_read_buffer sr) - m_read_offset sr)")
     (auto dest!: sym[of "(Inr _, _)"], use message_decode_progress in fastforce)

declare decode_buffer.simps [simp del]

text \<open>The completion handler of a read that delivered \<open>bytes\<close>, and the next \<open>read\<close>.\<close>

definition on_read :: "orchestration_field_collection \<Rightarrow> string \<Rightarrow> (socket_reader, unit) proc" where
  "on_read dict bytes =
     seqP (modifyP (\<lambda>sr. sr\<lparr> m_read_buffer := m_read_buffer sr @ bytes \<rparr>))
     (seqP (decode_buffer dict) (modifyP prepare_read))"

text \<open>Reads of any size that the room in the buffer allows, none of which throws.\<close>

inductive reader_run :: "orchestration_field_collection \<Rightarrow> socket_reader \<Rightarrow> string list \<Rightarrow> socket_reader \<Rightarrow> bool" for dict where
  reader_start: "reader_run dict sr [] sr"
| reader_read: "reader_run dict sr chunks sr1 \<Longrightarrow> length chunk \<le> read_room sr1 \<Longrightarrow>
    on_read dict chunk sr1 = (Inr (), sr2) \<Longrightarrow> reader_run dict sr (chunks @ [chunk]) sr2"

section \<open>Messages of a byte stream\<close>

text \<open>
  The specification: the messages of a text decoded in one piece, with the message begun and the
  bytes left at its end.
\<close>

function decode_stream ::
  "orchestration_field_collection \<Rightarrow> message \<Rightarrow> string \<Rightarrow> (exn + unit) \<times> message list \<times> message \<times> string" where
  "decode_stream dict m s =
     (case message_decode dict s m of
        (Inl e, m') \<Rightarrow> (Inl e, [], m', s)
      | (Inr r, m') \<Rightarrow>
          (if \<not> complete r then (Inr (), [], m', drop (consumed r) s)
           else case decode_stream dict (message_reset m') (drop (consumed r) s) of
                  (x, ms, rest) \<Rightarrow> (x, m' # ms, rest)))"
  by pat_completeness auto
termination
  by (relation "measure (\<lambda>(dict, m, s). length s)")
     (auto dest!: sym[of "(Inr _, _)"], use message_decode_progress in fastforce)

declare decode_stream.simps [simp del]

lemma decode_stream_cases:
  "message_decode dict s m = (Inl e, m') \<Longrightarrow> decode_stream dict m s = (Inl e, [], m', s)"
  "message_decode dict s m = (Inr r, m') \<Longrightarrow> \<not> complete r \<Longrightarrow> decode_stream dict m s = (Inr (), [], m', drop (consumed r) s)"
  "message_decode dict s m = (Inr r, m') \<Longrightarrow> complete r \<Longrightarrow>
   decode_stream dict (message_reset m') (drop (consumed r) s) = (x, ms, rest) \<Longrightarrow>
   decode_stream dict m s = (x, m' # ms, rest)"
  by (simp_all add: decode_stream.simps[of dict m s])

text \<open>Two states of a message that further decoding cannot tell apart.\<close>

definition same_progress :: "message \<Rightarrow> message \<Rightarrow> bool" where
  "same_progress m m' \<longleftrightarrow> m_fields m = m_fields m' \<and> m_decode_checksum m mod 256 = m_decode_checksum m' mod 256 \<and>
     m_decode_checksum_valid m = m_decode_checksum_valid m'"

lemma message_eqI:
  "m_fields a = m_fields b \<Longrightarrow> m_decode_checksum a = m_decode_checksum b \<Longrightarrow>
   m_decode_checksum_valid a = m_decode_checksum_valid b \<Longrightarrow> a = (b :: message)"
  by simp

lemma message_decode_cong:
  assumes "same_progress m1 m2" "message_decode dict s m1 = (Inr r, m1')"
  shows "\<exists>m2'. message_decode dict s m2 = (Inr r, m2') \<and> same_progress m1' m2' \<and> (complete r \<longrightarrow> m1' = m2')"
proof -
  have u: "(ucast (m_decode_checksum m1) :: u8) = ucast (m_decode_checksum m2)"
    using assms(1) by (simp add: same_progress_def mod_256_eq_iff)
  obtain k where L: "decode_loop dict (m_fields m1) [] s = (Inr (consumed r, k, complete r), m_fields m1')"
    and s1: "(ucast (m_decode_checksum m1') :: u8) = ucast (m_decode_checksum m1) + of_nat (byte_sum (take k s))"
    and v1: "m_decode_checksum_valid m1' = (complete r \<or> m_decode_checksum_valid m1)"
    and c1: "complete r \<Longrightarrow> m_decode_checksum m1' = ucast (ucast (m_decode_checksum m1) + of_nat (byte_sum (take k s)) :: u8)"
    using message_decode_Inr[OF assms(2)] by metis
  have L2: "decode_loop dict (m_fields m2) [] s = (Inr (consumed r, k, complete r), m_fields m1')"
    using L assms(1) by (simp add: same_progress_def)
  obtain m2' where d: "message_decode dict s m2 = (Inr r, m2')"
    by (rule message_decode_conv[OF L2]) simp
  obtain k' where L': "decode_loop dict (m_fields m2) [] s = (Inr (consumed r, k', complete r), m_fields m2')"
    and s2: "(ucast (m_decode_checksum m2') :: u8) = ucast (m_decode_checksum m2) + of_nat (byte_sum (take k' s))"
    and v2: "m_decode_checksum_valid m2' = (complete r \<or> m_decode_checksum_valid m2)"
    and c2: "complete r \<Longrightarrow> m_decode_checksum m2' = ucast (ucast (m_decode_checksum m2) + of_nat (byte_sum (take k' s)) :: u8)"
    using message_decode_Inr[OF d] by metis
  from L' L2 have k: "k' = k" and f: "m_fields m2' = m_fields m1'" by auto
  have v: "m_decode_checksum_valid m1' = m_decode_checksum_valid m2'" using v1 v2 assms(1) by (simp add: same_progress_def)
  have "same_progress m1' m2'" using f v s1 s2 u k by (simp add: same_progress_def mod_256_eq_iff)
  moreover have "complete r \<Longrightarrow> m1' = m2'" using f v c1 c2 u k by (intro message_eqI) auto
  ultimately show ?thesis using d by blast
qed

lemma decode_stream_cong:
  assumes "same_progress m1 m2" "decode_stream dict m1 s = (Inr (), ms, m1', rest)"
  shows "\<exists>m2'. decode_stream dict m2 s = (Inr (), ms, m2', rest) \<and> same_progress m1' m2'"
proof (cases "message_decode dict s m1")
  case (Pair x v1)
  with assms(2) obtain r where x: "x = Inr r"
    by (cases x) (auto simp: decode_stream_cases(1))
  with message_decode_cong[OF assms(1)] Pair obtain v2 where
    v2: "message_decode dict s m2 = (Inr r, v2)" "same_progress v1 v2" "complete r \<longrightarrow> v1 = v2" by blast
  obtain y ms' m' rest' where tail: "decode_stream dict (message_reset v1) (drop (consumed r) s) = (y, ms', m', rest')"
    by (metis prod_cases4)
  show ?thesis
  proof (cases "complete r")
    case True
    with v2 tail Pair x decode_stream_cases(3)[of dict s m1] decode_stream_cases(3)[of dict s m2] assms(2)
    show ?thesis by (auto simp: same_progress_def)
  next
    case False
    with v2 Pair x decode_stream_cases(2)[of dict s m1] decode_stream_cases(2)[of dict s m2] assms(2) show ?thesis by auto
  qed
qed

lemma decode_loop_complete_append:
  "decode_loop dict fs pre a = (Inr (c, k, True), fs') \<Longrightarrow> decode_loop dict fs pre (a @ b) = (Inr (c, k, True), fs')"
proof (induction dict fs pre a rule: decode_loop.induct)
  case (1 dict fs pre a)
  from 1(2) obtain f n where n: "decode_round dict fs pre a = Decoded f n" and "a \<noteq> []"
    by (subst (asm) decode_loop.simps) (auto split: if_splits decode_step.splits)
  note r = decode_round_append[OF n, of pre b]
  show ?case
  proof (cases "m_tag f = CheckSum_Tag")
    case True
    with 1(2) n \<open>a \<noteq> []\<close> r show ?thesis by (simp add: decode_loop.simps[of dict fs pre])
  next
    case False
    with 1(2) n \<open>a \<noteq> []\<close> have "decode_loop dict (fs @ [f]) (pre @ take n a) (drop n a) = (Inr (c, k, True), fs')"
      by (simp add: decode_loop.simps[of dict fs pre])
    from 1(1)[OF \<open>a \<noteq> []\<close> n False this] False n \<open>a \<noteq> []\<close> r show ?thesis
      by (simp add: decode_loop.simps[of dict fs pre "a @ b"])
  qed
qed

lemma message_decode_complete_append:
  assumes "message_decode dict a m = (Inr r, m')" "complete r"
  shows "message_decode dict (a @ b) m = (Inr r, m')"
proof -
  obtain k where L: "decode_loop dict (m_fields m) [] a = (Inr (consumed r, k, True), m_fields m')"
    using message_decode_Inr[OF assms(1)] assms(2) by metis
  have "k \<le> length a" using decode_loop_bounds[OF L] by simp
  with L decode_loop_complete_append[OF L, of b] assms show ?thesis by (simp add: message_decode_def Let_def)
qed

text \<open>Decoding a text in two pieces, the second one appended to what the first one left, is decoding it in one.\<close>

lemma decode_stream_append:
  assumes "decode_stream dict m a = (Inr (), ms, m1, rest)" "decode_stream dict m1 (rest @ b) = (Inr (), ms2, m2, rest2)"
  shows "\<exists>m2'. decode_stream dict m (a @ b) = (Inr (), ms @ ms2, m2', rest2) \<and> same_progress m2 m2'"
  using assms
proof (induction dict m a arbitrary: ms rule: decode_stream.induct)
  case (1 dict m a)
  obtain x v where d: "message_decode dict a m = (x, v)" by fastforce
  with 1(2) obtain r where x: "x = Inr r" by (cases x) (auto simp: decode_stream_cases(1))
  note d = d[unfolded x]
  show ?case
  proof (cases "complete r")
    case True
    obtain y ms' m' rest' where t: "decode_stream dict (message_reset v) (drop (consumed r) a) = (y, ms', m', rest')"
      by (metis prod_cases4)
    with 1(2) decode_stream_cases(3)[OF d True t] have y: "y = Inr ()" "ms = v # ms'" "m' = m1" "rest' = rest" by auto
    from 1(1)[OF d[symmetric] refl] True t y 1(3) obtain m2' where
      "decode_stream dict (message_reset v) (drop (consumed r) a @ b) = (Inr (), ms' @ ms2, m2', rest2)" "same_progress m2 m2'"
      by auto
    with decode_stream_cases(3)[OF message_decode_complete_append[OF d True] True, of b] y message_decode_progress(1)[OF d]
    show ?thesis by auto
  next
    case False
    with 1(2) decode_stream_cases(2)[OF d False] have f: "ms = []" "m1 = v" "rest = drop (consumed r) a" by auto
    obtain x2 v2 where d2: "message_decode dict (rest @ b) m1 = (x2, v2)" by fastforce
    with 1(3) obtain r2 where x2: "x2 = Inr r2" by (cases x2) (auto simp: decode_stream_cases(1))
    note d2 = d2[unfolded x2]
    from decode_continue[OF d False, of b r2 v2] d2 f obtain m' where
      m': "message_decode dict (a @ b) m = (Inr \<lparr> consumed = consumed r + consumed r2, complete = complete r2 \<rparr>, m')"
      and p: "same_progress v2 m'" "complete r2 \<longrightarrow> m' = v2"
      by (auto simp: same_progress_def)
    have dr: "drop (consumed r + consumed r2) (a @ b) = drop (consumed r2) (rest @ b)"
      using f message_decode_progress(1)[OF d] by (simp add: drop_drop[symmetric] add.commute del: drop_drop)
    show ?thesis
    proof (cases "complete r2")
      case True
      obtain y ms' m3 rest' where t: "decode_stream dict (message_reset v2) (drop (consumed r2) (rest @ b)) = (y, ms', m3, rest')"
        by (metis prod_cases4)
      from decode_stream_cases(3)[OF d2 True t] decode_stream_cases(3)[OF m', of y ms' "(m3, rest')"] True t dr p f 1(3)
      show ?thesis by (auto simp: same_progress_def)
    next
      case False
      with decode_stream_cases(2)[OF d2] decode_stream_cases(2)[OF m'] dr p f 1(3) show ?thesis by auto
    qed
  qed
qed

lemma decode_buffer_stream:
  "decode_stream dict (m_message sr) (drop (m_read_offset sr) (m_read_buffer sr)) = (x, ms, m, rest) \<Longrightarrow>
   decode_buffer dict sr = (Inr (), sr') \<Longrightarrow>
   x = Inr () \<and> dispatched sr' = dispatched sr @ ms \<and> m_message sr' = m \<and> m_read_buffer sr' = m_read_buffer sr \<and>
   drop (m_read_offset sr') (m_read_buffer sr') = rest"
proof (induction dict sr arbitrary: ms rule: decode_buffer.induct)
  case (1 dict sr)
  let ?s = "drop (m_read_offset sr) (m_read_buffer sr)"
  obtain y v where d: "message_decode dict ?s (m_message sr) = (y, v)" by fastforce
  with 1(3) obtain r where y: "y = Inr r" by (cases y) (auto simp: decode_buffer.simps[of dict sr])
  note d = d[unfolded y]
  show ?case
  proof (cases "complete r")
    case False
    with d 1(2,3) decode_stream_cases(2)[OF d False] show ?thesis
      by (auto simp: decode_buffer.simps[of dict sr] Let_def add.commute)
  next
    case True
    let ?sr = "sr\<lparr> m_read_offset := m_read_offset sr + consumed r, dispatched := dispatched sr @ [v], m_message := message_reset v \<rparr>"
    obtain z ms' m' rest' where t: "decode_stream dict (message_reset v) (drop (consumed r) ?s) = (z, ms', m', rest')"
      by (metis prod_cases4)
    with 1(2) decode_stream_cases(3)[OF d True t] have q: "z = x" "ms = v # ms'" "m' = m" "rest' = rest" by auto
    have "decode_buffer dict ?sr = (Inr (), sr')" using 1(3) d True by (simp add: decode_buffer.simps[of dict sr] Let_def)
    with 1(1)[OF d[symmetric] refl refl, of ms'] True t q show ?thesis by (auto simp: add.commute)
  qed
qed

lemma prepare_read_keeps:
  "dispatched (prepare_read sr) = dispatched sr" "m_message (prepare_read sr) = m_message sr"
  "drop (m_read_offset (prepare_read sr)) (m_read_buffer (prepare_read sr)) = drop (m_read_offset sr) (m_read_buffer sr)"
  by (simp_all add: prepare_read_def)

lemma decode_buffer_offset:
  "decode_buffer dict sr = (r, sr') \<Longrightarrow> m_read_offset sr \<le> length (m_read_buffer sr) \<Longrightarrow>
   m_read_offset sr' \<le> length (m_read_buffer sr') \<and> m_read_buffer sr' = m_read_buffer sr"
proof (induction dict sr rule: decode_buffer.induct)
  case (1 dict sr)
  obtain y v where d: "message_decode dict (drop (m_read_offset sr) (m_read_buffer sr)) (m_message sr) = (y, v)" by fastforce
  show ?case
  proof (cases y)
    case (Inl e)
    with 1(2,3) d show ?thesis by (auto simp: decode_buffer.simps[of dict sr])
  next
    case (Inr res)
    note d = d[unfolded Inr]
    from message_decode_progress(1)[OF d] 1(3) have le: "m_read_offset sr + consumed res \<le> length (m_read_buffer sr)" by simp
    with 1(1)[OF d[symmetric] refl refl] 1(2) d show ?thesis
      by (cases "complete res") (auto simp: decode_buffer.simps[of dict sr] Let_def)
  qed
qed

lemma reader_offset_le: "reader_run dict make_socket_reader chunks sr \<Longrightarrow> m_read_offset sr \<le> length (m_read_buffer sr)"
proof (induction make_socket_reader chunks sr rule: reader_run.induct)
  case reader_start
  show ?case by (simp add: make_socket_reader_def)
next
  case (reader_read chunks sr1 chunk sr2)
  let ?sr = "sr1\<lparr> m_read_buffer := m_read_buffer sr1 @ chunk \<rparr>"
  from reader_read.hyps(4) obtain v where "decode_buffer dict ?sr = (Inr (), v)" "sr2 = prepare_read v"
    by (cases "decode_buffer dict ?sr"; cases "fst (decode_buffer dict ?sr)") (auto simp: on_read_def seqP_def bindP_def)
  with decode_buffer_offset[of dict ?sr] reader_read.hyps(2) show ?case by (auto simp: prepare_read_def)
qed

lemma reader_stream:
  assumes "reader_run dict make_socket_reader chunks sr"
  shows "\<exists>m. decode_stream dict empty_message (concat chunks) =
     (Inr (), dispatched sr, m, drop (m_read_offset sr) (m_read_buffer sr)) \<and> same_progress (m_message sr) m"
  using assms
proof (induction make_socket_reader chunks sr rule: reader_run.induct)
  case reader_start
  have "decode_stream dict empty_message [] = (Inr (), [], empty_message, [])"
    by (simp add: decode_stream.simps message_decode_def decode_loop.simps reduce_char_def empty_message_def)
  then show ?case by (simp add: make_socket_reader_def same_progress_def)
next
  case (reader_read chunks sr1 chunk sr2)
  let ?left = "drop (m_read_offset sr1) (m_read_buffer sr1)"
  let ?sr = "sr1\<lparr> m_read_buffer := m_read_buffer sr1 @ chunk \<rparr>"
  from reader_read.hyps(2) obtain m1 where
    whole: "decode_stream dict empty_message (concat chunks) = (Inr (), dispatched sr1, m1, ?left)"
    and p: "same_progress (m_message sr1) m1" by blast
  from reader_read.hyps(4) obtain v where db: "decode_buffer dict ?sr = (Inr (), v)" and sr2: "sr2 = prepare_read v"
    by (cases "decode_buffer dict ?sr"; cases "fst (decode_buffer dict ?sr)") (auto simp: on_read_def seqP_def bindP_def)
  have left: "drop (m_read_offset sr1) (m_read_buffer sr1 @ chunk) = ?left @ chunk"
    using reader_offset_le[OF reader_read.hyps(1)] by simp
  obtain x ms m rest where st: "decode_stream dict (m_message sr1) (?left @ chunk) = (x, ms, m, rest)"
    by (metis prod_cases4)
  from decode_buffer_stream[of dict ?sr x ms m rest v] st left db have
    v: "x = Inr ()" "dispatched v = dispatched sr1 @ ms" "m_message v = m" "drop (m_read_offset v) (m_read_buffer v) = rest" by auto
  from decode_stream_cong[OF p, of dict "?left @ chunk" ms m rest] st v(1) obtain m' where
    m': "decode_stream dict m1 (?left @ chunk) = (Inr (), ms, m', rest)" "same_progress m m'" by blast
  from decode_stream_append[OF whole m'(1)] obtain m2 where
    "decode_stream dict empty_message (concat chunks @ chunk) = (Inr (), dispatched sr1 @ ms, m2, rest)" "same_progress m' m2" by blast
  with m'(2) v sr2 show ?case by (auto simp: prepare_read_keeps same_progress_def)
qed

text \<open>
  C15: the messages a reader dispatches do not depend on how the bytes arrive. Whatever the sizes
  of the reads, and however often the buffer was compacted, they are exactly the messages, with
  their checksums, that decoding the whole byte stream in one piece yields, and the bytes still
  in the buffer are those the stream leaves undecoded.
\<close>

theorem reader_messages_independent_of_chunks:
  assumes "reader_run dict make_socket_reader chunks sr"
  shows "\<exists>m. decode_stream dict empty_message (concat chunks) =
     (Inr (), dispatched sr, m, drop (m_read_offset sr) (m_read_buffer sr)) \<and> same_progress (m_message sr) m"
  using assms by (rule reader_stream)

section \<open>A field that does not fit\<close>

text \<open>
  A tag and value of 8192 bytes or more stops the reader for good: once the buffer is full of
  an incomplete field there is no room for another byte, every further read returns nothing, and
  no message is dispatched any more.
\<close>

theorem oversized_field_blocks_reader:
  assumes "length (m_read_buffer sr) = read_buffer_size" "m_read_offset sr = 0"
    and "message_decode dict (m_read_buffer sr) (m_message sr) = (Inr \<lparr> consumed = 0, complete = False \<rparr>, m_message sr)"
    and "reader_run dict sr chunks sr'"
  shows "sr' = sr \<and> concat chunks = []"
  using assms(4,1-3)
proof (induction sr chunks sr' rule: reader_run.induct)
  case (reader_read sr chunks sr1 chunk sr2)
  then have sr1: "sr1 = sr" "concat chunks = []" "chunk = []" by (auto simp: read_room_def)
  with reader_read.hyps(3) reader_read.prems show ?case
    by (auto simp: on_read_def decode_buffer.simps[of dict sr] prepare_read_def)
qed simp

theorem oversized_field_blocks_reader_witness:
  "\<not> (\<exists>sr'. reader_run sample_dict
     \<lparr> m_read_buffer = replicate 8192 (CHR ''A''), m_read_offset = 0, m_message = empty_message, dispatched = [] \<rparr> [''=''] sr')"
proof -
  let ?sr = "\<lparr> m_read_buffer = replicate 8192 (CHR ''A''), m_read_offset = 0, m_message = empty_message, dispatched = [] \<rparr>"
  have "split_at value_separator (replicate 8192 (CHR ''A'')) = None" by (simp add: split_at_None)
  then have "message_decode sample_dict (m_read_buffer ?sr) (m_message ?sr) =
      (Inr \<lparr> consumed = 0, complete = False \<rparr>, m_message ?sr)"
    by (simp add: message_decode_def decode_loop.simps decode_round_def reduce_char_def empty_message_def)
  then show ?thesis
    using oversized_field_blocks_reader[of ?sr sample_dict "[''='']"] by (auto simp: read_buffer_size_def)
qed

theorem reader_messages_independent_of_chunks_witness:
  "\<exists>m. decode_stream sample_dict empty_message (concat [''8=F'' @ soh @ ''10='', ''013'' @ soh @ ''8='']) =
     (Inr (), [\<lparr> m_fields = [field_string 8 ''F'', field_string 10 ''013''], m_decode_checksum = 188,
                 m_decode_checksum_valid = True \<rparr>], m, ''8='')"
proof -
  let ?sr1 = "\<lparr> m_read_buffer = ''8=F'' @ soh @ ''10='', m_read_offset = 4,
      m_message = \<lparr> m_fields = [field_string 8 ''F''], m_decode_checksum = - 68, m_decode_checksum_valid = False \<rparr>,
      dispatched = [] \<rparr>"
  let ?sr2 = "\<lparr> m_read_buffer = ''8=F'' @ soh @ ''10=013'' @ soh @ ''8='', m_read_offset = 11, m_message = empty_message,
      dispatched = [\<lparr> m_fields = [field_string 8 ''F'', field_string 10 ''013''], m_decode_checksum = 188,
                 m_decode_checksum_valid = True \<rparr>] \<rparr>"
  have a: "on_read sample_dict (''8=F'' @ soh @ ''10='') make_socket_reader = (Inr (), ?sr1)" by code_simp
  have b: "on_read sample_dict (''013'' @ soh @ ''8='') ?sr1 = (Inr (), ?sr2)" by code_simp
  have "reader_run sample_dict make_socket_reader ([] @ [''8=F'' @ soh @ ''10='']) ?sr1"
    by (rule reader_read[OF reader_start _ a]) (simp add: read_room_def read_buffer_size_def make_socket_reader_def soh_def)
  from reader_read[OF this _ b] have "reader_run sample_dict make_socket_reader [''8=F'' @ soh @ ''10='', ''013'' @ soh @ ''8=''] ?sr2"
    by (simp add: read_room_def read_buffer_size_def soh_def)
  from reader_messages_independent_of_chunks[OF this] show ?thesis by (auto simp: soh_def)
qed

end
