(* ===== verification/Reader_Progress.thy ===== *)
theory Reader_Progress
  imports Socket_Reader Message_Encoding
begin

text \<open>
  A reader on a stream of messages that fit the wire: whatever pieces the bytes come in, no read throws,
  and every message is dispatched as soon as its last byte has been read.
\<close>

section \<open>Pieces of a field\<close>

lemma decode_round_piece:
  assumes "wire_field_ok dict prevs f" "a @ b = field_text f" "b \<noteq> []"
  shows "decode_round dict prevs pre a = Incomplete"
proof (cases "split_at value_separator a")
  case None
  then show ?thesis by (simp add: decode_round_def)
next
  case (Some p)
  obtain t after where p: "split_at value_separator a = Some (t, after)" using Some by (cases p) auto
  let ?t = "int_to_string (m_tag f)"
  have "split_at value_separator (field_text f) = Some (t, after @ b)" using split_at_append[OF p, of b] assms(2) by simp
  moreover have "split_at value_separator (field_text f) = Some (?t, m_value f @ [field_separator])"
    using split_at_eq[of value_separator ?t "m_value f @ [field_separator]"] int_to_string_no_sep(1) by (simp add: field_text_def)
  ultimately have t: "t = ?t" "after @ b = m_value f @ [field_separator]" by simp_all
  have fc: "from_chars_int ?t = Some (m_tag f)"
    using assms(1) from_chars_int_to_string[of "m_tag f" "[]"] by (simp add: wire_field_ok_def)
  from assms(1) obtain d where d: "field_at dict (word_of_int (m_tag f)) = Inr d"
    by (auto simp: wire_field_ok_def split: sum.splits)
  have "m_value f = after @ butlast b" using t(2) assms(3) by (metis butlast_append butlast_snoc)
  then obtain b' where v: "m_value f = after @ b'" by blast
  show ?thesis
  proof (cases "of_is_data d")
    case True
    with assms(1) d v show ?thesis
      by (simp add: decode_round_def p t(1) fc decode_data_def wire_field_ok_def Let_def nat_add_distrib)
  next
    case False
    with assms(1) d v have "split_at field_separator after = None"
      by (simp add: split_at_None wire_field_ok_def)
    with False d show ?thesis by (simp add: decode_round_def p t(1) fc decode_text_def)
  qed
qed

section \<open>Pieces of a message\<close>

text \<open>The fields \<open>todo\<close> of a message are still to come; its only CheckSum field is the last.\<close>

definition ends_message :: "field list \<Rightarrow> bool" where
  "ends_message todo \<longleftrightarrow> todo \<noteq> [] \<and> m_tag (last todo) = CheckSum_Tag \<and> CheckSum_Tag \<notin> set (tags (butlast todo))"

lemma ends_message_Cons: "ends_message (f # todo) \<longleftrightarrow> (if todo = [] then m_tag f = CheckSum_Tag else m_tag f \<noteq> CheckSum_Tag \<and> ends_message todo)"
  by (auto simp: ends_message_def)

lemma decode_loop_piece:
  assumes "wire_ok dict prevs todo" "ends_message todo" "b @ r = wire_text todo @ tail"
  shows "(\<exists>b' k. decode_loop dict prevs pre b = (Inr (length pre + length (wire_text todo), k, True), prevs @ todo) \<and> b = wire_text todo @ b') \<or>
    (\<exists>now later b' k. decode_loop dict prevs pre b = (Inr (length pre + length (wire_text now), k, False), prevs @ now) \<and>
       todo = now @ later \<and> b = wire_text now @ b' \<and> length b' < length (wire_text later))"
  using assms
proof (induction todo arbitrary: prevs pre b)
  case Nil
  then show ?case by (simp add: ends_message_def)
next
  case (Cons f todo)
  have wf: "wire_field_ok dict prevs f" "wire_ok dict (prevs @ [f]) todo" using Cons.prems(1) by simp_all
  from Cons.prems(3) have eq: "b @ r = field_text f @ (wire_text todo @ tail)" by simp
  consider (whole) b1 where "b = field_text f @ b1" "b1 @ r = wire_text todo @ tail"
    | (part) r1 where "b @ r1 = field_text f" "r1 \<noteq> []"
  proof (cases "length (field_text f) \<le> length b")
    case True
    with eq have "b = field_text f @ drop (length (field_text f)) b" by (metis append_eq_append_conv_if append_take_drop_id)
    with eq show thesis by (metis append.assoc same_append_eq whole)
  next
    case False
    with eq have "field_text f = b @ drop (length b) (field_text f)" by (metis append_eq_append_conv_if append_take_drop_id nat_le_linear)
    with False show thesis by (metis append_Nil2 order_refl part)
  qed
  then show ?case
  proof cases
    case whole
    have ne: "b \<noteq> []" and td: "take (length (field_text f)) b = field_text f" "drop (length (field_text f)) b = b1"
      using whole(1) by simp_all
    have round: "decode_round dict prevs pre b = Decoded f (length (field_text f))"
      unfolding whole(1) by (rule decode_round_field_text[OF wf(1)])
    show ?thesis
    proof (cases "todo = []")
      case True
      then have "m_tag f = CheckSum_Tag" using Cons.prems(2) by (simp add: ends_message_Cons)
      then have "decode_loop dict prevs pre b = (Inr (length pre + length (field_text f), length pre, True), prevs @ [f])"
        using round ne by (simp add: decode_loop.simps[of dict prevs pre b])
      then show ?thesis using whole(1) True by (intro disjI1) auto
    next
      case False
      then have e: "m_tag f \<noteq> CheckSum_Tag" "ends_message todo" using Cons.prems(2) by (simp_all add: ends_message_Cons)
      have step: "decode_loop dict prevs pre b = decode_loop dict (prevs @ [f]) (pre @ field_text f) b1"
        using round e(1) ne td by (simp add: decode_loop.simps[of dict prevs pre b])
      from Cons.IH[OF wf(2) e(2) whole(2), of "pre @ field_text f"] show ?thesis
      proof (elim disjE exE conjE)
        fix b' k
        assume "decode_loop dict (prevs @ [f]) (pre @ field_text f) b1 =
            (Inr (length (pre @ field_text f) + length (wire_text todo), k, True), (prevs @ [f]) @ todo)" "b1 = wire_text todo @ b'"
        then show ?thesis using step whole(1) by (intro disjI1) (auto simp: add.assoc)
      next
        fix now later b' k
        assume "decode_loop dict (prevs @ [f]) (pre @ field_text f) b1 =
            (Inr (length (pre @ field_text f) + length (wire_text now), k, False), (prevs @ [f]) @ now)"
          "todo = now @ later" "b1 = wire_text now @ b'" "length b' < length (wire_text later)"
        then show ?thesis using step whole(1)
          by (intro disjI2 exI[of _ "f # now"] exI[of _ later] exI[of _ b'] exI[of _ k]) (simp add: add.assoc)
      qed
    qed
  next
    case part
    have "decode_loop dict prevs pre b = (Inr (length pre, length pre, False), prevs)"
      using decode_round_piece[OF wf(1) part] by (simp add: decode_loop.simps[of dict prevs pre b])
    moreover have "length b < length (field_text f)" unfolding part(1)[symmetric] using part(2) by simp
    ultimately show ?thesis by (intro disjI2 exI[of _ "[]"] exI[of _ "f # todo"] exI[of _ b]) auto
  qed
qed


section \<open>Pieces of a stream\<close>

text \<open>
  \<open>fss\<close> are the fields of the messages still to be dispatched, of the first of which the fields
  \<open>got\<close> have been decoded already, and \<open>s\<close> is the text still to be decoded.
\<close>

definition awaiting :: "orchestration_field_collection \<Rightarrow> field list \<Rightarrow> field list list \<Rightarrow> string \<Rightarrow> bool" where
  "awaiting dict got fss s \<longleftrightarrow> (\<forall>fs \<in> set fss. wire_ok dict [] fs \<and> ends_message fs) \<and>
     (case fss of
        [] \<Rightarrow> got = [] \<and> s = []
      | fs # rest \<Rightarrow> (\<exists>todo. fs = got @ todo \<and> todo \<noteq> [] \<and> s = wire_text todo @ concat (map wire_text rest)))"

lemma awaiting_start: "(\<forall>fs \<in> set fss. wire_ok dict [] fs \<and> ends_message fs) \<Longrightarrow> awaiting dict [] fss (concat (map wire_text fss))"
  by (cases fss) (auto simp: awaiting_def ends_message_def)

text \<open>The bytes \<open>b\<close> that are there do not complete the first of the messages.\<close>

definition short_of :: "field list \<Rightarrow> field list list \<Rightarrow> string \<Rightarrow> bool" where
  "short_of got fss b \<longleftrightarrow> (case fss of [] \<Rightarrow> True | fs # _ \<Rightarrow> \<exists>todo. fs = got @ todo \<and> length b < length (wire_text todo))"

lemma ends_message_suffix: "ends_message (got @ todo) \<Longrightarrow> todo \<noteq> [] \<Longrightarrow> ends_message todo"
  by (auto simp: ends_message_def butlast_append split: if_splits)

lemma message_decode_piece:
  assumes "awaiting dict (m_fields m) fss (b @ r)"
  obtains (complete) n b' fs rest m' where "message_decode dict b m = (Inr \<lparr> consumed = n, complete = True \<rparr>, m')" "drop n b = b'"
      "fss = fs # rest" "m_fields m' = fs" "awaiting dict [] rest (b' @ r)" "m_decode_checksum_valid m'"
    | (incomplete) n b' m' where "message_decode dict b m = (Inr \<lparr> consumed = n, complete = False \<rparr>, m')" "drop n b = b'"
      "awaiting dict (m_fields m') fss (b' @ r)" "short_of (m_fields m') fss b'"
proof (cases fss)
  case Nil
  with assms have "m_fields m = []" "b = []" by (auto simp: awaiting_def)
  then obtain m' where "message_decode dict b m = (Inr \<lparr> consumed = 0, complete = False \<rparr>, m')" "m_fields m' = []"
    by (simp add: message_decode_def decode_loop.simps)
  with assms show thesis by (intro incomplete[of 0 m' b]) (auto simp: awaiting_def short_of_def Nil)
next
  case (Cons fs rest)
  with assms obtain todo where t: "fs = m_fields m @ todo" "todo \<noteq> []" "b @ r = wire_text todo @ concat (map wire_text rest)"
    "\<forall>fs \<in> set (fs # rest). wire_ok dict [] fs \<and> ends_message fs" by (auto simp: awaiting_def)
  then have w: "wire_ok dict (m_fields m) todo" "ends_message todo" using ends_message_suffix by (auto simp: wire_ok_append)
  from decode_loop_piece[OF w t(3), of "[]"] show thesis
  proof (elim disjE exE conjE)
    fix b' k
    assume d: "decode_loop dict (m_fields m) [] b = (Inr (length [] + length (wire_text todo), k, True), m_fields m @ todo)"
      and b: "b = wire_text todo @ b'"
    obtain m' where "message_decode dict b m = (Inr \<lparr> consumed = length (wire_text todo), complete = True \<rparr>, m')" "m_fields m' = fs"
      "m_decode_checksum_valid m'"
      using d t(1) by (simp add: message_decode_def Let_def)
    moreover have "awaiting dict [] rest (b' @ r)" using t(3,4) b awaiting_start[of rest dict] by simp
    ultimately show thesis using b Cons by (intro complete) auto
  next
    fix now later b' k
    assume d: "decode_loop dict (m_fields m) [] b = (Inr (length [] + length (wire_text now), k, False), m_fields m @ now)"
      and n: "todo = now @ later" "b = wire_text now @ b'" "length b' < length (wire_text later)"
    obtain m' where "message_decode dict b m = (Inr \<lparr> consumed = length (wire_text now), complete = False \<rparr>, m')" "m_fields m' = m_fields m @ now"
      using d by (simp add: message_decode_def Let_def)
    moreover have "awaiting dict (m_fields m @ now) fss (b' @ r)" using t n Cons by (auto simp: awaiting_def)
    moreover have "short_of (m_fields m @ now) fss b'" using t(1) n Cons by (simp add: short_of_def)
    ultimately show thesis using n(2) by (intro incomplete) auto
  qed
qed

section \<open>The reader\<close>

text \<open>What a reader has still to decode: the rest of its buffer, then \<open>r\<close>.\<close>

definition reader_awaits :: "orchestration_field_collection \<Rightarrow> field list list \<Rightarrow> string \<Rightarrow> socket_reader \<Rightarrow> bool" where
  "reader_awaits dict fss r sr \<longleftrightarrow> m_read_offset sr \<le> length (m_read_buffer sr) \<and>
     awaiting dict (m_fields (m_message sr)) fss (drop (m_read_offset sr) (m_read_buffer sr) @ r)"

definition starved :: "field list list \<Rightarrow> socket_reader \<Rightarrow> bool" where
  "starved fss sr \<longleftrightarrow> short_of (m_fields (m_message sr)) fss (drop (m_read_offset sr) (m_read_buffer sr))"

lemma decode_buffer_piece:
  assumes "reader_awaits dict fss r sr"
  shows "\<exists>sr' ds fss'. decode_buffer dict sr = (Inr (), sr') \<and> dispatched sr' = dispatched sr @ ds \<and>
    fss = map m_fields ds @ fss' \<and> reader_awaits dict fss' r sr' \<and> starved fss' sr'"
  using assms
proof (induction dict sr arbitrary: fss rule: decode_buffer.induct)
  case (1 dict sr)
  let ?b = "drop (m_read_offset sr) (m_read_buffer sr)"
  have o: "m_read_offset sr \<le> length (m_read_buffer sr)" and a: "awaiting dict (m_fields (m_message sr)) fss (?b @ r)"
    using 1(2) by (simp_all add: reader_awaits_def)
  from a show ?case
  proof (cases rule: message_decode_piece)
    case (complete n b' fs rest m')
    let ?sr = "sr\<lparr> m_read_offset := m_read_offset sr + n, dispatched := dispatched sr @ [m'], m_message := message_reset m' \<rparr>"
    have "n \<le> length ?b" using message_decode_progress(1)[OF complete(1)] by simp
    then have "reader_awaits dict rest r ?sr"
      using o complete(2,5) by (auto simp: reader_awaits_def message_reset_def add.commute)
    with 1(1)[OF complete(1)[symmetric] refl refl, of rest] obtain sr' ds fss' where
      "decode_buffer dict ?sr = (Inr (), sr')" "dispatched sr' = (dispatched sr @ [m']) @ ds" "rest = map m_fields ds @ fss'"
      "reader_awaits dict fss' r sr'" "starved fss' sr'" by auto
    with complete show ?thesis
      by (intro exI[of _ sr'] exI[of _ "m' # ds"] exI[of _ fss']) (simp add: decode_buffer.simps[of dict sr] Let_def)
  next
    case (incomplete n b' m')
    have "n \<le> length ?b" using message_decode_progress(1)[OF incomplete(1)] by simp
    with o incomplete show ?thesis
      by (intro exI[of _ "sr\<lparr> m_read_offset := m_read_offset sr + n, m_message := m' \<rparr>"] exI[of _ "[]"] exI[of _ fss])
         (auto simp: decode_buffer.simps[of dict sr] Let_def reader_awaits_def starved_def add.commute)
  qed
qed

lemma on_read_piece:
  assumes "reader_awaits dict fss (bytes @ r) sr"
  obtains sr' ds fss' where "on_read dict bytes sr = (Inr (), sr')" "dispatched sr' = dispatched sr @ ds"
    "fss = map m_fields ds @ fss'" "reader_awaits dict fss' r sr'" "starved fss' sr'"
proof -
  have "reader_awaits dict fss r (sr\<lparr> m_read_buffer := m_read_buffer sr @ bytes \<rparr>)"
    using assms by (simp add: reader_awaits_def)
  from decode_buffer_piece[OF this] obtain sr' ds fss' where
    d: "decode_buffer dict (sr\<lparr> m_read_buffer := m_read_buffer sr @ bytes \<rparr>) = (Inr (), sr')"
      "dispatched sr' = dispatched sr @ ds" "fss = map m_fields ds @ fss'" "reader_awaits dict fss' r sr'" "starved fss' sr'" by auto
  have "reader_awaits dict fss' r (prepare_read sr')" using d(4) by (auto simp: reader_awaits_def prepare_read_def)
  moreover have "starved fss' (prepare_read sr')" using d(5) by (simp add: starved_def prepare_read_keeps)
  ultimately show thesis using d by (intro that[of "prepare_read sr'" ds fss']) (simp_all add: on_read_def seqP_def bindP_def prepare_read_def)
qed


text \<open>Reads of any size, one after the other.\<close>

fun read_all :: "orchestration_field_collection \<Rightarrow> string list \<Rightarrow> (socket_reader, unit) proc" where
  "read_all dict [] = returnP ()"
| "read_all dict (chunk # chunks) = seqP (on_read dict chunk) (read_all dict chunks)"

lemma reader_awaits_start:
  assumes "\<forall>fs \<in> set fss. wire_ok dict [] fs \<and> ends_message fs"
  shows "reader_awaits dict fss (concat (map wire_text fss)) make_socket_reader" "starved fss make_socket_reader"
proof -
  show "reader_awaits dict fss (concat (map wire_text fss)) make_socket_reader"
    using assms by (simp add: reader_awaits_def make_socket_reader_def empty_message_def awaiting_start)
  have "0 < length (wire_text fs)" if "ends_message fs" for fs using that by (cases fs) (simp_all add: ends_message_def)
  with assms show "starved fss make_socket_reader"
    by (auto simp: starved_def short_of_def make_socket_reader_def empty_message_def split: list.split)
qed

lemma read_all_piece:
  assumes "reader_awaits dict fss (concat chunks @ r) sr" "starved fss sr"
  obtains sr' ds fss' where "read_all dict chunks sr = (Inr (), sr')" "dispatched sr' = dispatched sr @ ds"
    "fss = map m_fields ds @ fss'" "reader_awaits dict fss' r sr'" "starved fss' sr'"
  using assms
proof (induction chunks arbitrary: sr fss thesis)
  case Nil
  show ?case by (rule Nil.prems(1)[of sr "[]" fss]) (use Nil.prems(2,3) in simp_all)
next
  case (Cons chunk chunks)
  from Cons.prems(2) have "reader_awaits dict fss (chunk @ (concat chunks @ r)) sr" by simp
  then obtain sr1 ds1 fss1 where a: "on_read dict chunk sr = (Inr (), sr1)" "dispatched sr1 = dispatched sr @ ds1"
    "fss = map m_fields ds1 @ fss1" "reader_awaits dict fss1 (concat chunks @ r) sr1" "starved fss1 sr1" by (rule on_read_piece)
  from Cons.IH[OF _ a(4,5)] obtain sr' ds fss' where "read_all dict chunks sr1 = (Inr (), sr')" "dispatched sr' = dispatched sr1 @ ds"
    "fss1 = map m_fields ds @ fss'" "reader_awaits dict fss' r sr'" "starved fss' sr'" by blast
  with a show ?case by (intro Cons.prems(1)[of sr' "ds1 @ ds" fss']) (simp_all add: seqP_def bindP_def)
qed

lemma awaited_text:
  assumes "reader_awaits dict fss r sr"
  shows "length r \<le> length (concat (map wire_text fss))"
proof (cases fss)
  case Nil
  then show ?thesis using assms by (simp add: reader_awaits_def awaiting_def)
next
  case (Cons fs rest)
  then obtain todo where "fs = m_fields (m_message sr) @ todo"
    "drop (m_read_offset sr) (m_read_buffer sr) @ r = wire_text todo @ concat (map wire_text rest)"
    using assms by (auto simp: reader_awaits_def awaiting_def)
  moreover from arg_cong[OF this(2), of length] have "length r \<le> length (wire_text todo) + length (concat (map wire_text rest))" by simp
  ultimately show ?thesis using Cons by simp
qed

text \<open>A message whose last byte has been read is not among those awaited.\<close>

lemma dispatched_bytes:
  assumes "reader_awaits dict later r sr" "starved later sr" "fss = now @ later"
    and "arrived @ r = concat (map wire_text fss)" "k \<le> length fss"
  shows "k \<le> length now \<longleftrightarrow> length (concat (map wire_text (take k fss))) \<le> length arrived"
proof -
  let ?len = "\<lambda>fss. length (concat (map wire_text fss))"
  have all: "length arrived + length r = ?len now + ?len later" using arg_cong[OF assms(4), of length] assms(3) by simp
  have mono: "?len (take k xs) \<le> ?len xs" for xs
    by (metis append_take_drop_id concat_append le_add1 length_append map_append)
  show ?thesis
  proof
    assume "k \<le> length now"
    then have "take k fss = take k now" using assms(3) by simp
    with mono[of now] awaited_text[OF assms(1)] all show "?len (take k fss) \<le> length arrived" by (simp only:)
  next
    assume le: "?len (take k fss) \<le> length arrived"
    show "k \<le> length now"
    proof (rule ccontr)
      assume k: "\<not> k \<le> length now"
      then obtain fs rest where f: "later = fs # rest" using assms(3,5) by (cases later) auto
      let ?b = "drop (m_read_offset sr) (m_read_buffer sr)"
      obtain todo where t: "fs = m_fields (m_message sr) @ todo" "?b @ r = wire_text todo @ concat (map wire_text rest)"
        using assms(1) f by (auto simp: reader_awaits_def awaiting_def)
      then have b: "length ?b < length (wire_text todo)" using assms(2) f by (auto simp: starved_def short_of_def)
      have "length ?b + length r = length (wire_text todo) + ?len rest" using arg_cong[OF t(2), of length] by simp
      moreover have "?len now + length (wire_text fs) \<le> ?len (take k fss)"
      proof -
        have "take k fss = now @ fs # take (k - Suc (length now)) rest" using k assms(3) f by (simp add: take_Cons')
        then show ?thesis by simp
      qed
      ultimately show False using b le all f by simp
    qed
  qed
qed

lemma reader_dispatches:
  assumes "\<forall>fs \<in> set fss. wire_ok dict [] fs \<and> ends_message fs" "concat chunks @ r = concat (map wire_text fss)"
  shows "\<exists>sr. read_all dict chunks make_socket_reader = (Inr (), sr) \<and> length (dispatched sr) \<le> length fss \<and>
    map m_fields (dispatched sr) = take (length (dispatched sr)) fss \<and>
    (\<forall>k \<le> length fss. k \<le> length (dispatched sr) \<longleftrightarrow> length (concat (map wire_text (take k fss))) \<le> length (concat chunks))"
proof -
  note start = reader_awaits_start[OF assms(1)]
  from start have "reader_awaits dict fss (concat chunks @ r) make_socket_reader" by (simp add: assms(2))
  then obtain sr ds fss' where s: "read_all dict chunks make_socket_reader = (Inr (), sr)" "dispatched sr = dispatched make_socket_reader @ ds"
    "fss = map m_fields ds @ fss'" "reader_awaits dict fss' r sr" "starved fss' sr"
    using start(2) by (rule read_all_piece)
  have d: "dispatched sr = ds" using s(2) by (simp add: make_socket_reader_def)
  from dispatched_bytes[OF s(4,5,3) assms(2)]
  have "\<forall>k \<le> length fss. k \<le> length ds \<longleftrightarrow> length (concat (map wire_text (take k fss))) \<le> length (concat chunks)" by simp
  moreover have "length ds \<le> length fss" "map m_fields ds = take (length ds) fss" using s(3) by simp_all
  ultimately show ?thesis using s(1) d by blast
qed

text \<open>
  C13: a reader never waits for more than it needs, and never throws on messages that fit the wire. Whatever
  the sizes of the reads, after each of them the messages dispatched are, with their fields and in
  order, exactly those of the stream whose last byte has been read.
\<close>

theorem reader_dispatches_complete_messages:
  assumes "\<forall>fs \<in> set fss. wire_ok dict [] fs \<and> ends_message fs" "concat chunks @ r = concat (map wire_text fss)"
  shows "\<exists>sr. read_all dict chunks make_socket_reader = (Inr (), sr) \<and> length (dispatched sr) \<le> length fss \<and>
    map m_fields (dispatched sr) = take (length (dispatched sr)) fss \<and>
    (\<forall>k \<le> length fss. k \<le> length (dispatched sr) \<longleftrightarrow> length (concat (map wire_text (take k fss))) \<le> length (concat chunks))"
  using assms by (rule reader_dispatches)

section \<open>Messages an engine has encoded\<close>

text \<open>
  \<open>out\<close> is the text of a message that ends in its only CheckSum field, encoded with its checksum,
  and \<open>fs\<close> are its fields as \<open>encode\<close> left them, all of them fit for the wire.
\<close>

definition encoded_text :: "orchestration_field_collection \<Rightarrow> int \<Rightarrow> string \<Rightarrow> field_collection \<Rightarrow> bool" where
  "encoded_text dict options out fs \<longleftrightarrow> (\<exists>m pre cs cap n m'.
     m_fields m = pre @ [cs] \<and> m_tag cs = CheckSum_Tag \<and> CheckSum_Tag \<notin> set (tags pre) \<and>
     options AND set_checksum \<noteq> 0 \<and> message_encode cap options m = (Inr (n, out), m') \<and> n \<noteq> 0 \<and>
     wire_ok dict [] (m_fields m') \<and> fs = m_fields m')"

lemma encoded_text_wire:
  assumes "encoded_text dict options out fs"
  shows "out = wire_text fs" "wire_ok dict [] fs" "ends_message fs"
proof -
  from assms obtain m pre cs cap n m' where
    f: "m_fields m = pre @ [cs]" "m_tag cs = CheckSum_Tag" "CheckSum_Tag \<notin> set (tags pre)" "options AND set_checksum \<noteq> 0"
    and e: "message_encode cap options m = (Inr (n, out), m')" "n \<noteq> 0" and w: "wire_ok dict [] (m_fields m')" "fs = m_fields m'"
    unfolding encoded_text_def by blast
  from message_encode_checksum[OF f e] obtain pre' v where
    p: "m_fields m' = pre' @ [field_string CheckSum_Tag v]" "out = wire_text (m_fields m')" "tags pre' = tags pre" by metis
  from p(2) w show "out = wire_text fs" "wire_ok dict [] fs" by simp_all
  show "ends_message fs" using p(1,3) w(2) f(3) by (simp add: ends_message_def)
qed

lemma encoded_text_again:
  assumes "encoded_text dict options out fs" "m_fields d = fs" "length out \<le> cap'"
  shows "message_encode cap' options d = (Inr (length out, out), d)" "out \<noteq> []"
proof -
  from assms(1) obtain m pre cs cap n m' where
    f: "m_fields m = pre @ [cs]" "m_tag cs = CheckSum_Tag" "CheckSum_Tag \<notin> set (tags pre)" "options AND set_checksum \<noteq> 0"
    and e: "message_encode cap options m = (Inr (n, out), m')" "n \<noteq> 0" and w: "fs = m_fields m'"
    unfolding encoded_text_def by blast
  have n: "n = length out" using message_encode_fits[OF e(1)] by simp
  with e(2) show "out \<noteq> []" by auto
  show "message_encode cap' options d = (Inr (length out, out), d)"
    using encode_again[OF f e, of d cap'] assms(2,3) n w by simp
qed

section \<open>What decoding accepts\<close>

lemma decode_round_typed:
  assumes "decode_round dict fs pre rest = Decoded f n"
  shows "wire_field_ok dict fs f"
proof -
  from assms obtain t after tag d where t: "split_at value_separator rest = Some (t, after)" "from_chars_int t = Some tag"
    "field_at dict (word_of_int tag) = Inr d"
    and f: "(if of_is_data d then decode_data fs tag pre t after else decode_text tag t after) = Decoded f n"
    by (auto simp: decode_round_def split: option.splits sum.splits)
  have r: "int32_range tag" by (rule from_chars_int_range[OF t(2)])
  show ?thesis
  proof (cases "of_is_data d")
    case True
    with f obtain len where "stoi (m_value (last fs)) = Inr len" "fs \<noteq> []" "0 \<le> len" "nat len < length after"
      "f = field_string tag (take (nat len) after)"
      by (auto simp: decode_data_def Let_def split: if_splits sum.splits)
    with True r t(3) show ?thesis by (simp add: wire_field_ok_def min_def)
  next
    case False
    with f obtain v w where "split_at field_separator after = Some (v, w)" "f = field_string tag v"
      by (auto simp: decode_text_def split: option.splits)
    with False r t(3) show ?thesis by (auto simp: wire_field_ok_def split_at_Some)
  qed
qed

lemma decode_loop_typed: "decode_loop dict fs pre rest = (r, fs') \<Longrightarrow> \<exists>gs. fs' = fs @ gs \<and> wire_ok dict fs gs"
proof (induction dict fs pre rest rule: decode_loop.induct)
  case (1 dict fs pre rest)
  show ?case
  proof (cases "rest = [] \<or> (\<forall>f n. decode_round dict fs pre rest \<noteq> Decoded f n)")
    case True
    with 1(2) have "fs' = fs" by (subst (asm) decode_loop.simps) (auto split: if_splits decode_step.splits)
    then show ?thesis by simp
  next
    case False
    then obtain f n where d: "rest \<noteq> []" "decode_round dict fs pre rest = Decoded f n" by auto
    note f = decode_round_typed[OF d(2)]
    show ?thesis
    proof (cases "m_tag f = CheckSum_Tag")
      case True
      with 1(2) d have "fs' = fs @ [f]" by (subst (asm) decode_loop.simps) auto
      with f show ?thesis by simp
    next
      case c: False
      with 1(2) d have "decode_loop dict (fs @ [f]) (pre @ take n rest) (drop n rest) = (r, fs')" by (subst (asm) decode_loop.simps) auto
      with 1(1)[OF d c] obtain gs where "fs' = (fs @ [f]) @ gs" "wire_ok dict (fs @ [f]) gs" by auto
      with f show ?thesis by (intro exI[of _ "f # gs"]) simp
    qed
  qed
qed

text \<open>
  C29: whatever bytes arrive, \<open>decode\<close> only ever adds well formed fields: a tag that is an \<open>int\<close> and a field
  of the dictionary, a value without a separator, or one exactly as long as the field before says if it is a data
  field. It does so also when it throws.
\<close>

theorem decoded_fields_are_well_formed:
  assumes "message_decode dict buffer m = (r, m')" "wire_ok dict [] (m_fields m)"
  shows "wire_ok dict [] (m_fields m') \<and> take (length (m_fields m)) (m_fields m') = m_fields m"
proof -
  obtain x fs' where l: "decode_loop dict (m_fields m) [] buffer = (x, fs')" by fastforce
  with assms(1) have "m_fields m' = fs'" by (auto simp: message_decode_def Let_def split: sum.splits)
  with decode_loop_typed[OF l] assms(2) show ?thesis by (auto simp: wire_ok_append)
qed

section \<open>The properties at concrete messages\<close>

theorem reader_dispatches_complete_messages_witness:
  "\<exists>sr. read_all sample_dict [''8=F'' @ soh @ ''10='', ''188'' @ soh @ ''8='', ''G''] make_socket_reader = (Inr (), sr) \<and>
     map m_fields (dispatched sr) = [[field_string 8 ''F'', field_string 10 ''188'']]"
proof -
  let ?fss = "[[field_string 8 ''F'', field_string 10 ''188''], [field_string 8 ''G'', field_string 10 ''189'']]"
  let ?chunks = "[''8=F'' @ soh @ ''10='', ''188'' @ soh @ ''8='', ''G'']"
  have ok: "\<forall>fs \<in> set ?fss. wire_ok sample_dict [] fs \<and> ends_message fs" by code_simp
  have whole: "concat ?chunks @ soh @ ''10=189'' @ soh = concat (map wire_text ?fss)" by code_simp
  have len: "length (concat (map wire_text (take 1 ?fss))) = 11" "length (concat (map wire_text (take 2 ?fss))) = 22" "length (concat ?chunks) = 14"
    by code_simp+
  from reader_dispatches_complete_messages[OF ok whole] obtain sr where
    sr: "read_all sample_dict ?chunks make_socket_reader = (Inr (), sr)" "length (dispatched sr) \<le> length ?fss"
    "map m_fields (dispatched sr) = take (length (dispatched sr)) ?fss"
    "\<forall>k \<le> length ?fss. k \<le> length (dispatched sr) \<longleftrightarrow> length (concat (map wire_text (take k ?fss))) \<le> length (concat ?chunks)" by blast
  have "1 \<le> length (dispatched sr)" using sr(4)[rule_format, of 1] len by simp
  moreover have "\<not> 2 \<le> length (dispatched sr)" using sr(4)[rule_format, of 2] len by simp
  ultimately have "length (dispatched sr) = 1" by simp
  with sr(3) sr(1) show ?thesis by (intro exI[of _ sr]) simp
qed

theorem decoded_fields_are_well_formed_witness:
  "wire_ok sample_dict [] (m_fields (snd (message_decode sample_dict (''8=F'' @ soh @ ''x=1'' @ soh) empty_message)))"
proof -
  have "wire_ok sample_dict [] (m_fields empty_message)" by (simp add: empty_message_def)
  from decoded_fields_are_well_formed[OF prod.collapse[symmetric] this] show ?thesis by blast
qed

end
