(* ===== verification/Blocking_Queue.thy ===== *)
theory Blocking_Queue
  imports Croco_Prelude
begin

text \<open>
  \<open>libcrocofixutility/blocking_queue.cppm\<close>: a deque guarded by a mutex, with a condition variable
  on which consumers wait. Any number of threads run \<open>enqueue\<close>, \<open>dequeue\<close> and \<open>try_dequeue\<close>; each
  method is cut into the steps between which other threads may run: taking the mutex, the work
  under it, waiting on the condition, waking up (notified, spuriously, or because the time is
  over) and taking the mutex again. The abstract queue is a plain FIFO list.
\<close>

section \<open>The deque\<close>

definition bq_push :: "'a \<Rightarrow> 'a list \<Rightarrow> 'a list" where
  "bq_push v q = v # q"

definition bq_pop :: "'a list \<Rightarrow> ('a \<times> 'a list) option" where
  "bq_pop q = (if q = [] then None else Some (last q, butlast q))"

text \<open>What a queue promises: values come out in the order in which they went in.\<close>

locale fifo_queue =
  fixes push :: "'a \<Rightarrow> 'q \<Rightarrow> 'q" and pop :: "'q \<Rightarrow> ('a \<times> 'q) option" and content :: "'q \<Rightarrow> 'a list"
  assumes content_push: "content (push v q) = content q @ [v]"
    and pop_None: "pop q = None \<longleftrightarrow> content q = []"
    and pop_Some: "pop q = Some (v, q') \<Longrightarrow> content q = v # content q'"
begin

lemma content_pushes: "content (fold push vs q) = content q @ vs"
  by (induction vs arbitrary: q) (simp_all add: content_push)

lemma pop_after_push: "content q = [] \<Longrightarrow> \<exists>q'. pop (fold push (v # vs) q) = Some (v, q') \<and> content q' = vs"
  using content_pushes[of "v # vs" q] pop_None pop_Some
  by (cases "pop (fold push (v # vs) q)") fastforce+

end

interpretation bq: fifo_queue bq_push bq_pop rev
proof
  show "bq_pop q = Some (v, q') \<Longrightarrow> rev q = v # rev q'" for q v q'
    by (cases q rule: rev_cases) (auto simp: bq_pop_def)
qed (auto simp: bq_push_def bq_pop_def)

section \<open>Threads\<close>

text \<open>
  Where a thread is. The first flag of a consumer tells \<open>try_dequeue\<close> (which waits with a timeout)
  from \<open>dequeue\<close>, the second whether its time is over.
\<close>

datatype 'a pc =
    Outside
  | Enqueue_locking 'a | Enqueue_locked 'a | Enqueue_pushed | Enqueue_notified
  | Dequeue_locking bool | Dequeue_testing bool bool | Dequeue_waiting bool | Dequeue_woken bool bool

record 'a blocking_queue =
  m_queue :: "'a list"
  m_mutex :: "nat option"
  at :: "nat \<Rightarrow> 'a pc"

definition idle_queue :: "'a blocking_queue" where
  "idle_queue = \<lparr> m_queue = [], m_mutex = None, at = (\<lambda>_. Outside) \<rparr>"

definition goto :: "nat \<Rightarrow> 'a pc \<Rightarrow> 'a blocking_queue \<Rightarrow> 'a blocking_queue" where
  "goto t p s = s\<lparr> at := (at s)(t := p) \<rparr>"

definition lock :: "nat \<Rightarrow> 'a blocking_queue \<Rightarrow> 'a blocking_queue" where
  "lock t s = s\<lparr> m_mutex := Some t \<rparr>"

definition unlock :: "'a blocking_queue \<Rightarrow> 'a blocking_queue" where
  "unlock s = s\<lparr> m_mutex := None \<rparr>"

fun waiting :: "'a pc \<Rightarrow> bool" where
  "waiting (Dequeue_waiting _) = True"
| "waiting _ = False"

text \<open>What a step does to the queue as its users see it.\<close>

datatype 'a queue_label = Internal | Enqueued 'a | Dequeued 'a | Timed_out

inductive queue_step :: "'a blocking_queue \<Rightarrow> 'a queue_label \<Rightarrow> 'a blocking_queue \<Rightarrow> bool" where
  enqueue_called: "at s t = Outside \<Longrightarrow> queue_step s Internal (goto t (Enqueue_locking v) s)"
| enqueue_lock: "at s t = Enqueue_locking v \<Longrightarrow> m_mutex s = None \<Longrightarrow>
    queue_step s Internal (goto t (Enqueue_locked v) (lock t s))"
| enqueue_push: "at s t = Enqueue_locked v \<Longrightarrow>
    queue_step s (Enqueued v) (goto t Enqueue_pushed (s\<lparr> m_queue := bq_push v (m_queue s) \<rparr>))"
| notify_one: "at s t = Enqueue_pushed \<Longrightarrow> at s u = Dequeue_waiting timed \<Longrightarrow>
    queue_step s Internal (goto u (Dequeue_woken timed False) (goto t Enqueue_notified s))"
| notify_none: "at s t = Enqueue_pushed \<Longrightarrow> \<forall>u. \<not> waiting (at s u) \<Longrightarrow>
    queue_step s Internal (goto t Enqueue_notified s)"
| enqueue_return: "at s t = Enqueue_notified \<Longrightarrow> queue_step s Internal (goto t Outside (unlock s))"
| dequeue_called: "at s t = Outside \<Longrightarrow> queue_step s Internal (goto t (Dequeue_locking timed) s)"
| dequeue_lock: "at s t = Dequeue_locking timed \<Longrightarrow> m_mutex s = None \<Longrightarrow>
    queue_step s Internal (goto t (Dequeue_testing timed False) (lock t s))"
| dequeue_wait: "at s t = Dequeue_testing timed False \<Longrightarrow> bq_pop (m_queue s) = None \<Longrightarrow>
    queue_step s Internal (goto t (Dequeue_waiting timed) (unlock s))"
| woken_spuriously: "at s t = Dequeue_waiting timed \<Longrightarrow>
    queue_step s Internal (goto t (Dequeue_woken timed False) s)"
| time_is_over: "at s t = Dequeue_waiting True \<Longrightarrow> queue_step s Internal (goto t (Dequeue_woken True True) s)"
| dequeue_relock: "at s t = Dequeue_woken timed expired \<Longrightarrow> m_mutex s = None \<Longrightarrow>
    queue_step s Internal (goto t (Dequeue_testing timed expired) (lock t s))"
| try_dequeue_false: "at s t = Dequeue_testing timed True \<Longrightarrow> bq_pop (m_queue s) = None \<Longrightarrow>
    queue_step s Timed_out (goto t Outside (unlock s))"
| dequeue_return: "at s t = Dequeue_testing timed expired \<Longrightarrow> bq_pop (m_queue s) = Some (v, q) \<Longrightarrow>
    queue_step s (Dequeued v) (goto t Outside (unlock (s\<lparr> m_queue := q \<rparr>)))"

inductive queue_run :: "'a queue_label list \<Rightarrow> 'a blocking_queue \<Rightarrow> bool" where
  run_idle: "queue_run [] idle_queue"
| run_step: "queue_run ls s \<Longrightarrow> queue_step s l s' \<Longrightarrow> queue_run (ls @ [l]) s'"

section \<open>The abstract queue\<close>

inductive fifo_step :: "'a list \<Rightarrow> 'a queue_label \<Rightarrow> 'a list \<Rightarrow> bool" where
  "fifo_step q Internal q"
| "fifo_step q (Enqueued v) (q @ [v])"
| "fifo_step (v # q) (Dequeued v) q"
| "fifo_step [] Timed_out []"

inductive_simps fifo_step_simps [simp]:
  "fifo_step q Internal q'" "fifo_step q (Enqueued v) q'" "fifo_step q (Dequeued v) q'" "fifo_step q Timed_out q'"

inductive fifo_run :: "'a queue_label list \<Rightarrow> 'a list \<Rightarrow> bool" where
  fifo_run_idle: "fifo_run [] []"
| fifo_run_step: "fifo_run ls q \<Longrightarrow> fifo_step q l q' \<Longrightarrow> fifo_run (ls @ [l]) q'"

fun enqueued_values :: "'a queue_label list \<Rightarrow> 'a list" where
  "enqueued_values [] = []"
| "enqueued_values (Enqueued v # ls) = v # enqueued_values ls"
| "enqueued_values (_ # ls) = enqueued_values ls"

fun dequeued_values :: "'a queue_label list \<Rightarrow> 'a list" where
  "dequeued_values [] = []"
| "dequeued_values (Dequeued v # ls) = v # dequeued_values ls"
| "dequeued_values (_ # ls) = dequeued_values ls"

lemma values_append:
  "enqueued_values (ls @ ls') = enqueued_values ls @ enqueued_values ls'"
  "dequeued_values (ls @ ls') = dequeued_values ls @ dequeued_values ls'"
  by (induction ls rule: enqueued_values.induct; simp)+

lemma fifo_run_values: "fifo_run ls q \<Longrightarrow> enqueued_values ls = dequeued_values ls @ q"
proof (induction rule: fifo_run.induct)
  case (fifo_run_step ls q l q')
  then show ?case by (cases l) (auto simp: values_append)
qed simp

section \<open>The mutex\<close>

fun critical :: "'a pc \<Rightarrow> bool" where
  "critical (Enqueue_locked _) = True"
| "critical Enqueue_pushed = True"
| "critical Enqueue_notified = True"
| "critical (Dequeue_testing _ _) = True"
| "critical _ = False"

definition mutex_ok :: "'a blocking_queue \<Rightarrow> bool" where
  "mutex_ok s \<longleftrightarrow> (\<forall>t. critical (at s t) \<longleftrightarrow> m_mutex s = Some t)"

lemmas system_defs = goto_def lock_def unlock_def

lemma mutex_ok_goto: "mutex_ok s \<Longrightarrow> critical p = critical (at s t) \<Longrightarrow> mutex_ok (goto t p s)"
  by (auto simp: mutex_ok_def system_defs)

lemma mutex_ok_lock: "mutex_ok s \<Longrightarrow> m_mutex s = None \<Longrightarrow> critical p \<Longrightarrow> mutex_ok (goto t p (lock t s))"
  by (auto simp: mutex_ok_def system_defs)

lemma mutex_ok_unlock: "mutex_ok s \<Longrightarrow> critical (at s t) \<Longrightarrow> \<not> critical p \<Longrightarrow> mutex_ok (goto t p (unlock s))"
  by (auto simp: mutex_ok_def system_defs)

lemma mutex_ok_queue [simp]: "mutex_ok (s\<lparr> m_queue := q \<rparr>) = mutex_ok s"
  by (simp add: mutex_ok_def)

lemma at_goto [simp]: "at (goto t p s) u = (if u = t then p else at s u)"
  by (simp add: goto_def)

lemma mutex_ok_step: "queue_step s l s' \<Longrightarrow> mutex_ok s \<Longrightarrow> mutex_ok s'"
proof (induction rule: queue_step.induct)
  case (notify_one s t u timed)
  then show ?case by (intro mutex_ok_goto) auto
qed (auto intro: mutex_ok_goto mutex_ok_lock mutex_ok_unlock)

lemma step_refines: "queue_step s l s' \<Longrightarrow> fifo_step (rev (m_queue s)) l (rev (m_queue s'))"
  by (induction rule: queue_step.induct)
     (auto simp: system_defs bq.content_push bq.pop_None dest: bq.pop_Some)

section \<open>Wake-ups\<close>

text \<open>A consumer that is neither waiting nor done will test the queue without being notified.\<close>

fun awake :: "'a pc \<Rightarrow> bool" where
  "awake (Dequeue_locking _) = True"
| "awake (Dequeue_testing _ _) = True"
| "awake (Dequeue_woken _ _) = True"
| "awake _ = False"

definition awake_threads :: "'a blocking_queue \<Rightarrow> nat set" where
  "awake_threads s = {t. awake (at s t)}"

text \<open>Values not yet covered by a notification: one while its producer is about to notify.\<close>

definition wakeups_ok :: "'a blocking_queue \<Rightarrow> bool" where
  "wakeups_ok s \<longleftrightarrow> finite (awake_threads s) \<and>
     ((\<exists>t. waiting (at s t)) \<longrightarrow>
        length (m_queue s) \<le> card (awake_threads s) + (if \<exists>t. at s t = Enqueue_pushed then 1 else 0))"

lemma in_awake: "t \<in> awake_threads s \<longleftrightarrow> awake (at s t)"
  by (simp add: awake_threads_def)

lemma awake_threads_goto:
  "awake_threads (goto t p s) = (if awake p then insert t (awake_threads s) else awake_threads s - {t})"
  by (auto simp: awake_threads_def)

lemma frame_simps [simp]:
  "at (lock t s) = at s" "at (unlock s) = at s" "m_queue (goto t p s) = m_queue s"
  "m_queue (lock t s) = m_queue s" "m_queue (unlock s) = m_queue s"
  "awake_threads (lock t s) = awake_threads s" "awake_threads (unlock s) = awake_threads s"
  "awake_threads (s\<lparr> m_queue := q \<rparr>) = awake_threads s"
  by (simp_all add: system_defs awake_threads_def)

lemma finite_goto [simp]: "finite (awake_threads (goto t p s)) = finite (awake_threads s)"
  by (simp add: awake_threads_goto)

lemma card_goto:
  assumes "finite (awake_threads s)"
  shows "card (awake_threads (goto t p s)) + (if awake (at s t) then 1 else 0) =
    card (awake_threads s) + (if awake p then 1 else 0)"
  using assms card_Suc_Diff1[of "awake_threads s" t]
  by (auto simp: awake_threads_goto in_awake card_insert_if)

lemma only_pushed: "mutex_ok s \<Longrightarrow> critical (at s t) \<Longrightarrow> at s u = Enqueue_pushed \<Longrightarrow> u = t"
  by (metis mutex_ok_def critical.simps(2) option.inject)

lemma wakeups_okD: "wakeups_ok s \<Longrightarrow> waiting (at s t) \<Longrightarrow> \<not> (\<exists>u. at s u = Enqueue_pushed) \<Longrightarrow>
    length (m_queue s) \<le> card (awake_threads s)"
  "wakeups_ok s \<Longrightarrow> waiting (at s t) \<Longrightarrow> length (m_queue s) \<le> card (awake_threads s) + 1"
  by (auto simp: wakeups_ok_def split: if_splits; fastforce)+

lemma wakeups_okI:
  assumes "finite (awake_threads s)"
    and "\<And>t. waiting (at s t) \<Longrightarrow> length (m_queue s) \<le> card (awake_threads s) \<or>
      length (m_queue s) \<le> card (awake_threads s) + 1 \<and> (\<exists>u. at s u = Enqueue_pushed)"
  shows "wakeups_ok s"
  using assms unfolding wakeups_ok_def by fastforce

text \<open>A thread that moves on without touching the deque, without going to wait and without giving up.\<close>

lemma wakeups_ok_goto:
  assumes "wakeups_ok s" "\<not> waiting p" "awake (at s t) \<longrightarrow> awake p" "at s t \<noteq> Enqueue_pushed"
  shows "wakeups_ok (goto t p s)"
proof (rule wakeups_okI)
  show fin: "finite (awake_threads (goto t p s))" using assms(1) by (simp add: wakeups_ok_def)
  fix u assume "waiting (at (goto t p s) u)"
  with assms(2) have u: "u \<noteq> t" "waiting (at s u)" by (auto split: if_splits)
  have le: "card (awake_threads s) \<le> card (awake_threads (goto t p s))"
    using card_goto[of s t p] fin assms(3) by (auto split: if_splits)
  show "length (m_queue (goto t p s)) \<le> card (awake_threads (goto t p s)) \<or>
     length (m_queue (goto t p s)) \<le> card (awake_threads (goto t p s)) + 1 \<and> (\<exists>v. at (goto t p s) v = Enqueue_pushed)"
  proof (cases "\<exists>v. at s v = Enqueue_pushed")
    case True
    then have "\<exists>v. at (goto t p s) v = Enqueue_pushed" using assms(4) by (metis at_goto)
    moreover have "length (m_queue s) \<le> card (awake_threads (goto t p s)) + 1"
      using wakeups_okD(2)[OF assms(1) u(2)] le by linarith
    ultimately show ?thesis by simp
  next
    case False
    from wakeups_okD(1)[OF assms(1) u(2) this] le show ?thesis by simp
  qed
qed

lemma wakeups_ok_frame [simp]: "wakeups_ok (lock t s) = wakeups_ok s" "wakeups_ok (unlock s) = wakeups_ok s"
  by (simp_all add: wakeups_ok_def)

lemma wakeups_ok_empty: "wakeups_ok s \<Longrightarrow> m_queue s = [] \<Longrightarrow> wakeups_ok (goto t p s)"
  by (simp add: wakeups_ok_def)

lemma wakeups_ok_step:
  assumes "queue_step s l s'" "mutex_ok s" "wakeups_ok s"
  shows "wakeups_ok s'"
  using assms
proof (induction rule: queue_step.induct)
  case (enqueue_push s t v)
  let ?s = "goto t Enqueue_pushed (s\<lparr> m_queue := bq_push v (m_queue s) \<rparr>)"
  from enqueue_push have none: "\<not> (\<exists>u. at s u = Enqueue_pushed)" using only_pushed[of s t] by fastforce
  from enqueue_push(3) have "awake_threads ?s = awake_threads s" "finite (awake_threads s)"
    using enqueue_push(1) by (auto simp: awake_threads_goto in_awake wakeups_ok_def)
  with enqueue_push wakeups_okD(1)[OF _ _ none] show ?case
    by (intro wakeups_okI) (auto simp: bq_push_def split: if_splits)
next
  case (notify_one s t u timed)
  then have "u \<noteq> t" "finite (awake_threads s)" "length (m_queue s) \<le> card (awake_threads s) + 1"
    using wakeups_okD(2)[of s u] by (auto simp: wakeups_ok_def)
  with notify_one show ?case
    using card_goto[of s t Enqueue_notified] card_goto[of "goto t Enqueue_notified s" u "Dequeue_woken timed False"]
    by (intro wakeups_okI) auto
next
  case (notify_none s t)
  then show ?case by (intro wakeups_okI) (auto simp: wakeups_ok_def split: if_splits)
next
  case (dequeue_return s t timed expired v q)
  let ?s = "goto t Outside (unlock (s\<lparr> m_queue := q \<rparr>))"
  from dequeue_return have none: "\<not> (\<exists>u. at s u = Enqueue_pushed)" using only_pushed[of s t] by fastforce
  from dequeue_return have len: "length (m_queue s) = Suc (length q)"
    using bq.pop_Some[of "m_queue s" v q] by (metis length_Cons length_rev)
  from dequeue_return have fin: "finite (awake_threads s)" by (simp add: wakeups_ok_def)
  with dequeue_return(1) have "Suc (card (awake_threads ?s)) = card (awake_threads s)"
    using card_goto[of "unlock (s\<lparr> m_queue := q \<rparr>)" t Outside] by simp
  with fin len dequeue_return wakeups_okD(1)[OF _ _ none] show ?case
    by (intro wakeups_okI) (fastforce split: if_splits)+
qed (auto intro: wakeups_ok_goto wakeups_ok_empty simp: bq.pop_None)

lemma queue_run_ok: "queue_run ls s \<Longrightarrow> mutex_ok s \<and> wakeups_ok s \<and> fifo_run ls (rev (m_queue s))"
proof (induction rule: queue_run.induct)
  case run_idle
  show ?case by (simp add: idle_queue_def mutex_ok_def wakeups_ok_def awake_threads_def fifo_run_idle)
next
  case (run_step ls s l s')
  then show ?case
    using mutex_ok_step wakeups_ok_step fifo_run_step[OF _ step_refines] by blast
qed

section \<open>Properties\<close>

text \<open>
  C21: the queue is a FIFO queue. Whatever the number of threads and however their steps
  interleave, time-outs and spurious wake-ups included, every run is a run of the abstract queue:
  the values dequeued so far, followed by the contents of the deque, are the values enqueued, in
  their order, each value is delivered to one consumer only, and \<open>try_dequeue\<close> gives up only on an
  empty queue.
\<close>

theorem blocking_queue_is_fifo:
  assumes "queue_run ls s"
  shows "fifo_run ls (rev (m_queue s)) \<and> enqueued_values ls = dequeued_values ls @ rev (m_queue s)"
  using queue_run_ok[OF assms] fifo_run_values by blast

text \<open>
  C22: no wake-up is lost. While values are queued and some consumer still waits, as many consumers
  as there are values are awake and about to test the queue, a value whose producer has not
  notified yet apart: no consumer sleeps on a queue that nobody else will empty. And at most one
  thread at a time is inside the critical section.
\<close>

theorem no_lost_wakeup:
  assumes "queue_run ls s" "waiting (at s t)"
  shows "(length (m_queue s) \<le> card {u. awake (at s u)} \<or>
      length (m_queue s) = card {u. awake (at s u)} + 1 \<and> (\<exists>u. at s u = Enqueue_pushed)) \<and>
    (\<forall>u v. critical (at s u) \<and> critical (at s v) \<longrightarrow> u = v)"
proof -
  from queue_run_ok[OF assms(1)] have ok: "mutex_ok s" "wakeups_ok s" by auto
  from wakeups_okD[OF ok(2) assms(2)] ok(1) show ?thesis
    unfolding awake_threads_def mutex_ok_def by (metis Suc_eq_plus1 le_SucE option.inject)
qed

text \<open>A consumer has gone to wait, then a producer has pushed a value and not yet notified.\<close>

definition sample_queue :: "nat blocking_queue" where
  "sample_queue = \<lparr> m_queue = [7], m_mutex = Some 1,
     at = ((\<lambda>_. Outside)(0 := Dequeue_waiting False))(1 := Enqueue_pushed) \<rparr>"

lemma sample_queue_run: "queue_run [Internal, Internal, Internal, Internal, Internal, Enqueued 7] sample_queue"
proof -
  have "queue_run ([] @ [Internal]) (goto 0 (Dequeue_locking False) idle_queue)" (is "queue_run _ ?s1")
    by (rule run_step[OF run_idle dequeue_called]) (simp add: idle_queue_def)
  from run_step[OF this dequeue_lock[of _ 0 False]]
  have "queue_run [Internal, Internal] (goto 0 (Dequeue_testing False False) (lock 0 ?s1))" (is "queue_run _ ?s2")
    by (simp add: idle_queue_def system_defs)
  from run_step[OF this dequeue_wait[of _ 0 False]]
  have "queue_run [Internal, Internal, Internal] (goto 0 (Dequeue_waiting False) (unlock ?s2))" (is "queue_run _ ?s3")
    by (simp add: idle_queue_def system_defs bq_pop_def)
  from run_step[OF this enqueue_called[of _ 1 7]]
  have "queue_run [Internal, Internal, Internal, Internal] (goto 1 (Enqueue_locking 7) ?s3)" (is "queue_run _ ?s4")
    by (simp add: idle_queue_def system_defs)
  from run_step[OF this enqueue_lock[of _ 1 7]]
  have "queue_run [Internal, Internal, Internal, Internal, Internal] (goto 1 (Enqueue_locked 7) (lock 1 ?s4))" (is "queue_run _ ?s5")
    by (simp add: idle_queue_def system_defs)
  from run_step[OF this enqueue_push[of _ 1 7]] show ?thesis
    by (simp add: idle_queue_def system_defs bq_push_def sample_queue_def)
qed

theorem blocking_queue_is_fifo_witness:
  "fifo_run [Internal, Internal, Internal, Internal, Internal, Enqueued 7] [7::nat]"
  using blocking_queue_is_fifo[OF sample_queue_run] by (simp add: sample_queue_def)

theorem no_lost_wakeup_witness:
  "waiting (at sample_queue 0) \<and> (length (m_queue sample_queue) \<le> card {u. awake (at sample_queue u)} \<or>
      length (m_queue sample_queue) = card {u. awake (at sample_queue u)} + 1 \<and> (\<exists>u. at sample_queue u = Enqueue_pushed))"
proof -
  have w: "waiting (at sample_queue 0)" by (simp add: sample_queue_def)
  from w no_lost_wakeup[OF sample_queue_run w] show ?thesis by blast
qed

end
