(* ===== verification/Session_Peers.thy ===== *)
theory Session_Peers
  imports Session_Receive Message_Encoding
begin

text \<open>
  What one session sends, the other accepts: the header \<open>session::send\<close> stamps on a message and the
  BodyLength and CheckSum \<open>message::encode\<close> computes pass every validation \<open>session::on_message_read\<close>
  makes on the message its peer decodes, whatever the message carries beside its header.
\<close>

section \<open>The header\<close>

definition mirrored :: "session_options \<Rightarrow> session_options \<Rightarrow> bool" where
  "mirrored opt opt' \<longleftrightarrow> m_begin_string opt' = m_begin_string opt \<and>
     m_sender_comp_id opt' = m_target_comp_id opt \<and> m_target_comp_id opt' = m_sender_comp_id opt"

text \<open>The fields \<open>send\<close> and \<open>encode\<close> fill in are there, and CheckSum is yet to be added.\<close>

definition has_header :: "message \<Rightarrow> bool" where
  "has_header m \<longleftrightarrow> {BeginString_Tag, BodyLength_Tag, SenderCompID_Tag, TargetCompID_Tag, MsgSeqNum_Tag} \<subseteq> set (tags (m_fields m)) \<and>
     CheckSum_Tag \<notin> set (tags (m_fields m))"

definition full_options :: "int \<Rightarrow> bool" where
  "full_options options \<longleftrightarrow> options AND set_checksum \<noteq> 0 \<and> options AND set_body_length \<noteq> 0 \<and> options AND set_begin_string \<noteq> 0"

lemma full_options_used [simp]: "full_options encode_standard" "full_options (encode_standard AND NOT set_msg_seq_num)"
  by (simp_all add: full_options_def encode_standard_def set_checksum_def set_body_length_def set_begin_string_def set_msg_seq_num_def)

lemma tag_set_fc_replace: "m_tag ` set (fc_replace f fs) = m_tag ` set fs"
  using tags_fc_replace[of f fs] by (metis list.set_map)

lemma tags_stamp_fields:
  "CheckSum_Tag \<notin> set (tags fs) \<Longrightarrow> options AND set_checksum \<noteq> 0 \<Longrightarrow>
   tags (stamp_fields opt options n now fs) = tags fs @ [CheckSum_Tag]"
  by (simp add: stamp_fields_def fc_set_string_def fc_set_u32_def tags_fc_replace tags_fc_upsert tag_set_fc_replace Let_def)

lemma stamped_shape:
  assumes "CheckSum_Tag \<notin> set (tags fs)" "options AND set_checksum \<noteq> 0"
  obtains pre cs where "stamp_fields opt options n now fs = pre @ [cs]" "m_tag cs = CheckSum_Tag" "tags pre = tags fs"
  using tags_stamp_fields[OF assms, of opt n now] by (auto simp: map_eq_append_conv)

section \<open>From send to the validations\<close>

text \<open>
  The message \<open>session::send\<close> hands to its writer, and what the peer decodes of the text: \<open>d\<close> has the
  fields of \<open>m\<close>, in their order, with the stamped values and a BodyLength and CheckSum that agree with
  the text it was decoded from.
\<close>

lemma decoded_as_sent:
  assumes m: "has_header m" and opt: "full_options options"
    and enc: "message_encode cap options (m\<lparr> m_fields := stamp_fields opt options n now (m_fields m) \<rparr>) = (Inr (k, out), m')" "k \<noteq> 0"
    and ok: "wire_ok dict [] (m_fields m')"
    and dec: "message_decode dict (out @ rest) empty_message = (r, d)"
  shows "r = Inr \<lparr> consumed = k, complete = True \<rparr>" "m_fields d = m_fields m'" "checksum_ok d" "body_length_ok d"
    and "t \<noteq> BodyLength_Tag \<Longrightarrow> t \<noteq> CheckSum_Tag \<Longrightarrow>
      fc_try_get t (m_fields d) = fc_try_get t (stamp_fields opt options n now (m_fields m))"
    and "tags (m_fields d) = tags (m_fields m) @ [CheckSum_Tag]"
proof -
  let ?fs = "stamp_fields opt options n now (m_fields m)" and ?m = "m\<lparr> m_fields := stamp_fields opt options n now (m_fields m) \<rparr>"
  have bits: "options AND set_checksum \<noteq> 0" "options AND set_body_length \<noteq> 0" using opt by (simp_all add: full_options_def)
  have cs_new: "CheckSum_Tag \<notin> set (tags (m_fields m))" and bl: "BodyLength_Tag \<in> set (tags (m_fields m))"
    using m by (simp_all add: has_header_def)
  obtain pre cs where shape: "m_fields ?m = pre @ [cs]" "m_tag cs = CheckSum_Tag" "tags pre = tags (m_fields m)"
    using stamped_shape[OF cs_new bits(1), of opt n now] by auto
  have npre: "CheckSum_Tag \<notin> set (tags pre)" using shape(3) cs_new by simp
  from decode_encoded[OF shape(1,2) npre bits(1) enc ok, of rest] dec obtain c where
    d: "r = Inr \<lparr> consumed = k, complete = True \<rparr>" "m_fields d = m_fields m'" "calculate_decode_checksum d = Inr c"
      "format_checksum c = Inr (m_value (last (m_fields m')))" by auto
  from encode_parts[OF shape(1,2) npre bits(1) enc] obtain pre' cks where
    p: "tags pre' = tags pre" "m_fields m' = pre' @ [field_string CheckSum_Tag cks]"
       "m_fields m' = fc_replace (field_string CheckSum_Tag cks) (with_body_length options ?m)" by metis
  show "r = Inr \<lparr> consumed = k, complete = True \<rparr>" "m_fields d = m_fields m'" by fact+
  have "fc_try_get CheckSum_Tag pre' = None" using p(1) npre by (metis fc_try_get_None_iff)
  then have "fc_try_get CheckSum_Tag (m_fields d) = Some (field_string CheckSum_Tag cks)"
    by (simp add: d(2) p(2) fc_try_get_def find_append)
  with d(3,4) show "checksum_ok d" by (simp add: checksum_ok_def p(2))
  let ?v = "calculate_body_length ?m"
  let ?f = "field_string BodyLength_Tag (u32_to_string ?v)"
  have wb: "with_body_length options ?m = fc_replace ?f ?fs" using bits(2) by (simp add: fc_set_u32_def fc_set_string_def)
  have "calculate_body_length d = ?v"
    using d(2) p(3) wb by (intro calculate_body_length_replace[of d "field_string CheckSum_Tag cks" ?f]) simp_all
  moreover have "fc_try_get BodyLength_Tag ?fs \<noteq> None"
    using tags_stamp_fields[OF cs_new bits(1)] bl by (simp add: fc_try_get_None_iff)
  then have "fc_try_get BodyLength_Tag (m_fields d) = Some ?f"
    by (simp add: d(2) p(3) wb fc_try_get_replace)
  ultimately show "body_length_ok d" by (simp add: body_length_ok_def)
  show "fc_try_get t (m_fields d) = fc_try_get t ?fs" if "t \<noteq> BodyLength_Tag" "t \<noteq> CheckSum_Tag"
    using message_encode_keeps[OF enc(1) that] d(2) by simp
  show "tags (m_fields d) = tags (m_fields m) @ [CheckSum_Tag]" using d(2) p(1,2) shape(3) by simp
qed

lemma stamped_header:
  assumes m: "has_header m" and opt: "full_options options" and mir: "mirrored opt opt'"
    and d: "\<And>t. t \<noteq> BodyLength_Tag \<Longrightarrow> t \<noteq> CheckSum_Tag \<Longrightarrow>
      fc_try_get t (m_fields d) = fc_try_get t (stamp_fields opt options n now (m_fields m))"
  shows "header_ok opt' d" "sent_as m d"
    "options AND set_msg_seq_num \<noteq> 0 \<Longrightarrow> fc_try_get MsgSeqNum_Tag (m_fields d) = Some (field_u32 MsgSeqNum_Tag n)"
    "fc_try_get SenderCompID_Tag (m_fields d) = Some (field_string SenderCompID_Tag (m_sender_comp_id opt))"
    "fc_try_get TargetCompID_Tag (m_fields d) = Some (field_string TargetCompID_Tag (m_target_comp_id opt))"
proof -
  have there: "fc_try_get t (m_fields m) \<noteq> None" if "t \<in> {BeginString_Tag, SenderCompID_Tag, TargetCompID_Tag, MsgSeqNum_Tag}" for t
    using m that by (auto simp: has_header_def fc_try_get_None_iff)
  show "header_ok opt' d"
    using opt mir there[of 8] there[of 49] there[of 56]
    by (simp add: header_ok_def d stamp_fields_apply mirrored_def full_options_def)
  show "sent_as m d" unfolding sent_as_def by (auto simp: stamped_tags_def d stamp_fields_apply)
  show "fc_try_get MsgSeqNum_Tag (m_fields d) = Some (field_u32 MsgSeqNum_Tag n)" if "options AND set_msg_seq_num \<noteq> 0"
    using that there[of 34] by (simp add: d stamp_fields_apply)
  show "fc_try_get SenderCompID_Tag (m_fields d) = Some (field_string SenderCompID_Tag (m_sender_comp_id opt))"
    "fc_try_get TargetCompID_Tag (m_fields d) = Some (field_string TargetCompID_Tag (m_target_comp_id opt))"
    using there[of 49] there[of 56] by (simp_all add: d stamp_fields_apply)
qed

section \<open>Properties\<close>

text \<open>
  C14: a session accepts what its peer sends. Take any message with a header that a session stamps
  and encodes (\<open>send\<close> with a checksum, body length and begin string asked for), whose fields fit the
  wire; the session on the other side, with the same begin string and the comp ids swapped, decodes
  it completely, and its checks of CheckSum, BodyLength, BeginString and the comp ids all pass without
  a reject or any other effect. What it decodes has the number the sender allocated and every other
  field as the sender's caller gave it.
\<close>

theorem peer_accepts_what_is_sent:
  assumes "has_header m" "full_options options" "mirrored opt (m_options (sess w))"
    and "message_encode cap options (m\<lparr> m_fields := stamp_fields opt options n now (m_fields m) \<rparr>) = (Inr (k, out), m')" "k \<noteq> 0"
    and "wire_ok dict [] (m_fields m')"
    and "message_decode dict (out @ rest) empty_message = (r, d)"
  shows "r = Inr \<lparr> consumed = k, complete = True \<rparr> \<and>
    validate_checksum io d w = (Inr True, w) \<and> validate_body_length io d w = (Inr True, w) \<and>
    validate_begin_string io d w = (Inr True, w) \<and> validate_comp_ids io d w = (Inr True, w) \<and> sent_as m d \<and>
    (options AND set_msg_seq_num \<noteq> 0 \<longrightarrow> fc_try_get MsgSeqNum_Tag (m_fields d) = Some (field_u32 MsgSeqNum_Tag n))"
proof -
  note d = decoded_as_sent[OF assms(1,2,4-7)]
  note h = stamped_header[OF assms(1-3) d(5)]
  from d(1,3,4) h show ?thesis
    by (simp add: validate_checksum_True validate_body_length_True validate_begin_string_True validate_comp_ids_True header_ok_def)
qed

end
