(* ===== verification/Session_Fixture.thy ===== *)
theory Session_Fixture
  imports Session_Peers Blocking_Queue Boost_Asio_Scheduler
begin

text \<open>
  \<open>libcrocofix_tests/test_reader.hpp\<close>, \<open>test_writer.hpp\<close>, \<open>session_fixture.hpp\<close>, \<open>session_fixture.cpp\<close>: two
  sessions in one process, joined by readers and writers that carry every message through its
  encoded text. One io_context runs what the writers post, in order. The methods the main thread calls
  run to their end before the next posted task does. \<open>dict\<close> is the generated dictionary the
  decoder reads, \<open>clock\<close> the times the calls of \<open>system_clock::now\<close> yield, one after the other.
\<close>

section \<open>State\<close>

datatype party = Initiator | Acceptor

fun peer :: "party \<Rightarrow> party" where
  "peer Initiator = Acceptor"
| "peer Acceptor = Initiator"

lemma peer_peer [simp]: "peer (peer p) = p" "peer p \<noteq> p" "p \<noteq> peer p"
  by (cases p; simp)+

text \<open>What is handed to the io_context: the closures of \<open>test_writer\<close> and the callbacks of the sessions.\<close>

datatype task = Deliver party message | Close_reader party | Callback party session_callback

text \<open>
  The reader and writer of one session: their \<open>m_closed\<close>, and the queues they report to. The queues
  hold what \<open>m_queue\<close> of the \<open>blocking_queue\<close> holds.
\<close>

record endpoint =
  reader_closed :: bool
  writer_closed :: bool
  incoming_messages :: "message list"
  outgoing_messages :: "message list"

record network =
  endpoint_of :: "party \<Rightarrow> endpoint"
  scheduler :: "task boost_asio_scheduler"
  clock_reads :: nat

record session_fixture =
  session_of :: "party \<Rightarrow> session"
  signals_of :: "party \<Rightarrow> signal list"
  state_changes_of :: "party \<Rightarrow> session_state list"
  net :: network

definition on_endpoint :: "party \<Rightarrow> (endpoint \<Rightarrow> endpoint) \<Rightarrow> network \<Rightarrow> network" where
  "on_endpoint p f e = e\<lparr> endpoint_of := (endpoint_of e)(p := f (endpoint_of e p)) \<rparr>"

definition post :: "task \<Rightarrow> network \<Rightarrow> network" where
  "post t e = e\<lparr> scheduler := scheduler_schedule t (scheduler e) \<rparr>"

section \<open>Reader and writer\<close>

definition test_reader_open :: "party \<Rightarrow> (network, unit) call" where
  "test_reader_open p e =
     (Inr (), False, if reader_closed (endpoint_of e p) then on_endpoint p (\<lambda>x. x\<lparr> reader_closed := False \<rparr>) e else e)"

definition test_reader_close :: "party \<Rightarrow> (network, unit) call" where
  "test_reader_close p e =
     (if \<not> reader_closed (endpoint_of e p) then (Inr (), True, on_endpoint p (\<lambda>x. x\<lparr> reader_closed := True \<rparr>) e)
      else (Inr (), False, e))"

definition test_writer_close :: "party \<Rightarrow> (network, unit) call" where
  "test_writer_close p e =
     (if \<not> writer_closed (endpoint_of e p)
      then (Inr (), True, post (Close_reader (peer p)) (on_endpoint p (\<lambda>x. x\<lparr> writer_closed := True \<rparr>) e))
      else (Inr (), False, e))"

definition test_buffer_size :: nat where
  "test_buffer_size = 8192"

definition test_writer_write :: "orchestration_field_collection \<Rightarrow> party \<Rightarrow> message \<Rightarrow> int \<Rightarrow> (network, message) call" where
  "test_writer_write dict p outgoing options e =
     (if writer_closed (endpoint_of e p) then (Inr outgoing, False, e)
      else case message_encode test_buffer_size options outgoing of
        (Inl ex, _) \<Rightarrow> (Inl ex, False, e)
      | (Inr (encode_result, text), outgoing') \<Rightarrow>
          (if encode_result = 0 then (Inl (Runtime_error ''failed to encode message''), False, e)
           else case message_decode dict text empty_message of
             (Inl ex, _) \<Rightarrow> (Inl ex, False, e)
           | (Inr result, decoded) \<Rightarrow>
               (if \<not> complete result then (Inl (Runtime_error ''failed to decode message''), False, e)
                else (Inr outgoing', False,
                      post (Deliver (peer p) decoded)
                        (on_endpoint p (\<lambda>x. x\<lparr> outgoing_messages := bq_push decoded (outgoing_messages x) \<rparr>) e)))))"

definition fixture_links :: "orchestration_field_collection \<Rightarrow> orchestration \<Rightarrow> (nat \<Rightarrow> utc_time) \<Rightarrow> party \<Rightarrow> network links" where
  "fixture_links dict orch clock p =
     \<lparr> reader_open = test_reader_open p,
       reader_close = test_reader_close p,
       writer_write = test_writer_write dict p,
       writer_close = test_writer_close p,
       schedule_relative_callback = (\<lambda>when cb e.
         case asio_schedule_relative_callback when (Callback p cb) (scheduler e) of (r, sch) \<Rightarrow> (r, e\<lparr> scheduler := sch \<rparr>)),
       schedule_repeating_callback = (\<lambda>when cb e.
         case asio_schedule_repeating_callback when (Callback p cb) (scheduler e) of (r, sch) \<Rightarrow> (r, e\<lparr> scheduler := sch \<rparr>)),
       cancel_callback = (\<lambda>token e. (Inr (), e\<lparr> scheduler := asio_cancel_callback token (scheduler e) \<rparr>)),
       system_clock_now = (\<lambda>e. (clock (clock_reads e), e\<lparr> clock_reads := Suc (clock_reads e) \<rparr>)),
       m_orchestration = orch \<rparr>"

section \<open>Running the parties\<close>

text \<open>
  A method of one party's session, on that session and the network they share. The function the
  fixture connects to \<open>state_changed\<close> enqueues the state each such signal leads to.
\<close>

fun state_targets :: "signal list \<Rightarrow> session_state list" where
  "state_targets [] = []"
| "state_targets (State_changed a b # sigs) = b # state_targets sigs"
| "state_targets (sig # sigs) = state_targets sigs"

definition with_party :: "party \<Rightarrow> (network, 'a) action \<Rightarrow> (session_fixture, 'a) proc" where
  "with_party p act fx =
     (case act \<lparr> sess = session_of fx p, outside = net fx, emitted = signals_of fx p \<rparr> of
        (r, w) \<Rightarrow> (r, fx\<lparr> session_of := (session_of fx)(p := sess w), signals_of := (signals_of fx)(p := emitted w),
              state_changes_of := (state_changes_of fx)(p := fold bq_push
                (state_targets (drop (length (signals_of fx p)) (emitted w))) (state_changes_of fx p)),
              net := outside w \<rparr>))"

definition test_reader_deliver :: "(party \<Rightarrow> network links) \<Rightarrow> party \<Rightarrow> message \<Rightarrow> (session_fixture, unit) proc" where
  "test_reader_deliver io p m =
     bindP (getP (\<lambda>fx. reader_closed (endpoint_of (net fx) p))) (\<lambda>closed.
       whenP (\<not> closed)
         (seqP (modifyP (\<lambda>fx. fx\<lparr> net := on_endpoint p (\<lambda>x. x\<lparr> incoming_messages := bq_push m (incoming_messages x) \<rparr>) (net fx) \<rparr>))
               (with_party p (on_message_read (io p) m))))"

fun run_task :: "(party \<Rightarrow> network links) \<Rightarrow> task \<Rightarrow> (session_fixture, unit) proc" where
  "run_task io (Deliver p m) = test_reader_deliver io p m"
| "run_task io (Close_reader p) = with_party p (external (test_reader_close p))"
| "run_task io (Callback p cb) = with_party p (run_callback (io p) cb)"

text \<open>\<open>io_context::run\<close> takes the first task that was posted; \<open>run_tasks n\<close> runs as many as \<open>n\<close> of them.\<close>

definition run_next :: "(party \<Rightarrow> network links) \<Rightarrow> (session_fixture, unit) proc" where
  "run_next io = (\<lambda>fx.
     (case posted (scheduler (net fx)) of
        [] \<Rightarrow> (Inr (), fx)
      | t # ts \<Rightarrow> run_task io t (fx\<lparr> net := (net fx)\<lparr> scheduler := (scheduler (net fx))\<lparr> posted := ts \<rparr> \<rparr> \<rparr>)))"

fun run_tasks :: "(party \<Rightarrow> network links) \<Rightarrow> nat \<Rightarrow> (session_fixture, unit) proc" where
  "run_tasks io 0 = returnP ()"
| "run_tasks io (Suc n) = seqP (run_next io) (run_tasks io n)"

section \<open>Messages that travel\<close>

text \<open>
  A field a message of the session layer may carry: a tag of up to three digits that the dictionary
  knows as no data field, and a value of ASCII characters without the separator, of at most 500. The
  bounds leave room for fourteen such fields in the buffer of 8192 bytes.
\<close>

definition short_text :: "string \<Rightarrow> bool" where
  "short_text v \<longleftrightarrow> length v \<le> 500 \<and> (\<forall>c \<in> set v. (of_char c :: nat) < 128 \<and> c \<noteq> field_separator)"

definition known_tag :: "orchestration_field_collection \<Rightarrow> int \<Rightarrow> bool" where
  "known_tag dict t \<longleftrightarrow> 0 \<le> t \<and> t < 1000 \<and>
     (case field_at dict (word_of_int t) of Inl _ \<Rightarrow> False | Inr d \<Rightarrow> \<not> of_is_data d)"

definition short_field :: "orchestration_field_collection \<Rightarrow> field \<Rightarrow> bool" where
  "short_field dict f \<longleftrightarrow> known_tag dict (m_tag f) \<and> short_text (m_value f)"

lemma digit_ascii: "is_digit c \<Longrightarrow> (of_char c :: nat) < 128 \<and> c \<noteq> field_separator"
  by (auto simp: is_digit_def)

lemma short_digits: "length (nat_to_string n) \<le> 500 \<Longrightarrow> short_text (nat_to_string n)"
  using nat_to_string_set digit_ascii by (auto simp: short_text_def)

lemma short_u32: "short_text (u32_to_string v)"
proof -
  have "unat v < 2 ^ 32" using unsigned_less[of v] by simp
  then have "length (nat_to_string (unat v)) \<le> 10" by (simp add: length_nat_to_string_le)
  then show ?thesis by (simp add: u32_to_string_def short_digits)
qed

lemma short_zero_pad:
  assumes "short_text s"
  shows "short_text (zero_pad 3 s)"
proof -
  have "set (zero_pad 3 s) \<subseteq> insert (CHR ''0'') (set s)" unfolding zero_pad_def by (simp add: set_replicate_conv_if subset_insertI)
  moreover have "(of_char (CHR ''0'') :: nat) < 128 \<and> CHR ''0'' \<noteq> field_separator" by simp
  moreover have "length (zero_pad 3 s) \<le> 500" using assms unfolding zero_pad_def short_text_def by simp linarith
  ultimately show ?thesis using assms unfolding short_text_def by blast
qed

lemma short_checksum: "short_text (zero_pad 3 (nat_to_string (n mod 256)))"
proof (rule short_zero_pad, rule short_digits)
  have "n mod 256 < 10 ^ 3" using mod_less_divisor[of 256 n] by simp
  then have "length (nat_to_string (n mod 256)) \<le> 3" using length_nat_to_string_le[of 3 "n mod 256"] by simp
  then show "length (nat_to_string (n mod 256)) \<le> 500" by linarith
qed

lemma short_field_text:
  assumes "short_field dict f"
  shows "length (field_text f) \<le> 505" "\<forall>c \<in> set (field_text f). (of_char c :: nat) < 128"
proof -
  have t: "int_to_string (m_tag f) = nat_to_string (nat (m_tag f))" "nat (m_tag f) < 10 ^ 3"
    using assms by (auto simp: short_field_def known_tag_def int_to_string_def nat_less_iff)
  have l: "length (nat_to_string (nat (m_tag f))) \<le> 3" using t(2) by (simp add: length_nat_to_string_le)
  then have "short_text (nat_to_string (nat (m_tag f)))" by (simp add: short_digits)
  with assms l t(1) show "length (field_text f) \<le> 505" "\<forall>c \<in> set (field_text f). (of_char c :: nat) < 128"
    by (auto simp: short_field_def short_text_def field_text_def)
qed

lemma short_wire_text:
  "\<forall>f \<in> set fs. short_field dict f \<Longrightarrow> length (wire_text fs) \<le> 505 * length fs"
  "\<forall>f \<in> set fs. short_field dict f \<Longrightarrow> \<forall>c \<in> set (wire_text fs). (of_char c :: nat) < 128"
  by (induction fs) (use short_field_text in \<open>fastforce+\<close>)

lemma short_wire_ok: "\<forall>f \<in> set fs. short_field dict f \<Longrightarrow> wire_ok dict prevs fs"
  by (induction fs arbitrary: prevs)
     (auto simp: short_field_def known_tag_def short_text_def wire_field_ok_def int32_range_def split: sum.splits)

lemma set_replace_first: "set (replace_first P y xs) \<subseteq> insert y (set xs)"
  by (induction xs) auto

lemma short_message_encodes:
  assumes m: "has_header m" and opt: "full_options options"
    and short: "\<forall>f \<in> set (stamp_fields opt options n now (m_fields m)). short_field dict f" "length (m_fields m) \<le> 14"
  obtains k out m' where
    "message_encode test_buffer_size options (m\<lparr> m_fields := stamp_fields opt options n now (m_fields m) \<rparr>) = (Inr (k, out), m')"
    "k \<noteq> 0" "wire_ok dict [] (m_fields m')"
proof -
  let ?fs = "stamp_fields opt options n now (m_fields m)"
  let ?m = "m\<lparr> m_fields := ?fs \<rparr>"
  let ?f = "field_string BodyLength_Tag (u32_to_string (calculate_body_length ?m))"
  have bits: "options AND set_checksum \<noteq> 0" "options AND set_body_length \<noteq> 0" using opt by (simp_all add: full_options_def)
  have cs: "CheckSum_Tag \<notin> set (tags (m_fields m))" and bl: "BodyLength_Tag \<in> set (tags (m_fields m))"
    using m by (simp_all add: has_header_def)
  have tags: "tags (fc_replace ?f ?fs) = tags (m_fields m) @ [CheckSum_Tag]"
    using tags_stamp_fields[OF cs bits(1)] by (simp add: tags_fc_replace)
  then obtain pre c where gs: "fc_replace ?f ?fs = pre @ [c]" "m_tag c = CheckSum_Tag" "tags pre = tags (m_fields m)"
    by (auto simp: map_eq_append_conv)
  have wb: "with_body_length options ?m = pre @ [c]" using bits(2) gs(1) by (simp add: fc_set_u32_def fc_set_string_def)
  have "BodyLength_Tag \<in> set (tags ?fs)" using tags_stamp_fields[OF cs bits(1)] bl by simp
  then have "known_tag dict BodyLength_Tag" using short(1) by (auto simp: short_field_def)
  then have "short_field dict ?f" by (simp add: short_field_def short_u32)
  then have sh: "\<forall>f \<in> set (pre @ [c]). short_field dict f"
    using short(1) set_replace_first[of "has_tag BodyLength_Tag" ?f ?fs] gs(1) by (auto simp: fc_set_Replace_first_conv)
  have n: "length pre \<le> 14" using gs(3) short(2) by (metis length_map)
  let ?c = "field_string CheckSum_Tag (zero_pad 3 (nat_to_string (byte_sum (wire_text pre) mod 256)))"
  have fit: "length (wire_text pre) + 7 \<le> test_buffer_size"
    using short_wire_text(1)[of pre dict] sh n by (auto simp: test_buffer_size_def)
  have "encode_loop test_buffer_size options (pre @ [c]) [] (pre @ [c]) = (Inr (Some (wire_text (pre @ [?c]))), pre @ [?c])"
    using encode_loop_succeeds[OF gs(2) _ bits(1) _ fit] short_wire_text(2)[of pre dict] sh cs gs(3) by (simp add: Let_def)
  then have enc: "message_encode test_buffer_size options ?m =
      (Inr (length (wire_text (pre @ [?c])), wire_text (pre @ [?c])), ?m\<lparr> m_fields := pre @ [?c] \<rparr>)"
    unfolding message_encode_def wb Let_def by simp
  have "short_field dict ?c" using sh gs(2) by (simp add: short_field_def short_checksum)
  then have "wire_ok dict [] (pre @ [?c])" using sh by (intro short_wire_ok) auto
  with enc show thesis by (intro that[OF enc]) (auto simp: field_text_def)
qed

section \<open>The fixture\<close>

text \<open>The constructor: two new sessions, and the options it sets on them.\<close>

definition new_fixture :: session_fixture where
  "new_fixture = \<lparr> session_of = (\<lambda>_. initial_session), signals_of = (\<lambda>_. []), state_changes_of = (\<lambda>_. []),
     net = \<lparr> endpoint_of = (\<lambda>_. \<lparr> reader_closed = False, writer_closed = False, incoming_messages = [], outgoing_messages = [] \<rparr>),
             scheduler = make_scheduler, clock_reads = 0 \<rparr> \<rparr>"

definition configure_fixture :: "(session_fixture, unit) proc" where
  "configure_fixture =
     seqP (with_party Initiator
       (seqP (set_test_request_delay 0) (seqP (set_begin_string_option ''FIXT.1.1'')
       (seqP (set_sender_comp_id ''INITIATOR'') (set_target_comp_id ''ACCEPTOR'')))))
     (with_party Acceptor
       (seqP (set_logon_behaviour acceptor) (seqP (set_test_request_delay 0) (seqP (set_begin_string_option ''FIXT.1.1'')
       (seqP (set_sender_comp_id ''ACCEPTOR'') (set_target_comp_id ''INITIATOR''))))))"

end
