(* ===== verification/Fixture_Transport.thy ===== *)
theory Fixture_Transport
  imports Session_Fixture
begin

text \<open>
  How messages travel between the two sessions of the fixture: what arrives when one of them sends,
  the steps of the scheduler that deliver it, and the record the queues keep of both.
\<close>

section \<open>What arrives\<close>

text \<open>\<open>d\<close> is what the peer of a session with options \<open>opt\<close> decodes of the message \<open>m\<close> sent with number \<open>n\<close>.\<close>

definition carries :: "session_options \<Rightarrow> message \<Rightarrow> u32 \<Rightarrow> message \<Rightarrow> bool" where
  "carries opt m n d \<longleftrightarrow> checksum_ok d \<and> body_length_ok d \<and> (\<forall>opt'. mirrored opt opt' \<longrightarrow> header_ok opt' d) \<and>
     sent_as m d \<and> fc_try_get MsgSeqNum_Tag (m_fields d) = Some (field_u32 MsgSeqNum_Tag n) \<and>
     fc_try_get SenderCompID_Tag (m_fields d) = Some (field_string SenderCompID_Tag (m_sender_comp_id opt)) \<and>
     fc_try_get TargetCompID_Tag (m_fields d) = Some (field_string TargetCompID_Tag (m_target_comp_id opt)) \<and>
     tags (m_fields d) = tags (m_fields m) @ [CheckSum_Tag]"

text \<open>The network after a send.\<close>

definition sent_net :: "party \<Rightarrow> message \<Rightarrow> network \<Rightarrow> network" where
  "sent_net p d e = post (Deliver (peer p) d)
     (on_endpoint p (\<lambda>x. x\<lparr> outgoing_messages := bq_push d (outgoing_messages x) \<rparr>) (e\<lparr> clock_reads := Suc (clock_reads e) \<rparr>))"

definition header_tags :: "int list" where
  "header_tags = [BeginString_Tag, BodyLength_Tag, MsgType_Tag, SenderCompID_Tag, TargetCompID_Tag, MsgSeqNum_Tag,
     SendingTime_Tag, CheckSum_Tag]"

text \<open>Options, a clock and a dictionary with which every message of the session layer is encoded and decoded.\<close>

definition wire_safe :: "orchestration_field_collection \<Rightarrow> (nat \<Rightarrow> utc_time) \<Rightarrow> session_options \<Rightarrow> bool" where
  "wire_safe dict clock opt \<longleftrightarrow> short_text (m_begin_string opt) \<and> short_text (m_sender_comp_id opt) \<and>
     short_text (m_target_comp_id opt) \<and> (\<forall>n. short_text (timestamp_string (m_timestamp_format opt) (clock n))) \<and>
     list_all (known_tag dict) header_tags"

lemma set_fc_replace: "set (fc_replace f fs) \<subseteq> insert f (set fs)"
  using set_replace_first by (simp add: fc_set_Replace_first_conv)

lemma set_fc_upsert: "set (fc_upsert f fs) \<subseteq> insert f (set fs)"
  using set_replace_first[of "has_tag (m_tag f)" f fs] by (auto simp: fc_set_def split: option.splits)

definition all_short :: "orchestration_field_collection \<Rightarrow> field_collection \<Rightarrow> bool" where
  "all_short dict fs \<longleftrightarrow> (\<forall>f \<in> set fs. short_field dict f)"

lemma all_short_simps [simp]:
  "all_short dict []" "all_short dict (f # fs) \<longleftrightarrow> short_field dict f \<and> all_short dict fs"
  by (auto simp: all_short_def)

lemma all_short_set:
  "all_short dict fs \<Longrightarrow> short_field dict g \<Longrightarrow> all_short dict (fc_replace g fs)"
  "all_short dict fs \<Longrightarrow> short_field dict g \<Longrightarrow> all_short dict (fc_upsert g fs)"
  unfolding all_short_def using set_fc_replace[of g fs] set_fc_upsert[of g fs] by blast+

lemma header_field_short:
  "wire_safe dict clock opt \<Longrightarrow> t \<in> set header_tags \<Longrightarrow> short_text v \<Longrightarrow> short_field dict (field_string t v)"
  by (auto simp: wire_safe_def short_field_def list_all_iff)

lemma short_Nil: "short_text []"
  by (simp add: short_text_def)

lemma short_stamped:
  assumes "wire_safe dict clock opt" "all_short dict fs"
  shows "all_short dict (stamp_fields opt options n (clock k) fs)"
proof -
  note h = header_field_short[OF assms(1)]
  have v: "short_text (m_begin_string opt)" "short_text (m_sender_comp_id opt)" "short_text (m_target_comp_id opt)"
    "short_text (timestamp_string (m_timestamp_format opt) (clock k))"
    using assms(1) by (simp_all add: wire_safe_def)
  have t: "8 \<in> set header_tags" "49 \<in> set header_tags" "56 \<in> set header_tags" "34 \<in> set header_tags" "52 \<in> set header_tags"
    "10 \<in> set header_tags" by (simp_all add: header_tags_def)
  show ?thesis
    unfolding stamp_fields_def Let_def fc_set_string_def fc_set_u32_def
    by (simp add: all_short_set assms(2) h[OF t(1) v(1)] h[OF t(2) v(2)] h[OF t(3) v(3)] h[OF t(4) short_u32] h[OF t(5) v(4)]
        h[OF t(6) short_Nil])
qed

lemma length_fc_upsert: "length (fc_upsert f fs) \<le> Suc (length fs)"
  by (simp add: fc_set_def split: option.splits)

lemma all_short_built:
  assumes "wire_safe dict clock opt" "all_short dict fs"
  shows "all_short dict (m_fields (make_message True fs))"
proof -
  have "all_short dict gs \<Longrightarrow> all_short dict (fold fc_upsert fs gs)" for gs
    using assms(2) by (induction fs arbitrary: gs) (simp_all add: all_short_set)
  moreover have "all_short dict header_fields"
    unfolding header_fields_def
    by (simp add: header_field_short[OF assms(1) _ short_Nil] header_tags_def)
  ultimately show ?thesis by (simp add: make_message_def fc_set_all_fold)
qed

lemma length_built: "length (m_fields (make_message True fs)) \<le> 7 + length fs"
proof -
  have "length (fold fc_upsert fs gs) \<le> length gs + length fs" for gs
    by (induction fs arbitrary: gs) (simp, use length_fc_upsert in \<open>fastforce intro: order_trans\<close>)
  from this[of header_fields] show ?thesis by (simp add: make_message_def fc_set_all_fold header_fields_def)
qed

lemma tag_set_fc_upsert: "m_tag ` set (fc_upsert f fs) = insert (m_tag f) (m_tag ` set fs)"
  using arg_cong[OF tags_fc_upsert[of f fs], of set] by (auto split: if_splits)

lemma built_has_header:
  assumes "CheckSum_Tag \<notin> set (tags fs)"
  shows "has_header (make_message True fs)"
proof -
  have "set (tags (fold fc_upsert fs gs)) = set (tags gs) \<union> set (tags fs)" for gs
    by (induction fs arbitrary: gs) (simp_all add: tag_set_fc_upsert)
  with assms show ?thesis by (simp add: has_header_def make_message_def fc_set_all_fold header_fields_def)
qed

section \<open>Sending\<close>

lemma message_travels:
  assumes m: "has_header m" "all_short dict (m_fields m)" "length (m_fields m) \<le> 14" and opt: "full_options options"
    and num: "if options AND set_msg_seq_num \<noteq> 0 then i = n else fc_try_get MsgSeqNum_Tag (m_fields m) = Some (field_u32 MsgSeqNum_Tag n)"
    and safe: "wire_safe dict clock opt" and w: "\<not> writer_closed (endpoint_of e p)"
  obtains m' d where
    "test_writer_write dict p (m\<lparr> m_fields := stamp_fields opt options i (clock k) (m_fields m) \<rparr>) options e =
       (Inr m', False, post (Deliver (peer p) d)
         (on_endpoint p (\<lambda>x. x\<lparr> outgoing_messages := bq_push d (outgoing_messages x) \<rparr>) e))"
    "carries opt m n d"
proof -
  let ?m = "m\<lparr> m_fields := stamp_fields opt options i (clock k) (m_fields m) \<rparr>"
  from short_stamped[OF safe m(2)] have "\<forall>f \<in> set (stamp_fields opt options i (clock k) (m_fields m)). short_field dict f"
    by (simp add: all_short_def)
  from short_message_encodes[OF m(1) opt this m(3)] obtain l out m' where
    enc: "message_encode test_buffer_size options ?m = (Inr (l, out), m')" "l \<noteq> 0" "wire_ok dict [] (m_fields m')" .
  obtain r d where dec: "message_decode dict out empty_message = (r, d)" by fastforce
  note d = decoded_as_sent[OF m(1) opt enc, of "[]" r d, unfolded append_Nil2, OF dec]
  have "mirrored opt (opt\<lparr> m_sender_comp_id := m_target_comp_id opt, m_target_comp_id := m_sender_comp_id opt \<rparr>)"
    by (simp add: mirrored_def)
  note h = stamped_header(1)[OF m(1) opt _ d(5)] stamped_header(2-5)[OF m(1) opt this d(5)]
  have "fc_try_get MsgSeqNum_Tag (m_fields d) = Some (field_u32 MsgSeqNum_Tag n)"
    using h(3) d(5)[of 34] num by (simp add: stamp_fields_apply split: if_splits)
  then have "carries opt m n d" using d(3,4,6) h(1,2,4,5) by (simp add: carries_def)
  then show thesis
    using enc dec d(1) w by (intro that[of m' d]) (simp_all add: test_writer_write_def)
qed

lemma send_travels:
  assumes m: "has_header m" "all_short dict (m_fields m)" "length (m_fields m) \<le> 14" "message_MsgType m = Inr type"
      "type \<noteq> Logon_MsgType \<or> message_ResetSeqNumFlag m = Inr False"
    and safe: "wire_safe dict clock (m_options (sess w))" and open': "\<not> writer_closed (endpoint_of (outside w) p)"
  obtains m' d where
    "session_send (fixture_links dict orch clock p) m encode_standard w = (Inr m', w\<lparr>
       sess := (sess w)\<lparr> m_outgoing_msg_seq_num := m_outgoing_msg_seq_num (sess w) + 1 \<rparr>,
       outside := sent_net p d (outside w), emitted := emitted w @ [Message_sent m'] \<rparr>)"
    "carries (m_options (sess w)) m (m_outgoing_msg_seq_num (sess w)) d"
proof -
  let ?e = "(outside w)\<lparr> clock_reads := Suc (clock_reads (outside w)) \<rparr>" and ?n = "m_outgoing_msg_seq_num (sess w)"
  have o: "\<not> writer_closed (endpoint_of ?e p)"
    and num: "if encode_standard AND set_msg_seq_num \<noteq> 0 then ?n = ?n else fc_try_get MsgSeqNum_Tag (m_fields m) = Some (field_u32 MsgSeqNum_Tag ?n)"
    using open' by simp_all
  show thesis
  proof (rule message_travels[OF m(1-3) full_options_used(1) num safe o, of "clock_reads (outside w)"], goal_cases)
    case (1 m' d)
    show thesis
      by (rule that[OF _ 1(2), of m'])
         (use m(4,5) 1(1) in \<open>auto simp: session_send_def the_session_def on_session_def
            allocate_outgoing_msg_seq_num_def quiet_def external_apply emit_def fixture_links_def sent_net_def seqP_def bindP_def\<close>)
  qed
qed

text \<open>What the receiving session reads off a message that arrives.\<close>

lemma stoi_u32_to_string:
  assumes "unat n < 2 ^ 31"
  shows "stoi (u32_to_string n) = Inr (int (unat n))" "stoi_u32 (u32_to_string n) = Inr n"
proof -
  have "int (unat n) < 2 ^ 31" using assms by (metis of_nat_less_iff of_nat_numeral of_nat_power)
  then show s: "stoi (u32_to_string n) = Inr (int (unat n))" unfolding u32_to_string_def by (rule stoi_nat_to_string)
  show "stoi_u32 (u32_to_string n) = Inr n" by (simp add: stoi_u32_def s)
qed

lemma carried_number:
  assumes "carries opt m n d" "unat n < 2 ^ 31"
  shows "message_MsgSeqNum d = Inr n"
  using assms(1) stoi_u32_to_string(1)[OF assms(2)]
  by (simp add: carries_def message_MsgSeqNum_def message_value_try_get field_u32_def)

lemma carried_get: "carries opt m n d \<Longrightarrow> t \<notin> stamped_tags \<Longrightarrow> fc_try_get t (m_fields d) = fc_try_get t (m_fields m)"
  by (simp add: carries_def sent_as_get)

lemma carried_accepted:
  assumes "carries opt m n d" "mirrored opt (m_options s)" "first_message_ok s d"
  shows "accepted s d"
  using assms by (simp add: accepted_def carries_def)

lemma carried_same:
  assumes "carries opt m n d"
  shows "message_MsgType d = message_MsgType m" "message_PossDupFlag d = message_PossDupFlag m"
    "message_GapFillFlag d = message_GapFillFlag m" "message_ResetSeqNumFlag d = message_ResetSeqNumFlag m"
  using carried_get[OF assms, of 35] carried_get[OF assms, of 43] carried_get[OF assms, of 123] carried_get[OF assms, of 141]
  by (simp_all add: message_MsgType_def message_PossDupFlag_def message_GapFillFlag_def message_ResetSeqNumFlag_def
      message_value_try_get fc_get_bool_try_get stamped_tags_def)

lemma carried_sequenced:
  assumes "carries opt m n d" "message_MsgType m = Inr type" "type \<notin> {Logon_MsgType, SequenceReset_MsgType}"
    "message_PossDupFlag m = Inr False" "unat n < 2 ^ 31"
  shows "sequenced d n"
  using carried_same[OF assms(1)] carried_number[OF assms(1,5)] assms(2-4) by (simp add: sequenced_def)

text \<open>A session that knows its peer, and its place in the sequence.\<close>

lemma in_sequence_step:
  assumes d: "carries opt m n d" "message_MsgType m = Inr type" "type \<notin> {Logon_MsgType, SequenceReset_MsgType}"
      "message_PossDupFlag m = Inr False"
    and s: "mirrored opt (m_options (sess w))" "m_incoming_msg_seq_num (sess w) = n" "unat n < 2 ^ 31"
      "m_logon_behaviour (m_options (sess w)) = initiator \<or> m_logon_received (sess w)"
  shows "on_message_read io d w = handle_in_sequence io d type
     ((received d w)\<lparr> sess := (sess w)\<lparr> m_incoming_msg_seq_num := n + 1 \<rparr> \<rparr>)"
proof -
  have "accepted (sess w) d" by (rule carried_accepted[OF d(1) s(1)]) (use s(4) in \<open>auto simp: first_message_ok_def\<close>)
  then show ?thesis
    using in_sequence_handled[of w d type io] carried_sequenced[OF d s(3)] carried_same(1)[OF d(1)] d(2) s(2) by simp
qed

abbreviation after_send :: "party \<Rightarrow> message \<Rightarrow> message \<Rightarrow> network world \<Rightarrow> network world" where
  "after_send p m' d w \<equiv> w\<lparr> sess := (sess w)\<lparr> m_outgoing_msg_seq_num := m_outgoing_msg_seq_num (sess w) + 1 \<rparr>,
     outside := sent_net p d (outside w), emitted := emitted w @ [Message_sent m'] \<rparr>"

section \<open>Timers\<close>

text \<open>The scheduler has at least \<open>k\<close> tokens left.\<close>

definition tokens_left :: "nat \<Rightarrow> 'c boost_asio_scheduler \<Rightarrow> bool" where
  "tokens_left k sch \<longleftrightarrow> scheduler_ok sch \<and> unat (m_next_cancellation_token sch) + k < 2 ^ 64"

lemma start_timer_tokens:
  assumes "tokens_left (Suc k) sch"
  obtains token sch' where "start_timer when callback sch = (Inr token, sch')" "posted sch' = posted sch"
    "\<And>j. tokens_left (Suc j) sch \<Longrightarrow> tokens_left j sch'"
proof -
  let ?n = "m_next_cancellation_token sch"
  have ok: "scheduler_ok sch" and lt: "unat ?n + Suc k < 2 ^ 64" using assms by (simp_all add: tokens_left_def)
  have "?n \<noteq> - 1"
  proof
    assume "?n = - 1"
    then have "unat ?n = 2 ^ 64 - 1" by (simp add: unsigned_minus_1_eq_mask mask_eq_exp_minus_1)
    with lt show False by simp
  qed
  from start_timer_fresh[OF ok this] obtain sch' where
    s: "start_timer when callback sch = (Inr ?n, sch')" "scheduler_ok sch'" "posted sch' = posted sch" by metis
  from s(1) have "m_next_cancellation_token sch' = ?n + 1"
    by (auto simp: start_timer_def Let_def split: prod.splits if_splits)
  moreover have "unat (?n + 1) = unat ?n + 1" using lt by (simp add: unat_word_ariths)
  ultimately show thesis using s by (intro that[of ?n sch']) (simp_all add: tokens_left_def)
qed

lemma cancel_keeps_tokens:
  assumes "scheduler_ok sch"
  shows "tokens_left k (asio_cancel_callback token sch) \<longleftrightarrow> tokens_left k sch"
    "posted (asio_cancel_callback token sch) = posted sch"
  using assms
  by (auto simp: tokens_left_def scheduler_ok_def asio_cancel_callback_def sm.all_entries_def sm.ok_assign sm.find_assign
      split: option.splits if_splits)

lemma defibrillator_stopped:
  assumes "tokens_left k (scheduler (outside w))"
  obtains sch where "stop_defibrillator (fixture_links dict orch clock p) w =
      (Inr (), w\<lparr> sess := (sess w)\<lparr> m_heartbeat_timer_token := None \<rparr>, outside := (outside w)\<lparr> scheduler := sch \<rparr> \<rparr>)"
    "\<And>j. tokens_left j (scheduler (outside w)) \<Longrightarrow> tokens_left j sch" "posted sch = posted (scheduler (outside w))"
proof (cases "m_heartbeat_timer_token (sess w)")
  case None
  then show thesis
    using assms by (intro that[of "scheduler (outside w)"]) (simp_all add: stop_defibrillator_def the_session_def)
next
  case (Some t)
  have ok: "scheduler_ok (scheduler (outside w))" using assms by (simp add: tokens_left_def)
  show thesis
    using assms Some cancel_keeps_tokens[OF ok]
    by (intro that[of "asio_cancel_callback t (scheduler (outside w))"])
       (simp_all add: stop_defibrillator_def the_session_def on_session_def quiet_def fixture_links_def seqP_def bindP_def)
qed

lemma defibrillator_started:
  assumes "tokens_left (Suc k) (scheduler (outside w))"
  obtains tok sch where "start_defibrillator (fixture_links dict orch clock p) w =
      (Inr (), w\<lparr> sess := (sess w)\<lparr> m_heartbeat_timer_token := tok \<rparr>, outside := (outside w)\<lparr> scheduler := sch \<rparr> \<rparr>)"
    "\<And>j. tokens_left (Suc j) (scheduler (outside w)) \<Longrightarrow> tokens_left j sch" "posted sch = posted (scheduler (outside w))"
    "tok \<noteq> None \<longleftrightarrow> m_heartbeat_interval (m_options (sess w)) \<noteq> 0"
proof -
  let ?io = "fixture_links dict orch clock p" and ?h = "m_heartbeat_interval (m_options (sess w))"
  obtain s0 where stop: "stop_defibrillator ?io w =
      (Inr (), w\<lparr> sess := (sess w)\<lparr> m_heartbeat_timer_token := None \<rparr>, outside := (outside w)\<lparr> scheduler := s0 \<rparr> \<rparr>)"
    "\<And>j. tokens_left j (scheduler (outside w)) \<Longrightarrow> tokens_left j s0" "posted s0 = posted (scheduler (outside w))"
    using defibrillator_stopped[OF assms, of dict orch clock p] by metis
  show thesis
  proof (cases "?h = 0")
    case True
    have "tokens_left j s0" if "tokens_left (Suc j) (scheduler (outside w))" for j
      using stop(2)[of "Suc j"] that by (simp add: tokens_left_def)
    then show thesis
      using True stop by (intro that[where tok = None and sch = s0]) (simp_all add: start_defibrillator_def the_session_def)
  next
    case False
    obtain token sch where t: "start_timer (unat (?h * 1000)) (Callback p Defibrillate) s0 = (Inr token, sch)"
      "\<And>j. tokens_left (Suc j) s0 \<Longrightarrow> tokens_left j sch" "posted sch = posted s0"
      using start_timer_tokens[OF stop(2)[OF assms]] by metis
    show thesis
      using False stop t
      by (intro that[where tok = "Some token" and sch = sch])
         (simp_all add: start_defibrillator_def the_session_def on_session_def quiet_def
            fixture_links_def asio_schedule_repeating_callback_def seqP_def bindP_def)
  qed
qed

lemma sent_net_simps [simp]:
  "reader_closed (endpoint_of (sent_net p d e) q) = reader_closed (endpoint_of e q)"
  "writer_closed (endpoint_of (sent_net p d e) q) = writer_closed (endpoint_of e q)"
  "posted (scheduler (sent_net p d e)) = posted (scheduler e) @ [Deliver (peer p) d]"
  "tokens_left k (scheduler (sent_net p d e)) = tokens_left k (scheduler e)"
  by (simp_all add: sent_net_def post_def on_endpoint_def scheduler_schedule_def tokens_left_def scheduler_ok_def)

section \<open>Steps of the fixture\<close>

lemma mirrored_heartbeat [simp]:
  "mirrored (opt\<lparr> m_heartbeat_interval := h \<rparr>) opt' \<longleftrightarrow> mirrored opt opt'"
  "mirrored opt (opt'\<lparr> m_heartbeat_interval := h \<rparr>) \<longleftrightarrow> mirrored opt opt'"
  by (simp_all add: mirrored_def)

lemma carries_heartbeat [simp]: "carries (opt\<lparr> m_heartbeat_interval := h \<rparr>) m n d \<longleftrightarrow> carries opt m n d"
  by (simp add: carries_def)

definition open_net :: "network \<Rightarrow> bool" where
  "open_net e \<longleftrightarrow> (\<forall>p. \<not> reader_closed (endpoint_of e p) \<and> \<not> writer_closed (endpoint_of e p))"

lemma open_net_sent [simp]: "open_net (sent_net p d e) \<longleftrightarrow> open_net e"
  by (simp add: open_net_def)

text \<open>
  What the queues of the fixture have taken in, in order: the messages a party has sent, those delivered to it, and
  the states its session went through.
\<close>

type_synonym history = "message list \<times> message list \<times> session_state list"

definition history :: "session_fixture \<Rightarrow> party \<Rightarrow> history" where
  "history fx p = (rev (outgoing_messages (endpoint_of (net fx) p)), rev (incoming_messages (endpoint_of (net fx) p)),
     rev (state_changes_of fx p))"

fun extend :: "history \<Rightarrow> message list \<Rightarrow> message list \<Rightarrow> session_state list \<Rightarrow> history" where
  "extend (a, b, c) a' b' c' = (a @ a', b @ b', c @ c')"

lemma extend_extend [simp]:
  "extend (extend h a b c) a' b' c' = extend h (a @ a') (b @ b') (c @ c')" "extend h [] [] [] = h"
  by (cases h; simp)+

lemma rev_fold_push: "rev (fold bq_push xs ys) = rev ys @ xs"
  by (induction xs arbitrary: ys) (simp_all add: bq_push_def)

lemma state_targets_append: "state_targets (xs @ ys) = state_targets xs @ state_targets ys"
  by (induction xs rule: state_targets.induct) simp_all

text \<open>The network as the session finds it when a message is delivered.\<close>

definition arrive :: "party \<Rightarrow> message \<Rightarrow> task list \<Rightarrow> network \<Rightarrow> network" where
  "arrive p d ts e = on_endpoint p (\<lambda>x. x\<lparr> incoming_messages := bq_push d (incoming_messages x) \<rparr>)
     (e\<lparr> scheduler := (scheduler e)\<lparr> posted := ts \<rparr> \<rparr>)"

lemma arrive_simps [simp]:
  "open_net (arrive p d ts e) \<longleftrightarrow> open_net e" "posted (scheduler (arrive p d ts e)) = ts"
  "tokens_left k (scheduler (arrive p d ts e)) \<longleftrightarrow> tokens_left k (scheduler e)"
  by (auto simp: arrive_def on_endpoint_def open_net_def tokens_left_def scheduler_ok_def)

text \<open>The fixture after a call of party \<open>p\<close> that left the session, the network and the signals \<open>w\<close>.\<close>

definition after_call :: "party \<Rightarrow> network world \<Rightarrow> session_fixture \<Rightarrow> session_fixture" where
  "after_call p w fx = fx\<lparr> session_of := (session_of fx)(p := sess w), signals_of := (signals_of fx)(p := emitted w),
     state_changes_of := (state_changes_of fx)(p := fold bq_push (state_targets (drop (length (signals_of fx p)) (emitted w)))
       (state_changes_of fx p)), net := outside w \<rparr>"

lemma after_call_simps [simp]:
  "session_of (after_call p w fx) = (session_of fx)(p := sess w)" "net (after_call p w fx) = outside w"
  by (simp_all add: after_call_def)

lemma with_party_returns:
  "act \<lparr> sess = session_of fx p, outside = net fx, emitted = signals_of fx p \<rparr> = (r, w) \<Longrightarrow>
   with_party p act fx = (r, after_call p w fx)"
  by (simp add: with_party_def after_call_def)

lemma run_next_deliver:
  assumes "posted (scheduler (net fx)) = Deliver p d # ts" "open_net (net fx)"
    and "on_message_read (io p) d \<lparr> sess = session_of fx p, outside = arrive p d ts (net fx), emitted = signals_of fx p \<rparr> = (Inr (), w)"
  shows "run_next io fx = (Inr (), after_call p w fx)"
  using assms by (simp add: run_next_def test_reader_deliver_def with_party_def after_call_def arrive_def open_net_def bindP_def)

lemma history_queues [simp]:
  "outgoing_messages (endpoint_of (sent_net p d e) q) = (if q = p then [d] else []) @ outgoing_messages (endpoint_of e q)"
  "incoming_messages (endpoint_of (sent_net p d e) q) = incoming_messages (endpoint_of e q)"
  "outgoing_messages (endpoint_of (arrive p d ts e) q) = outgoing_messages (endpoint_of e q)"
  "incoming_messages (endpoint_of (arrive p d ts e) q) = (if q = p then [d] else []) @ incoming_messages (endpoint_of e q)"
  by (simp_all add: sent_net_def arrive_def post_def on_endpoint_def bq_push_def)

lemma history_after_call:
  "history (after_call p w fx) = (history fx)(p := extend (history fx p) a b c) \<longleftrightarrow>
     state_targets (drop (length (signals_of fx p)) (emitted w)) = c \<and>
     (\<forall>q. outgoing_messages (endpoint_of (outside w) q) = (if q = p then rev a else []) @ outgoing_messages (endpoint_of (net fx) q) \<and>
       incoming_messages (endpoint_of (outside w) q) = (if q = p then rev b else []) @ incoming_messages (endpoint_of (net fx) q))"
  (is "?l \<longleftrightarrow> ?r")
proof -
  have rev_eq: "rev xs = rev ys @ zs \<longleftrightarrow> xs = rev zs @ ys" for xs ys zs :: "'a list"
    by (metis rev_append rev_rev_ident)
  have "?l \<longleftrightarrow> (\<forall>q. history (after_call p w fx) q = ((history fx)(p := extend (history fx p) a b c)) q)" by (rule fun_eq_iff)
  also have "\<dots> \<longleftrightarrow> ?r" by (auto simp: history_def after_call_def rev_fold_push rev_eq)
  finally show ?thesis .
qed

section \<open>Reactions\<close>

text \<open>
  What a call on the session of party \<open>p\<close> does beside the session: \<open>ds\<close> are the messages it sends as they
  will arrive, \<open>sts\<close> the states it signals, \<open>k\<close> the timers it may start.
\<close>

definition reacts :: "party \<Rightarrow> message list \<Rightarrow> session_state list \<Rightarrow> nat \<Rightarrow> network world \<Rightarrow> network world \<Rightarrow> bool" where
  "reacts p ds sts k w w' \<longleftrightarrow>
     posted (scheduler (outside w')) = posted (scheduler (outside w)) @ map (Deliver (peer p)) ds \<and>
     (\<forall>q. outgoing_messages (endpoint_of (outside w') q) = (if q = p then rev ds else []) @ outgoing_messages (endpoint_of (outside w) q) \<and>
          incoming_messages (endpoint_of (outside w') q) = incoming_messages (endpoint_of (outside w) q)) \<and>
     (open_net (outside w) \<longrightarrow> open_net (outside w')) \<and>
     (\<forall>j. tokens_left (k + j) (scheduler (outside w)) \<longrightarrow> tokens_left j (scheduler (outside w'))) \<and>
     (\<exists>sigs. emitted w' = emitted w @ sigs \<and> state_targets sigs = sts)"

lemma reacts_session [simp]:
  "reacts p ds sts k (w\<lparr> sess := s \<rparr>) w' \<longleftrightarrow> reacts p ds sts k w w'"
  "reacts p ds sts k w (w'\<lparr> sess := s \<rparr>) \<longleftrightarrow> reacts p ds sts k w w'"
  by (simp_all add: reacts_def)

lemma reacts_trans:
  "reacts p ds sts k w w1 \<Longrightarrow> reacts p ds' sts' k' w1 w2 \<Longrightarrow> reacts p (ds @ ds') (sts @ sts') (k + k') w w2"
  by (auto simp: reacts_def state_targets_append add.assoc)

lemma reacts_send: "reacts p [d] [] 0 w (after_send p m' d w)"
  by (auto simp: reacts_def)

lemma reacts_signals: "reacts p [] (state_targets sigs) 0 w (w\<lparr> emitted := emitted w @ sigs \<rparr>)"
  by (auto simp: reacts_def)

lemma reacts_timer:
  assumes "posted sch = posted (scheduler (outside w))"
    and "\<And>j. tokens_left (k + j) (scheduler (outside w)) \<Longrightarrow> tokens_left j sch"
  shows "reacts p [] [] k w (w\<lparr> outside := (outside w)\<lparr> scheduler := sch \<rparr> \<rparr>)"
  using assms by (auto simp: reacts_def open_net_def)

text \<open>The session of \<open>p\<close> as it is when the message \<open>d\<close> is delivered to it.\<close>

abbreviation delivered :: "party \<Rightarrow> message \<Rightarrow> task list \<Rightarrow> session_fixture \<Rightarrow> network world" where
  "delivered p d ts fx \<equiv> \<lparr> sess = session_of fx p, outside = arrive p d ts (net fx), emitted = signals_of fx p \<rparr>"

lemma run_next_reacts:
  assumes "posted (scheduler (net fx)) = Deliver p d # ts" "open_net (net fx)"
    and "on_message_read (io p) d (delivered p d ts fx) = (Inr (), w)" "reacts p ds sts k (delivered p d ts fx) w"
  obtains fx' where "run_next io fx = (Inr (), fx')" "session_of fx' = (session_of fx)(p := sess w)" "open_net (net fx')"
    "posted (scheduler (net fx')) = ts @ map (Deliver (peer p)) ds" "history fx' = (history fx)(p := extend (history fx p) ds [d] sts)"
    "\<And>j. tokens_left (k + j) (scheduler (net fx)) \<Longrightarrow> tokens_left j (scheduler (net fx'))"
  by (rule that[OF run_next_deliver[where io = io, OF assms(1-3)]]) (use assms(2,4) in \<open>auto simp: reacts_def history_after_call\<close>)

section \<open>Runs\<close>

lemma all_party: "(\<forall>p. P p) \<longleftrightarrow> P Initiator \<and> P Acceptor"
  by (metis party.exhaust)

lemma run_tasks_add: "run_tasks io (m + n) fx = seqP (run_tasks io m) (run_tasks io n) fx"
  by (induction m arbitrary: fx) (simp_all add: seqP_def bindP_def split: prod.splits sum.splits)

lemma run_tasks_split: "run_tasks io m fx = (Inr (), fx1) \<Longrightarrow> run_tasks io n fx1 = (Inr (), fx2) \<Longrightarrow> run_tasks io (m + n) fx = (Inr (), fx2)"
  by (simp add: run_tasks_add)
lemma run_tasks_idle: "posted (scheduler (net fx)) = [] \<Longrightarrow> run_tasks io n fx = (Inr (), fx)"
  by (induction n) (simp_all add: run_next_def)

end
