(* ===== verification/Logon_Handshake.thy ===== *)
theory Logon_Handshake
  imports Fixture_Transport
begin

text \<open>
  Two sessions that log on to each other. A message one of them sends arrives at the other as
  \<open>Session_Peers\<close> describes it; from there each step of the handshake is computed, and the steps
  compose to the whole exchange: Logon, Logon, two TestRequests and the Heartbeats that answer them.
\<close>

section \<open>The messages of the handshake\<close>

definition logon_with :: "u32 \<Rightarrow> message" where
  "logon_with h = make_message True [field_string MsgType_Tag Logon_MsgType, field_string EncryptMethod_Tag EncryptMethod_None,
     field_u32 HeartBtInt_Tag h]"

definition test_request_with :: "u32 \<Rightarrow> message" where
  "test_request_with x = make_message True [field_string MsgType_Tag TestRequest_MsgType, field_u32 TestReqID_Tag x]"

definition heartbeat_with :: "u32 \<Rightarrow> message" where
  "heartbeat_with x = make_message True [field_string MsgType_Tag Heartbeat_MsgType, field_u32 TestReqID_Tag x]"

definition handshake_safe :: "orchestration_field_collection \<Rightarrow> (nat \<Rightarrow> utc_time) \<Rightarrow> session_options \<Rightarrow> bool" where
  "handshake_safe dict clock opt \<longleftrightarrow> wire_safe dict clock opt \<and>
     list_all (known_tag dict) [EncryptMethod_Tag, HeartBtInt_Tag, TestReqID_Tag]"

lemma handshake_safe_heartbeat [simp]:
  "handshake_safe dict clock (opt\<lparr> m_heartbeat_interval := h \<rparr>) \<longleftrightarrow> handshake_safe dict clock opt"
  by (simp add: handshake_safe_def wire_safe_def)

lemmas handshake_messages = logon_with_def test_request_with_def heartbeat_with_def

lemma handshake_message_ok:
  assumes "handshake_safe dict clock opt" "m \<in> {logon_with h, test_request_with x, heartbeat_with x}"
  shows "has_header m" "all_short dict (m_fields m)" "length (m_fields m) \<le> 14" "message_ResetSeqNumFlag m = Inr False"
    "\<exists>type. message_MsgType m = Inr type"
proof -
  have k: "known_tag dict 35" "known_tag dict 98" "known_tag dict 108" "known_tag dict 112" "wire_safe dict clock opt"
    using assms(1) by (simp_all add: handshake_safe_def wire_safe_def header_tags_def)
  have t: "short_text ''A''" "short_text ''0''" "short_text ''1''" by (simp_all add: short_text_def)
  show "has_header m" using assms(2) by (auto simp: handshake_messages intro!: built_has_header)
  show "all_short dict (m_fields m)"
    using assms(2) k t by (auto simp: handshake_messages short_field_def short_u32 field_u32_def intro!: all_short_built)
  show "length (m_fields m) \<le> 14"
    using assms(2) by (auto simp: handshake_messages intro!: order_trans[OF length_built])
  show "message_ResetSeqNumFlag m = Inr False" "\<exists>type. message_MsgType m = Inr type"
    using assms(2) by (auto simp: handshake_messages built_message_simps)
qed

lemma carried_handshake:
  assumes "carries opt m n d" "m \<in> {logon_with h, test_request_with x, heartbeat_with x}"
  shows "message_PossDupFlag d = Inr False" "message_ResetSeqNumFlag d = Inr False" "message_MsgType d = message_MsgType m"
  using assms(2) carried_get[OF assms(1), of 43] carried_get[OF assms(1), of 141] carried_get[OF assms(1), of 35]
  by (auto simp: message_PossDupFlag_def message_ResetSeqNumFlag_def message_MsgType_def message_value_try_get fc_get_bool_try_get
      handshake_messages fc_try_get_make_message fc_try_get_header stamped_tags_def)

section \<open>Steps\<close>

lemma send_handshake:
  assumes "handshake_safe dict clock (m_options (sess w))" "m \<in> {logon_with h, test_request_with x, heartbeat_with x}"
    and "\<not> writer_closed (endpoint_of (outside w) p)"
  obtains m' d where "send_standard (fixture_links dict orch clock p) m w = (Inr (), after_send p m' d w)"
    "carries (m_options (sess w)) m (m_outgoing_msg_seq_num (sess w)) d"
proof -
  note ok = handshake_message_ok[OF assms(1,2)]
  obtain type where "message_MsgType m = Inr type" using ok(5) by blast
  moreover have "wire_safe dict clock (m_options (sess w))" using assms(1) by (simp add: handshake_safe_def)
  ultimately show thesis
    by (rule send_travels[OF ok(1-3) _ disjI2[OF ok(4)] _ assms(3), where orch = orch])
       (auto simp: send_standard_def seqP_returns intro: that)
qed

lemma test_request_step:
  assumes d: "carries opt (test_request_with x) n d"
    and s: "mirrored opt (m_options (sess w))" "m_incoming_msg_seq_num (sess w) = n" "unat n < 2 ^ 31"
      "m_logon_behaviour (m_options (sess w)) = initiator \<or> m_logon_received (sess w)"
    and safe: "handshake_safe dict clock (m_options (sess w))" "\<not> writer_closed (endpoint_of (outside w) p)"
  obtains m' d' where "on_message_read (fixture_links dict orch clock p) d w =
      (Inr (), after_send p m' d' ((received d w)\<lparr> sess := (sess w)\<lparr> m_incoming_msg_seq_num := n + 1 \<rparr> \<rparr>))"
    "carries (m_options (sess w)) (heartbeat_with x) (m_outgoing_msg_seq_num (sess w)) d'"
proof -
  let ?w = "(received d w)\<lparr> sess := (sess w)\<lparr> m_incoming_msg_seq_num := n + 1 \<rparr> \<rparr>"
  have "fc_try_get TestReqID_Tag (m_fields d) = Some (field_u32 TestReqID_Tag x)"
    using carried_get[OF d, of 112] by (simp add: stamped_tags_def test_request_with_def built_message_simps)
  then have "process_test_request io d = send_standard io (heartbeat_with x)" for io :: "network links"
    by (simp add: process_test_request_def heartbeat_with_def field_u32_def)
  moreover have "message_MsgType (test_request_with x) = Inr TestRequest_MsgType"
    by (simp add: test_request_with_def built_message_simps)
  ultimately have "on_message_read (fixture_links dict orch clock p) d w =
      send_standard (fixture_links dict orch clock p) (heartbeat_with x) ?w"
    using in_sequence_step[OF d _ _ _ s, of TestRequest_MsgType]
    by (simp add: handle_in_sequence_def test_request_with_def built_message_simps message_PossDupFlag_def)
  moreover have "handshake_safe dict clock (m_options (sess ?w))" "\<not> writer_closed (endpoint_of (outside ?w) p)"
    using safe by simp_all
  ultimately show thesis
    using send_handshake[of dict clock ?w "heartbeat_with x" 0 x p orch] that by auto
qed

lemma heartbeat_step:
  assumes d: "carries opt (heartbeat_with x) n d"
    and s: "mirrored opt (m_options (sess w))" "m_incoming_msg_seq_num (sess w) = n" "unat n < 2 ^ 31"
      "m_logon_behaviour (m_options (sess w)) = initiator \<or> m_logon_received (sess w)"
    and st: "m_state (sess w) = st" "st \<in> {logging_on, resetting, resending}" "m_expected_test_request_id (sess w) = Some x"
      "tokens_left (Suc k) (scheduler (outside w))"
  obtains tok sch where "on_message_read (fixture_links dict orch clock p) d w =
      (Inr (), w\<lparr> sess := (sess w)\<lparr> m_incoming_msg_seq_num := n + 1, m_state := logged_on, m_heartbeat_timer_token := tok \<rparr>,
         outside := (outside w)\<lparr> scheduler := sch \<rparr>,
         emitted := emitted w @ [Message_received d, State_changed st logged_on] \<rparr>)"
    "\<And>j. tokens_left (Suc j) (scheduler (outside w)) \<Longrightarrow> tokens_left j sch" "posted sch = posted (scheduler (outside w))"
    "tok \<noteq> None \<longleftrightarrow> m_heartbeat_interval (m_options (sess w)) \<noteq> 0"
proof -
  let ?w = "w\<lparr> sess := (sess w)\<lparr> m_incoming_msg_seq_num := n + 1, m_state := logged_on \<rparr>,
      emitted := emitted w @ [Message_received d, State_changed st logged_on] \<rparr>"
  have f: "fc_try_get TestReqID_Tag (m_fields d) = Some (field_u32 TestReqID_Tag x)"
    using carried_get[OF d, of 112] by (simp add: stamped_tags_def heartbeat_with_def built_message_simps)
  have t: "message_MsgType (heartbeat_with x) = Inr Heartbeat_MsgType"
    by (simp add: heartbeat_with_def built_message_simps)
  have "on_message_read io d w = start_defibrillator io ?w" for io :: "network links"
    using in_sequence_step[OF d t _ _ s, of io] f st(1-3)
    by (auto simp: heartbeat_with_def built_message_simps message_PossDupFlag_def
        handle_in_sequence_def process_heartbeat_def the_session_def set_state_apply field_u32_def Let_def)
  moreover have h: "tokens_left (Suc k) (scheduler (outside ?w))" using st(4) by simp
  obtain tok sch where "start_defibrillator (fixture_links dict orch clock p) ?w =
      (Inr (), ?w\<lparr> sess := (sess ?w)\<lparr> m_heartbeat_timer_token := tok \<rparr>, outside := (outside ?w)\<lparr> scheduler := sch \<rparr> \<rparr>)"
    "\<And>j. tokens_left (Suc j) (scheduler (outside ?w)) \<Longrightarrow> tokens_left j sch" "posted sch = posted (scheduler (outside ?w))"
    "tok \<noteq> None \<longleftrightarrow> m_heartbeat_interval (m_options (sess ?w)) \<noteq> 0"
    using defibrillator_started[OF h, of dict orch clock p] by metis
  ultimately show thesis by (intro that[where tok = tok and sch = sch]) simp_all
qed

lemma send_logon_plain:
  "\<not> m_use_next_expected_msg_seq_num (m_options (sess w)) \<Longrightarrow>
   send_logon io False w = send_standard io (logon_with (m_heartbeat_interval (m_options (sess w)))) w"
  by (simp add: send_logon_def the_session_def logon_with_def Let_def)

lemma send_test_request_at_once:
  "m_test_request_delay (m_options (sess w)) = 0 \<Longrightarrow> m_next_test_request_id (sess w) = x \<Longrightarrow>
   send_post_logon_test_request io w = send_standard io (test_request_with x)
     (w\<lparr> sess := (sess w)\<lparr> m_next_test_request_id := x + 1, m_expected_test_request_id := Some x \<rparr> \<rparr>)"
  by (simp add: send_post_logon_test_request_def send_test_request_def allocate_test_request_id_def the_session_def on_session_def
      test_request_with_def)

text \<open>A session ready for the Logon of its peer.\<close>

definition awaits_logon :: "session \<Rightarrow> bool" where
  "awaits_logon s \<longleftrightarrow> m_test_request_delay (m_options s) = 0 \<and> \<not> m_use_next_expected_msg_seq_num (m_options s)"

lemma logon_dispatch:
  assumes d: "carries opt (logon_with h) n d" "unat h < 2 ^ 31"
    and s: "mirrored opt (m_options (sess w))" "m_incoming_msg_seq_num (sess w) = n" "unat n < 2 ^ 31"
      "\<not> m_use_next_expected_msg_seq_num (m_options (sess w))"
    and send: "whenP (m_logon_behaviour (m_options (sess w)) = acceptor) (send_logon io False)
        ((received d w)\<lparr> sess := (sess w)\<lparr> m_options := (m_options (sess w))\<lparr> m_heartbeat_interval := h \<rparr>, m_logon_received := True \<rparr> \<rparr>) =
        (Inr (), w1)" "m_incoming_msg_seq_num (sess w1) = n"
    and test: "send_post_logon_test_request io w1 = (Inr (), w2)"
  shows "on_message_read io d w = (Inr (), w2\<lparr> sess := (sess w2)\<lparr> m_incoming_msg_seq_num := n + 1 \<rparr> \<rparr>)"
proof -
  have set: "logon_with h \<in> {logon_with h, test_request_with 0, heartbeat_with 0}" by simp
  have ty: "message_MsgType d = Inr Logon_MsgType"
    using carried_handshake(3)[OF d(1) set] by (simp add: logon_with_def built_message_simps)
  have acc: "accepted (sess w) d" by (rule carried_accepted[OF d(1) s(1)]) (simp add: first_message_ok_def ty)
  have hb: "fc_try_get HeartBtInt_Tag (m_fields d) = Some (field_u32 HeartBtInt_Tag h)"
    using carried_get[OF d(1), of 108] by (simp add: stamped_tags_def logon_with_def built_message_simps)
  have n: "message_MsgSeqNum d = Inr n" using carried_number[OF d(1) s(3)] .
  have not_high: "sequence_number_is_high io d v = (Inr False, v)" "sequence_number_is_low io d v = (Inr False, v)"
    if "m_incoming_msg_seq_num (sess v) = n" for v
    using that n by (simp_all add: sequence_number_False)
  let ?v = "(received d w)\<lparr> sess := (sess w)\<lparr> m_options := (m_options (sess w))\<lparr> m_heartbeat_interval := h \<rparr>, m_logon_received := True \<rparr> \<rparr>"
  have ex: "extract_heartbeat_interval io d (received d w) =
      (Inr True, (received d w)\<lparr> sess := (sess w)\<lparr> m_options := (m_options (sess w))\<lparr> m_heartbeat_interval := h \<rparr> \<rparr> \<rparr>)"
    using stoi_u32_to_string(2)[OF d(2)]
    by (simp add: extract_heartbeat_interval_def hb field_u32_def try_catch_def set_heartbeat_interval_def on_options_def on_session_def)
  have "process_logon io d (received d w) = (Inr True, w2)"
    using ex s(4) send test carried_handshake(2)[OF d(1) set] not_high(1)[OF send(2)] not_high(2)[of ?v] s(2)
    by (simp add: process_logon_def on_session_def the_session_def)
  then have "dispatch_message io d (received d w) = (Inr (), w2\<lparr> sess := (sess w2)\<lparr> m_incoming_msg_seq_num := n + 1 \<rparr> \<rparr>)"
    by (simp add: dispatch_message_def ty carried_handshake(1)[OF d(1) set] n set_incoming_msg_seq_num_def on_session_def
        bindP_def guardP_def)
  then show ?thesis unfolding accepted_dispatch[OF acc, of io] .
qed

lemma acceptor_logon_step:
  fixes w :: "network world"
  defines "opt' \<equiv> m_options (sess w)"
  assumes d: "carries opt (logon_with h) n d" "unat h < 2 ^ 31"
    and s: "mirrored opt opt'" "m_incoming_msg_seq_num (sess w) = n" "unat n < 2 ^ 31" "awaits_logon (sess w)"
      "m_logon_behaviour opt' = acceptor" "m_next_test_request_id (sess w) = x"
    and safe: "handshake_safe dict clock opt'" "\<not> writer_closed (endpoint_of (outside w) p)"
  obtains m1 m2 d1 d2 where "on_message_read (fixture_links dict orch clock p) d w =
      (Inr (), w\<lparr> sess := (sess w)\<lparr> m_options := opt'\<lparr> m_heartbeat_interval := h \<rparr>, m_logon_received := True,
           m_outgoing_msg_seq_num := m_outgoing_msg_seq_num (sess w) + 2, m_next_test_request_id := x + 1,
           m_expected_test_request_id := Some x, m_incoming_msg_seq_num := n + 1 \<rparr>,
         outside := sent_net p d2 (sent_net p d1 (outside w)),
         emitted := emitted w @ [Message_received d, Message_sent m1, Message_sent m2] \<rparr>)"
    "carries opt' (logon_with h) (m_outgoing_msg_seq_num (sess w)) d1"
    "carries opt' (test_request_with x) (m_outgoing_msg_seq_num (sess w) + 1) d2"
proof -
  let ?io = "fixture_links dict orch clock p"
  let ?v = "(received d w)\<lparr> sess := (sess w)\<lparr> m_options := opt'\<lparr> m_heartbeat_interval := h \<rparr>, m_logon_received := True \<rparr> \<rparr>"
  have use: "\<not> m_use_next_expected_msg_seq_num (m_options (sess ?v))" "m_test_request_delay (m_options (sess ?v)) = 0"
    using s(4) by (simp_all add: awaits_logon_def opt'_def)
  obtain m1 d1 where l: "send_standard ?io (logon_with h) ?v = (Inr (), after_send p m1 d1 ?v)"
    "carries (m_options (sess ?v)) (logon_with h) (m_outgoing_msg_seq_num (sess ?v)) d1"
    by (rule send_handshake[of dict clock ?v "logon_with h" h 0 p orch]) (use safe in simp_all)
  let ?w1 = "(after_send p m1 d1 ?v)\<lparr> sess := (sess (after_send p m1 d1 ?v))\<lparr> m_next_test_request_id := x + 1,
      m_expected_test_request_id := Some x \<rparr> \<rparr>"
  obtain m2 d2 where t: "send_standard ?io (test_request_with x) ?w1 = (Inr (), after_send p m2 d2 ?w1)"
    "carries (m_options (sess ?w1)) (test_request_with x) (m_outgoing_msg_seq_num (sess ?w1)) d2"
    by (rule send_handshake[of dict clock ?w1 "test_request_with x" 0 x p orch]) (use safe in simp_all)
  have "send_post_logon_test_request ?io (after_send p m1 d1 ?v) = (Inr (), after_send p m2 d2 ?w1)"
    using send_test_request_at_once[of "after_send p m1 d1 ?v" x ?io] use(2) s(6) t(1) by simp
  moreover have "send_logon ?io False ?v = (Inr (), after_send p m1 d1 ?v)"
    using send_logon_plain[OF use(1), of ?io] l(1) by simp
  ultimately have "on_message_read ?io d w = (Inr (), (after_send p m2 d2 ?w1)\<lparr>
      sess := (sess (after_send p m2 d2 ?w1))\<lparr> m_incoming_msg_seq_num := n + 1 \<rparr> \<rparr>)"
    using s(1-5) use(1) by (intro logon_dispatch[OF d, of w ?io "after_send p m1 d1 ?v"]) (simp_all add: opt'_def)
  moreover have "carries opt' (logon_with h) (m_outgoing_msg_seq_num (sess w)) d1"
    "carries opt' (test_request_with x) (m_outgoing_msg_seq_num (sess w) + 1) d2"
    using l(2) t(2) by (simp_all add: carries_def)
  ultimately show thesis by (intro that[where ?m1.0 = m1 and ?m2.0 = m2 and ?d1.0 = d1 and ?d2.0 = d2]) simp_all
qed

lemma initiator_logon_step:
  fixes w :: "network world"
  defines "opt' \<equiv> m_options (sess w)"
  assumes d: "carries opt (logon_with h) n d" "unat h < 2 ^ 31"
    and s: "mirrored opt opt'" "m_incoming_msg_seq_num (sess w) = n" "unat n < 2 ^ 31" "awaits_logon (sess w)"
      "m_logon_behaviour opt' = initiator" "m_next_test_request_id (sess w) = x"
    and safe: "handshake_safe dict clock opt'" "\<not> writer_closed (endpoint_of (outside w) p)"
  obtains m2 d2 where "on_message_read (fixture_links dict orch clock p) d w =
      (Inr (), w\<lparr> sess := (sess w)\<lparr> m_options := opt'\<lparr> m_heartbeat_interval := h \<rparr>, m_logon_received := True,
           m_outgoing_msg_seq_num := m_outgoing_msg_seq_num (sess w) + 1, m_next_test_request_id := x + 1,
           m_expected_test_request_id := Some x, m_incoming_msg_seq_num := n + 1 \<rparr>,
         outside := sent_net p d2 (outside w), emitted := emitted w @ [Message_received d, Message_sent m2] \<rparr>)"
    "carries opt' (test_request_with x) (m_outgoing_msg_seq_num (sess w)) d2"
proof -
  let ?io = "fixture_links dict orch clock p"
  let ?v = "(received d w)\<lparr> sess := (sess w)\<lparr> m_options := opt'\<lparr> m_heartbeat_interval := h \<rparr>, m_logon_received := True \<rparr> \<rparr>"
  let ?w1 = "?v\<lparr> sess := (sess ?v)\<lparr> m_next_test_request_id := x + 1, m_expected_test_request_id := Some x \<rparr> \<rparr>"
  have use: "\<not> m_use_next_expected_msg_seq_num (m_options (sess ?v))" "m_test_request_delay (m_options (sess ?v)) = 0"
    using s(4) by (simp_all add: awaits_logon_def opt'_def)
  obtain m2 d2 where t: "send_standard ?io (test_request_with x) ?w1 = (Inr (), after_send p m2 d2 ?w1)"
    "carries (m_options (sess ?w1)) (test_request_with x) (m_outgoing_msg_seq_num (sess ?w1)) d2"
    by (rule send_handshake[of dict clock ?w1 "test_request_with x" 0 x p orch]) (use safe in simp_all)
  have "send_post_logon_test_request ?io ?v = (Inr (), after_send p m2 d2 ?w1)"
    using send_test_request_at_once[of ?v x ?io] use(2) s(6) t(1) by simp
  then have "on_message_read ?io d w = (Inr (), (after_send p m2 d2 ?w1)\<lparr>
      sess := (sess (after_send p m2 d2 ?w1))\<lparr> m_incoming_msg_seq_num := n + 1 \<rparr> \<rparr>)"
    using s(1-5) use(1) by (intro logon_dispatch[OF d, of w ?io ?v]) (simp_all add: opt'_def)
  moreover have "carries opt' (test_request_with x) (m_outgoing_msg_seq_num (sess w)) d2"
    using t(2) by (simp add: carries_def)
  ultimately show thesis by (intro that[where ?m2.0 = m2 and ?d2.0 = d2]) simp_all
qed

section \<open>Steps of the fixture\<close>

text \<open>The sessions that can take part in the handshake, and where they stand in it.\<close>

definition handshake_party :: "orchestration_field_collection \<Rightarrow> (nat \<Rightarrow> utc_time) \<Rightarrow> session_options \<Rightarrow> session \<Rightarrow> bool" where
  "handshake_party dict clock opt s \<longleftrightarrow> handshake_safe dict clock (m_options s) \<and> mirrored opt (m_options s) \<and>
     (m_logon_behaviour (m_options s) = initiator \<or> m_logon_received s)"

lemma deliver_test_request:
  assumes fx: "posted (scheduler (net fx)) = Deliver p d # ts" "open_net (net fx)" "session_of fx p = s"
    and d: "carries opt (test_request_with x) (m_incoming_msg_seq_num s) d" "unat (m_incoming_msg_seq_num s) < 2 ^ 31"
    and s: "handshake_party dict clock opt s"
  obtains fx' d' where "run_next (fixture_links dict orch clock) fx = (Inr (), fx')"
    "session_of fx' = (session_of fx)(p := s\<lparr> m_incoming_msg_seq_num := m_incoming_msg_seq_num s + 1,
       m_outgoing_msg_seq_num := m_outgoing_msg_seq_num s + 1 \<rparr>)"
    "posted (scheduler (net fx')) = ts @ [Deliver (peer p) d']" "carries (m_options s) (heartbeat_with x) (m_outgoing_msg_seq_num s) d'"
    "open_net (net fx')" "\<And>k. tokens_left k (scheduler (net fx')) = tokens_left k (scheduler (net fx))"
    "history fx' = (history fx)(p := extend (history fx p) [d'] [d] [])"
proof -
  let ?w = "\<lparr> sess = session_of fx p, outside = arrive p d ts (net fx), emitted = signals_of fx p \<rparr>"
  have "open_net (outside ?w)" using fx(2) by simp
  then have wr: "\<not> writer_closed (endpoint_of (outside ?w) p)" by (simp add: open_net_def)
  have c: "carries opt (test_request_with x) (m_incoming_msg_seq_num (sess ?w)) d" using d(1) fx(3) by simp
  have p: "mirrored opt (m_options (sess ?w))" "unat (m_incoming_msg_seq_num (sess ?w)) < 2 ^ 31"
    "m_logon_behaviour (m_options (sess ?w)) = initiator \<or> m_logon_received (sess ?w)" "handshake_safe dict clock (m_options (sess ?w))"
    using s d(2) fx(3) by (simp_all add: handshake_party_def)
  obtain m' d' where r: "on_message_read (fixture_links dict orch clock p) d ?w = (Inr (), after_send p m' d'
      ((received d ?w)\<lparr> sess := (sess ?w)\<lparr> m_incoming_msg_seq_num := m_incoming_msg_seq_num (sess ?w) + 1 \<rparr> \<rparr>))"
    "carries (m_options (sess ?w)) (heartbeat_with x) (m_outgoing_msg_seq_num (sess ?w)) d'"
    using test_request_step[OF c p(1) refl p(2-4) wr, of orch] .
  show thesis
    by (rule that[OF run_next_deliver[where io = "fixture_links dict orch clock", OF fx(1,2) r(1)]])
       (use r(2) fx(2,3) in \<open>simp_all add: history_after_call\<close>)
qed

lemma deliver_heartbeat:
  assumes fx: "posted (scheduler (net fx)) = Deliver p d # ts" "open_net (net fx)" "session_of fx p = s"
      "tokens_left (Suc k) (scheduler (net fx))"
    and d: "carries opt (heartbeat_with x) (m_incoming_msg_seq_num s) d" "unat (m_incoming_msg_seq_num s) < 2 ^ 31"
    and s: "handshake_party dict clock opt s" "m_state s = st" "st \<in> {logging_on, resetting, resending}"
      "m_expected_test_request_id s = Some x"
  obtains fx' tok where "run_next (fixture_links dict orch clock) fx = (Inr (), fx')"
    "session_of fx' = (session_of fx)(p := s\<lparr> m_incoming_msg_seq_num := m_incoming_msg_seq_num s + 1, m_state := logged_on,
       m_heartbeat_timer_token := tok \<rparr>)"
    "posted (scheduler (net fx')) = ts" "open_net (net fx')" "tokens_left k (scheduler (net fx'))"
    "tok \<noteq> None \<longleftrightarrow> m_heartbeat_interval (m_options s) \<noteq> 0"
    "history fx' = (history fx)(p := extend (history fx p) [] [d] [logged_on])"
proof -
  let ?w = "\<lparr> sess = session_of fx p, outside = arrive p d ts (net fx), emitted = signals_of fx p \<rparr>"
  have c: "carries opt (heartbeat_with x) (m_incoming_msg_seq_num (sess ?w)) d" using d(1) fx(3) by simp
  have p: "mirrored opt (m_options (sess ?w))" "unat (m_incoming_msg_seq_num (sess ?w)) < 2 ^ 31"
    "m_logon_behaviour (m_options (sess ?w)) = initiator \<or> m_logon_received (sess ?w)"
    "m_state (sess ?w) = st" "st \<in> {logging_on, resetting, resending}" "m_expected_test_request_id (sess ?w) = Some x"
    "tokens_left (Suc k) (scheduler (outside ?w))"
    using s d(2) fx(3,4) by (auto simp: handshake_party_def)
  obtain tok sch where r: "on_message_read (fixture_links dict orch clock p) d ?w =
      (Inr (), ?w\<lparr> sess := (sess ?w)\<lparr> m_incoming_msg_seq_num := m_incoming_msg_seq_num (sess ?w) + 1, m_state := logged_on,
           m_heartbeat_timer_token := tok \<rparr>,
         outside := (outside ?w)\<lparr> scheduler := sch \<rparr>,
         emitted := emitted ?w @ [Message_received d, State_changed st logged_on] \<rparr>)"
    "\<And>j. tokens_left (Suc j) (scheduler (outside ?w)) \<Longrightarrow> tokens_left j sch" "posted sch = posted (scheduler (outside ?w))"
    "tok \<noteq> None \<longleftrightarrow> m_heartbeat_interval (m_options (sess ?w)) \<noteq> 0"
    using heartbeat_step[OF c p(1) refl p(2-7), of dict orch clock] by metis
  have "open_net ((outside ?w)\<lparr> scheduler := sch \<rparr>)" using fx(2) by (simp add: open_net_def arrive_def on_endpoint_def)
  then show thesis
    by (intro that[OF run_next_deliver[where io = "fixture_links dict orch clock", OF fx(1,2) r(1)]])
       (use r(2-4) fx(3,4) in \<open>simp_all add: history_after_call\<close>)
qed

lemma deliver_logon_to_acceptor:
  assumes fx: "posted (scheduler (net fx)) = Deliver p d # ts" "open_net (net fx)" "session_of fx p = s"
    and d: "carries opt (logon_with h) (m_incoming_msg_seq_num s) d" "unat h < 2 ^ 31" "unat (m_incoming_msg_seq_num s) < 2 ^ 31"
    and s: "handshake_safe dict clock (m_options s)" "mirrored opt (m_options s)" "awaits_logon s" "m_logon_behaviour (m_options s) = acceptor"
  obtains fx' d1 d2 where "run_next (fixture_links dict orch clock) fx = (Inr (), fx')"
    "session_of fx' = (session_of fx)(p := s\<lparr> m_options := (m_options s)\<lparr> m_heartbeat_interval := h \<rparr>, m_logon_received := True,
       m_outgoing_msg_seq_num := m_outgoing_msg_seq_num s + 2, m_next_test_request_id := m_next_test_request_id s + 1,
       m_expected_test_request_id := Some (m_next_test_request_id s), m_incoming_msg_seq_num := m_incoming_msg_seq_num s + 1 \<rparr>)"
    "posted (scheduler (net fx')) = ts @ [Deliver (peer p) d1, Deliver (peer p) d2]"
    "carries (m_options s) (logon_with h) (m_outgoing_msg_seq_num s) d1"
    "carries (m_options s) (test_request_with (m_next_test_request_id s)) (m_outgoing_msg_seq_num s + 1) d2"
    "open_net (net fx')" "\<And>k. tokens_left k (scheduler (net fx')) = tokens_left k (scheduler (net fx))"
    "history fx' = (history fx)(p := extend (history fx p) [d1, d2] [d] [])"
proof -
  let ?w = "\<lparr> sess = session_of fx p, outside = arrive p d ts (net fx), emitted = signals_of fx p \<rparr>"
  have "open_net (outside ?w)" using fx(2) by simp
  then have wr: "\<not> writer_closed (endpoint_of (outside ?w) p)" by (simp add: open_net_def)
  have c: "carries opt (logon_with h) (m_incoming_msg_seq_num (sess ?w)) d" using d(1) fx(3) by simp
  have p: "mirrored opt (m_options (sess ?w))" "unat (m_incoming_msg_seq_num (sess ?w)) < 2 ^ 31" "awaits_logon (sess ?w)"
    "m_logon_behaviour (m_options (sess ?w)) = acceptor" "handshake_safe dict clock (m_options (sess ?w))"
    using s d(3) fx(3) by simp_all
  show thesis
    by (rule acceptor_logon_step[OF c d(2) p(1) refl p(2-4) refl p(5) wr, of orch])
       (rule that[OF run_next_deliver[where io = "fixture_links dict orch clock", OF fx(1,2)]], assumption, use fx(2,3) in \<open>simp_all add: history_after_call\<close>)
qed

lemma deliver_logon_to_initiator:
  assumes fx: "posted (scheduler (net fx)) = Deliver p d # ts" "open_net (net fx)" "session_of fx p = s"
    and d: "carries opt (logon_with h) (m_incoming_msg_seq_num s) d" "unat h < 2 ^ 31" "unat (m_incoming_msg_seq_num s) < 2 ^ 31"
    and s: "handshake_safe dict clock (m_options s)" "mirrored opt (m_options s)" "awaits_logon s" "m_logon_behaviour (m_options s) = initiator"
  obtains fx' d2 where "run_next (fixture_links dict orch clock) fx = (Inr (), fx')"
    "session_of fx' = (session_of fx)(p := s\<lparr> m_options := (m_options s)\<lparr> m_heartbeat_interval := h \<rparr>, m_logon_received := True,
       m_outgoing_msg_seq_num := m_outgoing_msg_seq_num s + 1, m_next_test_request_id := m_next_test_request_id s + 1,
       m_expected_test_request_id := Some (m_next_test_request_id s), m_incoming_msg_seq_num := m_incoming_msg_seq_num s + 1 \<rparr>)"
    "posted (scheduler (net fx')) = ts @ [Deliver (peer p) d2]"
    "carries (m_options s) (test_request_with (m_next_test_request_id s)) (m_outgoing_msg_seq_num s) d2"
    "open_net (net fx')" "\<And>k. tokens_left k (scheduler (net fx')) = tokens_left k (scheduler (net fx))"
    "history fx' = (history fx)(p := extend (history fx p) [d2] [d] [])"
proof -
  let ?w = "\<lparr> sess = session_of fx p, outside = arrive p d ts (net fx), emitted = signals_of fx p \<rparr>"
  have "open_net (outside ?w)" using fx(2) by simp
  then have wr: "\<not> writer_closed (endpoint_of (outside ?w) p)" by (simp add: open_net_def)
  have c: "carries opt (logon_with h) (m_incoming_msg_seq_num (sess ?w)) d" using d(1) fx(3) by simp
  have p: "mirrored opt (m_options (sess ?w))" "unat (m_incoming_msg_seq_num (sess ?w)) < 2 ^ 31" "awaits_logon (sess ?w)"
    "m_logon_behaviour (m_options (sess ?w)) = initiator" "handshake_safe dict clock (m_options (sess ?w))"
    using s d(3) fx(3) by simp_all
  show thesis
    by (rule initiator_logon_step[OF c d(2) p(1) refl p(2-4) refl p(5) wr, of orch])
       (rule that[OF run_next_deliver[where io = "fixture_links dict orch clock", OF fx(1,2)]], assumption, use fx(2,3) in \<open>simp_all add: history_after_call\<close>)
qed

lemma open_acceptor:
  assumes "open_net (net fx)" "m_state (session_of fx p) = connected" "m_logon_behaviour (m_options (session_of fx p)) = acceptor"
  obtains fx' where "with_party p (session_open (fixture_links dict orch clock p)) fx = (Inr (), fx')"
    "session_of fx' = (session_of fx)(p := (session_of fx p)\<lparr> m_state := logging_on \<rparr>)" "net fx' = net fx"
    "history fx' = (history fx)(p := extend (history fx p) [] [] [logging_on])"
proof -
  let ?w = "\<lparr> sess = (session_of fx p)\<lparr> m_state := logging_on \<rparr>, outside = net fx,
    emitted = signals_of fx p @ [State_changed connected logging_on] \<rparr>"
  have "session_open (fixture_links dict orch clock p) \<lparr> sess = session_of fx p, outside = net fx, emitted = signals_of fx p \<rparr> = (Inr (), ?w)"
    using assms
    by (simp add: session_open_def session_logon_def fixture_links_def test_reader_open_def open_net_def external_apply
        the_session_def set_state_apply)
  then have "with_party p (session_open (fixture_links dict orch clock p)) fx = (Inr (), after_call p ?w fx)"
    by (rule with_party_returns)
  then show thesis by (rule that) (simp_all add: history_after_call)
qed

lemma open_initiator:
  assumes fx: "open_net (net fx)" "session_of fx p = s"
    and s: "m_state s = connected" "m_logon_behaviour (m_options s) = initiator"
      "handshake_safe dict clock (m_options s)" "awaits_logon s"
  obtains fx' d where "with_party p (session_open (fixture_links dict orch clock p)) fx = (Inr (), fx')"
    "session_of fx' = (session_of fx)(p := s\<lparr> m_state := logging_on, m_outgoing_msg_seq_num := m_outgoing_msg_seq_num s + 1 \<rparr>)"
    "posted (scheduler (net fx')) = posted (scheduler (net fx)) @ [Deliver (peer p) d]"
    "carries (m_options s) (logon_with (m_heartbeat_interval (m_options s))) (m_outgoing_msg_seq_num s) d"
    "open_net (net fx')" "\<And>k. tokens_left k (scheduler (net fx')) = tokens_left k (scheduler (net fx))"
    "history fx' = (history fx)(p := extend (history fx p) [d] [] [logging_on])"
proof -
  let ?io = "fixture_links dict orch clock p"
  let ?w = "\<lparr> sess = s\<lparr> m_state := logging_on \<rparr>, outside = net fx, emitted = signals_of fx p @ [State_changed connected logging_on] \<rparr>"
  let ?m = "logon_with (m_heartbeat_interval (m_options s))"
  obtain m' d where d: "send_standard ?io ?m ?w = (Inr (), after_send p m' d ?w)"
    "carries (m_options (sess ?w)) ?m (m_outgoing_msg_seq_num (sess ?w)) d"
    by (rule send_handshake[of dict clock ?w ?m "m_heartbeat_interval (m_options s)" 0 p orch])
       (use s(3) fx(1) in \<open>simp_all add: open_net_def\<close>)
  have "send_logon ?io False ?w = (Inr (), after_send p m' d ?w)"
    using send_logon_plain[of ?w ?io] s(4) d(1) by (simp add: awaits_logon_def)
  then have "session_open ?io \<lparr> sess = s, outside = net fx, emitted = signals_of fx p \<rparr> = (Inr (), after_send p m' d ?w)"
    using s(1,2) fx(1)
    by (simp add: session_open_def session_logon_def external_apply the_session_def set_state_apply
        fixture_links_def test_reader_open_def open_net_def)
  then have "with_party p (session_open ?io) fx = (Inr (), after_call p (after_send p m' d ?w) fx)"
    by (intro with_party_returns) (simp add: fx(2))
  then show thesis by (rule that) (use d(2) fx(1) in \<open>simp_all add: history_after_call\<close>)
qed

section \<open>The handshake\<close>

definition can_log_on :: "orchestration_field_collection \<Rightarrow> (nat \<Rightarrow> utc_time) \<Rightarrow> behaviour \<Rightarrow> session \<Rightarrow> bool" where
  "can_log_on dict clock b s \<longleftrightarrow> m_state s = connected \<and> m_logon_behaviour (m_options s) = b \<and> awaits_logon s \<and>
     handshake_safe dict clock (m_options s) \<and> m_heartbeat_timer_token s = None"

text \<open>The two sessions expect each other's messages; there is room for three more numbers below \<open>2 ^ 31\<close>.\<close>

definition in_step :: "session \<Rightarrow> session \<Rightarrow> bool" where
  "in_step s t \<longleftrightarrow> mirrored (m_options s) (m_options t) \<and> m_incoming_msg_seq_num t = m_outgoing_msg_seq_num s \<and>
     unat (m_outgoing_msg_seq_num s) + 3 < 2 ^ 31"

lemma in_step_unat:
  assumes "in_step s t"
  shows "unat (m_outgoing_msg_seq_num s) < 2 ^ 31" "unat (m_outgoing_msg_seq_num s + 1) < 2 ^ 31" "unat (m_outgoing_msg_seq_num s + 2) < 2 ^ 31"
proof -
  let ?n = "m_outgoing_msg_seq_num s"
  have lt: "unat ?n + 3 < 2 ^ 31" using assms by (simp add: in_step_def)
  then have "unat (?n + 1) = unat ?n + 1" "unat (?n + 2) = unat ?n + 2" by (simp_all add: unat_word_ariths)
  with lt show "unat ?n < 2 ^ 31" "unat (?n + 1) < 2 ^ 31" "unat (?n + 2) < 2 ^ 31" by simp_all
qed

definition open_both :: "(party \<Rightarrow> network links) \<Rightarrow> (session_fixture, unit) proc" where
  "open_both io = seqP (with_party Acceptor (session_open (io Acceptor))) (with_party Initiator (session_open (io Initiator)))"

text \<open>Where both have opened: the Logon of the initiator is on its way.\<close>

lemma handshake_opened:
  assumes si: "session_of fx Initiator = si" "can_log_on dict clock initiator si"
    and sa: "session_of fx Acceptor = sa" "can_log_on dict clock acceptor sa"
    and net: "open_net (net fx)" "posted (scheduler (net fx)) = []"
  obtains fx' d where "open_both (fixture_links dict orch clock) fx = (Inr (), fx')"
    "session_of fx' Initiator = si\<lparr> m_state := logging_on, m_outgoing_msg_seq_num := m_outgoing_msg_seq_num si + 1 \<rparr>"
    "session_of fx' Acceptor = sa\<lparr> m_state := logging_on \<rparr>" "posted (scheduler (net fx')) = [Deliver Acceptor d]"
    "carries (m_options si) (logon_with (m_heartbeat_interval (m_options si))) (m_outgoing_msg_seq_num si) d"
    "open_net (net fx')" "\<And>k. tokens_left k (scheduler (net fx')) = tokens_left k (scheduler (net fx))"
    "history fx' Initiator = extend (history fx Initiator) [d] [] [logging_on]"
    "history fx' Acceptor = extend (history fx Acceptor) [] [] [logging_on]"
proof -
  let ?io = "fixture_links dict orch clock"
  have A: "m_state (session_of fx Acceptor) = connected" "m_logon_behaviour (m_options (session_of fx Acceptor)) = acceptor"
    and I: "m_state si = connected" "m_logon_behaviour (m_options si) = initiator" "handshake_safe dict clock (m_options si)" "awaits_logon si"
    using sa si by (simp_all add: can_log_on_def)
  show thesis
  proof (rule open_acceptor[OF net(1) A, of dict orch clock], goal_cases)
    case (1 f1)
    note o1 = 1
    have f1: "open_net (net f1)" "session_of f1 Initiator = si" using o1 net(1) si(1) by simp_all
    show thesis
    proof (rule open_initiator[OF f1 I, of orch], goal_cases)
      case (1 f2 d)
      then show thesis using o1 sa(1) net by (intro that[of f2 d]) (simp_all add: open_both_def)
    qed
  qed
qed

text \<open>The Logons: each party then waits for the answer to its TestRequest.\<close>

lemma handshake_logons:
  assumes fx: "session_of fx Initiator = si" "session_of fx Acceptor = sa" "open_net (net fx)"
      "posted (scheduler (net fx)) = [Deliver Acceptor d]"
    and I: "m_logon_behaviour (m_options si) = initiator" "awaits_logon si" "handshake_safe dict clock (m_options si)"
    and A: "m_logon_behaviour (m_options sa) = acceptor" "awaits_logon sa" "handshake_safe dict clock (m_options sa)"
    and P: "mirrored (m_options si) (m_options sa)" "m_incoming_msg_seq_num si = m_outgoing_msg_seq_num sa"
      "unat (m_incoming_msg_seq_num sa) < 2 ^ 31" "unat (m_incoming_msg_seq_num si) < 2 ^ 31"
    and d: "carries (m_options si) (logon_with h) (m_incoming_msg_seq_num sa) d" "unat h < 2 ^ 31"
  obtains fx' d2 d3 d4 where "run_tasks (fixture_links dict orch clock) 2 fx = (Inr (), fx')"
    "session_of fx' Initiator = si\<lparr> m_options := (m_options si)\<lparr> m_heartbeat_interval := h \<rparr>, m_logon_received := True,
       m_outgoing_msg_seq_num := m_outgoing_msg_seq_num si + 1, m_next_test_request_id := m_next_test_request_id si + 1,
       m_expected_test_request_id := Some (m_next_test_request_id si), m_incoming_msg_seq_num := m_incoming_msg_seq_num si + 1 \<rparr>"
    "session_of fx' Acceptor = sa\<lparr> m_options := (m_options sa)\<lparr> m_heartbeat_interval := h \<rparr>, m_logon_received := True,
       m_outgoing_msg_seq_num := m_outgoing_msg_seq_num sa + 2, m_next_test_request_id := m_next_test_request_id sa + 1,
       m_expected_test_request_id := Some (m_next_test_request_id sa), m_incoming_msg_seq_num := m_incoming_msg_seq_num sa + 1 \<rparr>"
    "posted (scheduler (net fx')) = [Deliver Initiator d3, Deliver Acceptor d4]"
    "carries (m_options sa) (test_request_with (m_next_test_request_id sa)) (m_outgoing_msg_seq_num sa + 1) d3"
    "carries (m_options si) (test_request_with (m_next_test_request_id si)) (m_outgoing_msg_seq_num si) d4"
    "open_net (net fx')" "\<And>k. tokens_left k (scheduler (net fx')) = tokens_left k (scheduler (net fx))"
    "carries (m_options sa) (logon_with h) (m_outgoing_msg_seq_num sa) d2"
    "history fx' Initiator = extend (history fx Initiator) [d4] [d2] []" "history fx' Acceptor = extend (history fx Acceptor) [d2, d3] [d] []"
proof (rule deliver_logon_to_acceptor[OF fx(4,3,2) d P(3) A(3) P(1) A(2,1), of orch])
  let ?io = "fixture_links dict orch clock"
  fix f1 d2 d3
  assume t1: "run_next ?io fx = (Inr (), f1)"
    "session_of f1 = (session_of fx)(Acceptor := sa\<lparr> m_options := (m_options sa)\<lparr> m_heartbeat_interval := h \<rparr>, m_logon_received := True,
       m_outgoing_msg_seq_num := m_outgoing_msg_seq_num sa + 2, m_next_test_request_id := m_next_test_request_id sa + 1,
       m_expected_test_request_id := Some (m_next_test_request_id sa), m_incoming_msg_seq_num := m_incoming_msg_seq_num sa + 1 \<rparr>)"
    "posted (scheduler (net f1)) = [] @ [Deliver (peer Acceptor) d2, Deliver (peer Acceptor) d3]"
    "carries (m_options sa) (logon_with h) (m_outgoing_msg_seq_num sa) d2"
    "carries (m_options sa) (test_request_with (m_next_test_request_id sa)) (m_outgoing_msg_seq_num sa + 1) d3"
    "open_net (net f1)" "\<And>k. tokens_left k (scheduler (net f1)) = tokens_left k (scheduler (net fx))"
    "history f1 = (history fx)(Acceptor := extend (history fx Acceptor) [d2, d3] [d] [])"
  have q: "posted (scheduler (net f1)) = Deliver Initiator d2 # [Deliver Initiator d3]" "session_of f1 Initiator = si"
    using t1(2,3) fx(1) by simp_all
  have d2: "carries (m_options sa) (logon_with h) (m_incoming_msg_seq_num si) d2" "mirrored (m_options sa) (m_options si)"
    using t1(4) P(1,2) by (simp_all add: mirrored_def)
  show thesis
  proof (rule deliver_logon_to_initiator[OF q(1) t1(6) q(2) d2(1) d(2) P(4) I(3) d2(2) I(2,1), of orch], goal_cases)
    case (1 f2 d4)
    then show thesis using t1(1,2,4,5,7,8) fx(2) by (intro that[of f2 d3 d4 d2]) (simp_all add: numeral_2_eq_2)
  qed
qed

text \<open>The TestRequests and the Heartbeats that answer them.\<close>

lemma handshake_answers:
  assumes fx: "session_of fx p = si" "session_of fx (peer p) = sa" "open_net (net fx)" "tokens_left 2 (scheduler (net fx))"
      "posted (scheduler (net fx)) = [Deliver p d3, Deliver (peer p) d4]"
    and si: "handshake_party dict clock opta si" "m_state si = st" "m_expected_test_request_id si = Some x"
    and sa: "handshake_party dict clock opti sa" "m_state sa = st" "m_expected_test_request_id sa = Some y"
    and st: "st \<in> {logging_on, resetting, resending}"
    and P: "m_incoming_msg_seq_num si + 1 = m_outgoing_msg_seq_num sa" "m_incoming_msg_seq_num sa + 1 = m_outgoing_msg_seq_num si"
      "opta = m_options sa" "opti = m_options si"
      "unat (m_incoming_msg_seq_num si) < 2 ^ 31" "unat (m_incoming_msg_seq_num si + 1) < 2 ^ 31"
      "unat (m_incoming_msg_seq_num sa) < 2 ^ 31" "unat (m_incoming_msg_seq_num sa + 1) < 2 ^ 31"
    and d: "carries opta (test_request_with y) (m_incoming_msg_seq_num si) d3" "carries opti (test_request_with x) (m_incoming_msg_seq_num sa) d4"
  obtains fx' ti ta d5 d6 where "run_tasks (fixture_links dict orch clock) 4 fx = (Inr (), fx')" "posted (scheduler (net fx')) = []"
    "session_of fx' p = si\<lparr> m_outgoing_msg_seq_num := m_outgoing_msg_seq_num si + 1,
       m_incoming_msg_seq_num := m_incoming_msg_seq_num si + 1 + 1, m_state := logged_on, m_heartbeat_timer_token := ti \<rparr>"
    "session_of fx' (peer p) = sa\<lparr> m_outgoing_msg_seq_num := m_outgoing_msg_seq_num sa + 1,
       m_incoming_msg_seq_num := m_incoming_msg_seq_num sa + 1 + 1, m_state := logged_on, m_heartbeat_timer_token := ta \<rparr>"
    "ti \<noteq> None \<longleftrightarrow> m_heartbeat_interval (m_options si) \<noteq> 0" "ta \<noteq> None \<longleftrightarrow> m_heartbeat_interval (m_options sa) \<noteq> 0"
    "carries (m_options si) (heartbeat_with y) (m_outgoing_msg_seq_num si) d5"
    "carries (m_options sa) (heartbeat_with x) (m_outgoing_msg_seq_num sa) d6"
    "history fx' p = extend (history fx p) [d5] [d3, d6] [logged_on]"
    "history fx' (peer p) = extend (history fx (peer p)) [d6] [d4, d5] [logged_on]"
proof (rule deliver_test_request[OF fx(5,3,1) d(1) P(5) si(1), of orch], goal_cases)
  case (1 f1 d5)
  let ?si = "si\<lparr> m_incoming_msg_seq_num := m_incoming_msg_seq_num si + 1, m_outgoing_msg_seq_num := m_outgoing_msg_seq_num si + 1 \<rparr>"
  let ?sa = "sa\<lparr> m_incoming_msg_seq_num := m_incoming_msg_seq_num sa + 1, m_outgoing_msg_seq_num := m_outgoing_msg_seq_num sa + 1 \<rparr>"
  have f1: "posted (scheduler (net f1)) = Deliver (peer p) d4 # [Deliver (peer p) d5]" "session_of f1 (peer p) = sa"
    using 1(3,4) fx(2) by simp_all
  show thesis
  proof (rule deliver_test_request[OF f1(1) 1(6) f1(2) d(2) P(7) sa(1), of orch], goal_cases)
    case (1 f2 d6)
    note t2 = 1
    have f2: "posted (scheduler (net f2)) = Deliver (peer p) d5 # [Deliver p d6]" "session_of f2 (peer p) = ?sa"
      "tokens_left (Suc 1) (scheduler (net f2))" "carries opti (heartbeat_with y) (m_incoming_msg_seq_num ?sa) d5"
      using t2(2,3,6) \<open>\<And>k. tokens_left k (scheduler (net f1)) = _\<close> fx(4) \<open>carries (m_options si) _ _ d5\<close> P(2,4)
      by (simp_all add: numeral_2_eq_2)
    have sa': "handshake_party dict clock opti ?sa" "m_state ?sa = st" "st \<in> {logging_on, resetting, resending}"
        "m_expected_test_request_id ?sa = Some y" "unat (m_incoming_msg_seq_num ?sa) < 2 ^ 31"
      using sa st P(8) by (simp_all add: handshake_party_def)
    show thesis
    proof (rule deliver_heartbeat[OF f2(1) t2(5) f2(2,3,4) sa'(5) sa'(1-4), of orch], goal_cases)
      case (1 f3 ta)
      note t3 = 1
      have f3: "session_of f3 p = ?si" "tokens_left (Suc 0) (scheduler (net f3))"
        "carries opta (heartbeat_with x) (m_incoming_msg_seq_num ?si) d6"
        using t3(2,5) t2(2,4) \<open>session_of f1 = _\<close> P(1,3) by simp_all
      have si': "handshake_party dict clock opta ?si" "m_state ?si = st" "st \<in> {logging_on, resetting, resending}"
        "m_expected_test_request_id ?si = Some x" "unat (m_incoming_msg_seq_num ?si) < 2 ^ 31"
        using si st P(6) by (simp_all add: handshake_party_def)
      show thesis
      proof (rule deliver_heartbeat[OF t3(3,4) f3 si'(5) si'(1-4), of orch], goal_cases)
        case (1 f4 ti)
        then show thesis
          using t2(1,2,4,7) t3(1,2,6,7) \<open>run_next _ fx = _\<close> \<open>session_of f1 = _\<close> \<open>history f1 = _\<close> \<open>carries (m_options si) _ _ d5\<close>
          by (intro that[of f4 ti ta d5 d6]) (simp_all add: eval_nat_numeral)
      qed
    qed
  qed
qed

text \<open>Opening and Logons together: each session waits for the answer to its TestRequest.\<close>

lemma handshake_requests:
  assumes si: "session_of fx Initiator = si" "can_log_on dict clock initiator si"
    and sa: "session_of fx Acceptor = sa" "can_log_on dict clock acceptor sa"
    and pair: "in_step si sa" "in_step sa si" "unat (m_heartbeat_interval (m_options si)) < 2 ^ 31"
    and net: "open_net (net fx)" "posted (scheduler (net fx)) = []"
  obtains fx' d1 d2 d3 d4 where "seqP (open_both (fixture_links dict orch clock)) (run_tasks (fixture_links dict orch clock) 2) fx = (Inr (), fx')"
    "session_of fx' Initiator = si\<lparr> m_state := logging_on,
       m_options := (m_options si)\<lparr> m_heartbeat_interval := m_heartbeat_interval (m_options si) \<rparr>, m_logon_received := True,
       m_outgoing_msg_seq_num := m_outgoing_msg_seq_num si + 2, m_next_test_request_id := m_next_test_request_id si + 1,
       m_expected_test_request_id := Some (m_next_test_request_id si), m_incoming_msg_seq_num := m_outgoing_msg_seq_num sa + 1 \<rparr>"
    "session_of fx' Acceptor = sa\<lparr> m_state := logging_on,
       m_options := (m_options sa)\<lparr> m_heartbeat_interval := m_heartbeat_interval (m_options si) \<rparr>, m_logon_received := True,
       m_outgoing_msg_seq_num := m_outgoing_msg_seq_num sa + 2, m_next_test_request_id := m_next_test_request_id sa + 1,
       m_expected_test_request_id := Some (m_next_test_request_id sa), m_incoming_msg_seq_num := m_outgoing_msg_seq_num si + 1 \<rparr>"
    "posted (scheduler (net fx')) = [Deliver Initiator d3, Deliver Acceptor d4]"
    "carries (m_options sa) (test_request_with (m_next_test_request_id sa)) (m_outgoing_msg_seq_num sa + 1) d3"
    "carries (m_options si) (test_request_with (m_next_test_request_id si)) (m_outgoing_msg_seq_num si + 1) d4"
    "open_net (net fx')" "\<And>k. tokens_left k (scheduler (net fx')) = tokens_left k (scheduler (net fx))"
    "carries (m_options si) (logon_with (m_heartbeat_interval (m_options si))) (m_outgoing_msg_seq_num si) d1"
    "carries (m_options sa) (logon_with (m_heartbeat_interval (m_options si))) (m_outgoing_msg_seq_num sa) d2"
    "history fx' Initiator = extend (history fx Initiator) [d1, d4] [d2] [logging_on]"
    "history fx' Acceptor = extend (history fx Acceptor) [d2, d3] [d1] [logging_on]"
proof (rule handshake_opened[OF si sa net, of orch], goal_cases)
  let ?io = "fixture_links dict orch clock"
  let ?s = "si\<lparr> m_state := logging_on, m_outgoing_msg_seq_num := m_outgoing_msg_seq_num si + 1 \<rparr>"
  let ?t = "sa\<lparr> m_state := logging_on \<rparr>" and ?h = "m_heartbeat_interval (m_options si)"
  case (1 f1 d1)
  note f1 = 1(2-10)
  have P: "mirrored (m_options si) (m_options sa)" "m_incoming_msg_seq_num sa = m_outgoing_msg_seq_num si"
    "m_incoming_msg_seq_num si = m_outgoing_msg_seq_num sa"
    using pair by (simp_all add: in_step_def)
  have c: "m_logon_behaviour (m_options ?s) = initiator" "awaits_logon ?s" "handshake_safe dict clock (m_options ?s)"
    "m_logon_behaviour (m_options ?t) = acceptor" "awaits_logon ?t" "handshake_safe dict clock (m_options ?t)"
    "mirrored (m_options ?s) (m_options ?t)" "m_incoming_msg_seq_num ?s = m_outgoing_msg_seq_num ?t"
    "unat (m_incoming_msg_seq_num ?t) < 2 ^ 31" "unat (m_incoming_msg_seq_num ?s) < 2 ^ 31"
    "carries (m_options ?s) (logon_with ?h) (m_incoming_msg_seq_num ?t) d1"
    using si(2) sa(2) P f1(5) in_step_unat(1)[OF pair(1)] in_step_unat(1)[OF pair(2)]
    by (simp_all add: can_log_on_def awaits_logon_def)
  show thesis
  proof (rule handshake_logons[OF f1(2,3,6,4) c pair(3), of orch], goal_cases)
    case (1 f2 d2 d3 d4)
    then show thesis using f1(1,5,7-9) P by (intro that[of f2 d3 d4 d1 d2]) (simp_all add: add.commute)
  qed
qed

text \<open>
  The whole exchange: who has sent what, who has received it, and the states both went through.
\<close>

definition exchanged :: "session \<Rightarrow> session \<Rightarrow> u32 \<Rightarrow> message list \<Rightarrow> message list \<Rightarrow> bool" where
  "exchanged s t h ds ds' \<longleftrightarrow> (\<exists>d1 d2 d3. ds = [d1, d2, d3] \<and> (\<exists>e1 e2 e3. ds' = [e1, e2, e3] \<and>
     carries (m_options s) (logon_with h) (m_outgoing_msg_seq_num s) d1 \<and>
     carries (m_options s) (test_request_with (m_next_test_request_id s)) (m_outgoing_msg_seq_num s + 1) d2 \<and>
     carries (m_options s) (heartbeat_with (m_next_test_request_id t)) (m_outgoing_msg_seq_num s + 2) d3 \<and>
     carries (m_options t) (logon_with h) (m_outgoing_msg_seq_num t) e1 \<and>
     carries (m_options t) (test_request_with (m_next_test_request_id t)) (m_outgoing_msg_seq_num t + 1) e2 \<and>
     carries (m_options t) (heartbeat_with (m_next_test_request_id s)) (m_outgoing_msg_seq_num t + 2) e3))"

definition logged_on_from :: "session \<Rightarrow> u32 \<Rightarrow> session \<Rightarrow> bool" where
  "logged_on_from s h s' \<longleftrightarrow> (\<exists>tok. (tok \<noteq> None \<longleftrightarrow> h \<noteq> 0) \<and> s' = s\<lparr> m_state := logged_on,
     m_options := (m_options s)\<lparr> m_heartbeat_interval := h \<rparr>, m_logon_received := True,
     m_outgoing_msg_seq_num := m_outgoing_msg_seq_num s + 3, m_next_test_request_id := m_next_test_request_id s + 1,
     m_expected_test_request_id := Some (m_next_test_request_id s), m_incoming_msg_seq_num := m_incoming_msg_seq_num s + 3,
     m_heartbeat_timer_token := tok \<rparr>)"

lemma handshake_exchanged:
  assumes si: "session_of fx Initiator = si" "can_log_on dict clock initiator si"
    and sa: "session_of fx Acceptor = sa" "can_log_on dict clock acceptor sa"
    and pair: "in_step si sa" "in_step sa si" "unat (m_heartbeat_interval (m_options si)) < 2 ^ 31"
    and net: "open_net (net fx)" "posted (scheduler (net fx)) = []" "tokens_left 2 (scheduler (net fx))"
  obtains fx' ds ds' where
    "seqP (open_both (fixture_links dict orch clock)) (run_tasks (fixture_links dict orch clock) 6) fx = (Inr (), fx')"
    "posted (scheduler (net fx')) = []"
    "logged_on_from si (m_heartbeat_interval (m_options si)) (session_of fx' Initiator)"
    "logged_on_from sa (m_heartbeat_interval (m_options si)) (session_of fx' Acceptor)"
    "exchanged si sa (m_heartbeat_interval (m_options si)) ds ds'"
    "history fx' Initiator = extend (history fx Initiator) ds ds' [logging_on, logged_on]"
    "history fx' Acceptor = extend (history fx Acceptor) ds' ds [logging_on, logged_on]"
proof (rule handshake_requests[OF si sa pair net(1,2), of orch])
  let ?io = "fixture_links dict orch clock" and ?h = "m_heartbeat_interval (m_options si)"
  fix f2 d3 d4 d1 d2
  let ?s = "si\<lparr> m_state := logging_on, m_options := (m_options si)\<lparr> m_heartbeat_interval := ?h \<rparr>, m_logon_received := True,
       m_outgoing_msg_seq_num := m_outgoing_msg_seq_num si + 2, m_next_test_request_id := m_next_test_request_id si + 1,
       m_expected_test_request_id := Some (m_next_test_request_id si), m_incoming_msg_seq_num := m_outgoing_msg_seq_num sa + 1 \<rparr>"
  let ?t = "sa\<lparr> m_state := logging_on, m_options := (m_options sa)\<lparr> m_heartbeat_interval := ?h \<rparr>, m_logon_received := True,
       m_outgoing_msg_seq_num := m_outgoing_msg_seq_num sa + 2, m_next_test_request_id := m_next_test_request_id sa + 1,
       m_expected_test_request_id := Some (m_next_test_request_id sa), m_incoming_msg_seq_num := m_outgoing_msg_seq_num si + 1 \<rparr>"
  assume f2: "seqP (open_both ?io) (run_tasks ?io 2) fx = (Inr (), f2)" "session_of f2 Initiator = ?s" "session_of f2 Acceptor = ?t"
    "posted (scheduler (net f2)) = [Deliver Initiator d3, Deliver Acceptor d4]"
    "carries (m_options sa) (test_request_with (m_next_test_request_id sa)) (m_outgoing_msg_seq_num sa + 1) d3"
    "carries (m_options si) (test_request_with (m_next_test_request_id si)) (m_outgoing_msg_seq_num si + 1) d4"
    "open_net (net f2)" "\<And>k. tokens_left k (scheduler (net f2)) = tokens_left k (scheduler (net fx))"
    "carries (m_options si) (logon_with ?h) (m_outgoing_msg_seq_num si) d1"
    "carries (m_options sa) (logon_with ?h) (m_outgoing_msg_seq_num sa) d2"
    "history f2 Initiator = extend (history fx Initiator) [d1, d4] [d2] [logging_on]"
    "history f2 Acceptor = extend (history fx Acceptor) [d2, d3] [d1] [logging_on]"
  have tok: "tokens_left 2 (scheduler (net f2))" using f2(8) net(3) by simp
  have at: "session_of f2 (peer Initiator) = ?t" "posted (scheduler (net f2)) = [Deliver Initiator d3, Deliver (peer Initiator) d4]"
    using f2(3,4) by simp_all
  have S: "handshake_party dict clock (m_options ?t) ?s" "m_state ?s = logging_on"
    "m_expected_test_request_id ?s = Some (m_next_test_request_id si)"
    and T: "handshake_party dict clock (m_options ?s) ?t" "m_state ?t = logging_on"
    "m_expected_test_request_id ?t = Some (m_next_test_request_id sa)" "logging_on \<in> {logging_on, resetting, resending}"
    using si(2) sa(2) pair by (simp_all add: handshake_party_def can_log_on_def in_step_def)
  have Q: "m_incoming_msg_seq_num ?s + 1 = m_outgoing_msg_seq_num ?t" "m_incoming_msg_seq_num ?t + 1 = m_outgoing_msg_seq_num ?s"
    "m_options ?t = m_options ?t" "m_options ?s = m_options ?s"
    "unat (m_incoming_msg_seq_num ?s) < 2 ^ 31" "unat (m_incoming_msg_seq_num ?s + 1) < 2 ^ 31"
    "unat (m_incoming_msg_seq_num ?t) < 2 ^ 31" "unat (m_incoming_msg_seq_num ?t + 1) < 2 ^ 31"
    "carries (m_options ?t) (test_request_with (m_next_test_request_id sa)) (m_incoming_msg_seq_num ?s) d3"
    "carries (m_options ?s) (test_request_with (m_next_test_request_id si)) (m_incoming_msg_seq_num ?t) d4"
    using in_step_unat[OF pair(1)] in_step_unat[OF pair(2)] f2(5,6) by (simp_all add: add.commute)
  show thesis
  proof (rule handshake_answers[OF f2(2) at(1) f2(7) tok at(2) S T Q, of orch], goal_cases)
    case (1 f3 ti ta d5 d6)
    have "run_tasks ?io 6 f1 = (Inr (), f3)" if "run_tasks ?io 2 f1 = (Inr (), f2)" for f1
      using run_tasks_split[OF that 1(1)] by simp
    then have run: "seqP (open_both ?io) (run_tasks ?io 6) fx = (Inr (), f3)" using f2(1) by (auto simp: seqP_returns)
    have nums: "m_incoming_msg_seq_num si = m_outgoing_msg_seq_num sa" "m_incoming_msg_seq_num sa = m_outgoing_msg_seq_num si"
      using pair by (simp_all add: in_step_def)
    show thesis
    proof (rule that[OF run 1(2), of "[d1, d4, d5]" "[d2, d3, d6]"])
      show "logged_on_from si ?h (session_of f3 Initiator)"
        unfolding logged_on_from_def using 1(3,5) nums by (intro exI[of _ ti]) (simp add: add.commute)
      show "logged_on_from sa ?h (session_of f3 Acceptor)"
        unfolding logged_on_from_def using 1(4,6) nums by (intro exI[of _ ta]) (simp add: add.commute)
      show "exchanged si sa ?h [d1, d4, d5] [d2, d3, d6]"
        using 1(7,8) f2(5,6,9,10) by (simp add: exchanged_def)
      show "history f3 Initiator = extend (history fx Initiator) [d1, d4, d5] [d2, d3, d6] [logging_on, logged_on]"
        "history f3 Acceptor = extend (history fx Acceptor) [d2, d3, d6] [d1, d4, d5] [logging_on, logged_on]"
        using 1(9,10) f2(11,12) by simp_all
    qed
  qed
qed

text \<open>
  C4: the logon handshake completes. Take an initiator and an acceptor that mirror each other's comp
  ids, expect each other's next numbers and send their TestRequests without delay, joined by an open
  connection. Opening both and then running the six deliveries that follow leaves nothing to deliver
  and both sessions logged on: each has sent three messages and received three, both have the
  heartbeat interval of the initiator, and the heartbeat timer runs in each exactly when that interval
  is not zero. It holds for all sequence numbers, comp ids, clocks and dictionaries with which the
  messages fit the wire.
\<close>

theorem logon_handshake_completes:
  assumes si: "session_of fx Initiator = si" "can_log_on dict clock initiator si"
    and sa: "session_of fx Acceptor = sa" "can_log_on dict clock acceptor sa"
    and pair: "in_step si sa" "in_step sa si" "unat (m_heartbeat_interval (m_options si)) < 2 ^ 31"
    and net: "open_net (net fx)" "posted (scheduler (net fx)) = []" "tokens_left 2 (scheduler (net fx))"
  shows "\<exists>fx'. seqP (open_both (fixture_links dict orch clock)) (run_tasks (fixture_links dict orch clock) 6) fx = (Inr (), fx') \<and>
    posted (scheduler (net fx')) = [] \<and>
    (\<forall>p. m_state (session_of fx' p) = logged_on \<and>
       m_outgoing_msg_seq_num (session_of fx' p) = m_outgoing_msg_seq_num (session_of fx p) + 3 \<and>
       m_incoming_msg_seq_num (session_of fx' p) = m_incoming_msg_seq_num (session_of fx p) + 3 \<and>
       m_heartbeat_interval (m_options (session_of fx' p)) = m_heartbeat_interval (m_options si) \<and>
       (m_heartbeat_timer_token (session_of fx' p) \<noteq> None \<longleftrightarrow> m_heartbeat_interval (m_options si) \<noteq> 0))"
  by (rule handshake_exchanged[OF si sa pair net, of orch])
     (use si(1) sa(1) in \<open>auto simp: all_party logged_on_from_def\<close>)

section \<open>The fixture of the tests\<close>

text \<open>The fixture with a clock that stands still and a dictionary of plain fields.\<close>

definition sample_clock :: "nat \<Rightarrow> utc_time" where
  "sample_clock n = \<lparr> tm_year = 2024, tm_mon = 1, tm_mday = 2, tm_hour = 3, tm_min = 4, tm_sec = 5, tm_millis = 6 \<rparr>"

definition plain_dict :: orchestration_field_collection where
  "plain_dict = \<lparr> m_field_offsets = replicate 113 0, m_of_fields = [sample_field False], m_fields_by_name = [] \<rparr>"

definition plain_orchestration :: orchestration where
  "plain_orchestration = \<lparr> o_messages = make_message_collection [], o_fields = plain_dict \<rparr>"

lemma configured:
  "\<exists>fx. configure_fixture new_fixture = (Inr (), fx) \<and> net fx = net new_fixture \<and> state_changes_of fx = (\<lambda>_. []) \<and>
    session_of fx Initiator = initial_session\<lparr> m_options := default_session_options\<lparr> m_test_request_delay := 0,
      m_begin_string := ''FIXT.1.1'', m_sender_comp_id := ''INITIATOR'', m_target_comp_id := ''ACCEPTOR'' \<rparr> \<rparr> \<and>
    session_of fx Acceptor = initial_session\<lparr> m_options := default_session_options\<lparr> m_logon_behaviour := acceptor, m_test_request_delay := 0,
      m_begin_string := ''FIXT.1.1'', m_sender_comp_id := ''ACCEPTOR'', m_target_comp_id := ''INITIATOR'' \<rparr> \<rparr>"
  by (simp add: configure_fixture_def new_fixture_def with_party_def set_test_request_delay_def set_begin_string_option_def
      set_sender_comp_id_def set_target_comp_id_def set_logon_behaviour_def ensure_options_are_mutable_def on_options_def on_session_def
      the_session_def initial_session_def fun_eq_iff)

lemma sample_texts_short:
  "short_text ''FIXT.1.1''" "short_text ''INITIATOR''" "short_text ''ACCEPTOR''"
  by code_simp+

lemma sample_time_short: "short_text (timestamp_string Milliseconds (sample_clock n))"
  by (simp add: sample_clock_def seconds_text_def zero_pad_def nat_to_string.simps short_text_def)

lemma plain_dict_knows: "list_all (known_tag plain_dict) (header_tags @ [EncryptMethod_Tag, HeartBtInt_Tag, TestReqID_Tag])"
  by code_simp

theorem logon_handshake_completes_witness:
  "\<exists>fx fx'. configure_fixture new_fixture = (Inr (), fx) \<and>
     seqP (open_both (fixture_links plain_dict plain_orchestration sample_clock))
       (run_tasks (fixture_links plain_dict plain_orchestration sample_clock) 6) fx = (Inr (), fx') \<and>
     m_state (session_of fx' Initiator) = logged_on \<and> m_state (session_of fx' Acceptor) = logged_on \<and>
     m_outgoing_msg_seq_num (session_of fx' Initiator) = 4 \<and> m_heartbeat_timer_token (session_of fx' Acceptor) \<noteq> None"
proof -
  obtain fx where fx: "configure_fixture new_fixture = (Inr (), fx)" "net fx = net new_fixture"
    "session_of fx Initiator = initial_session\<lparr> m_options := default_session_options\<lparr> m_test_request_delay := 0,
      m_begin_string := ''FIXT.1.1'', m_sender_comp_id := ''INITIATOR'', m_target_comp_id := ''ACCEPTOR'' \<rparr> \<rparr>" (is "_ = ?si")
    "session_of fx Acceptor = initial_session\<lparr> m_options := default_session_options\<lparr> m_logon_behaviour := acceptor, m_test_request_delay := 0,
      m_begin_string := ''FIXT.1.1'', m_sender_comp_id := ''ACCEPTOR'', m_target_comp_id := ''INITIATOR'' \<rparr> \<rparr>" (is "_ = ?sa")
    using configured by blast
  have i: "can_log_on plain_dict sample_clock initiator ?si" "can_log_on plain_dict sample_clock acceptor ?sa"
    using sample_texts_short sample_time_short plain_dict_knows
    by (simp_all add: can_log_on_def awaits_logon_def handshake_safe_def wire_safe_def initial_session_def default_session_options_def)
  have s: "in_step ?si ?sa" "in_step ?sa ?si" "unat (m_heartbeat_interval (m_options ?si)) < 2 ^ 31"
    by (simp_all add: in_step_def mirrored_def initial_session_def default_session_options_def)
  have n: "open_net (net fx)" "posted (scheduler (net fx)) = []" "tokens_left 2 (scheduler (net fx))"
    by (simp_all add: fx(2) new_fixture_def open_net_def tokens_left_def scheduler_ok_def make_scheduler_def sm.all_entries_def map_ok_def map_find_def)
  from logon_handshake_completes[OF fx(3) i(1) fx(4) i(2) s n, of plain_orchestration] fx(1,3) show ?thesis
    by (auto simp: initial_session_def default_session_options_def)
qed

definition sample_options :: "string \<Rightarrow> string \<Rightarrow> session_options" where
  "sample_options sender target = default_session_options\<lparr> m_begin_string := ''FIXT.1.1'', m_sender_comp_id := sender, m_target_comp_id := target \<rparr>"

theorem peer_accepts_what_is_sent_witness:
  "\<exists>w k out m' d. message_encode test_buffer_size encode_standard ((logon_with 30)\<lparr> m_fields :=
       stamp_fields (sample_options ''INITIATOR'' ''ACCEPTOR'') encode_standard 7 (sample_clock 0) (m_fields (logon_with 30)) \<rparr>) =
       (Inr (k, out), m') \<and>
     message_decode plain_dict (out @ []) empty_message = (Inr \<lparr> consumed = k, complete = True \<rparr>, d) \<and>
     m_options (sess w) = sample_options ''ACCEPTOR'' ''INITIATOR'' \<and>
     validate_checksum (fixture_links plain_dict plain_orchestration sample_clock Acceptor) d w = (Inr True, w) \<and>
     fc_try_get MsgSeqNum_Tag (m_fields d) = Some (field_u32 MsgSeqNum_Tag 7)"
proof -
  let ?o = "sample_options ''INITIATOR'' ''ACCEPTOR''" and ?m = "logon_with 30"
  let ?w = "\<lparr> sess = initial_session\<lparr> m_options := sample_options ''ACCEPTOR'' ''INITIATOR'' \<rparr>, outside = net new_fixture, emitted = [] \<rparr>"
  have safe: "handshake_safe plain_dict sample_clock ?o"
    using sample_texts_short sample_time_short plain_dict_knows
    by (simp add: handshake_safe_def wire_safe_def sample_options_def default_session_options_def)
  have "?m \<in> {logon_with 30, test_request_with 0, heartbeat_with 0}" by simp
  note ok = handshake_message_ok[OF safe this]
  have "wire_safe plain_dict sample_clock ?o" using safe by (simp add: handshake_safe_def)
  then have "\<forall>f \<in> set (stamp_fields ?o encode_standard 7 (sample_clock 0) (m_fields ?m)). short_field plain_dict f"
    using short_stamped[OF _ ok(2)] by (simp add: all_short_def)
  from short_message_encodes[OF ok(1) full_options_used(1) this ok(3)] obtain k out m' where
    e: "message_encode test_buffer_size encode_standard (?m\<lparr> m_fields := stamp_fields ?o encode_standard 7 (sample_clock 0) (m_fields ?m) \<rparr>) =
        (Inr (k, out), m')" "k \<noteq> 0" "wire_ok plain_dict [] (m_fields m')" .
  obtain r d where d: "message_decode plain_dict (out @ []) empty_message = (r, d)" by fastforce
  have mir: "mirrored ?o (m_options (sess ?w))" by (simp add: mirrored_def sample_options_def)
  from peer_accepts_what_is_sent[OF ok(1) full_options_used(1) mir e d] e(1) d show ?thesis
    by (intro exI[of _ ?w] exI[of _ k] exI[of _ out] exI[of _ m'] exI[of _ d]) simp
qed

end
