(* ===== verification/Logon_Sequence.thy ===== *)
theory Logon_Sequence
  imports Logon_Handshake
begin

text \<open>
  The expectations of \<open>libcrocofix_tests/session_fixture.cpp\<close> and the sequence with which its tests
  begin. The main thread opens both sessions and then takes message after message and state after
  state from the queues; the scheduler thread runs \<open>n\<close> tasks before the first of these calls
  of \<open>try_dequeue\<close> is served, and none after it.
\<close>

section \<open>Expectations\<close>

text \<open>The expected fields, in their order, from \<open>current\<close> on; a field that was found is looked at again for the next.\<close>

fun expect_fields :: "field_collection \<Rightarrow> field list \<Rightarrow> bool" where
  "expect_fields current [] = True"
| "expect_fields current (expected # es) =
     (case dropWhile (\<lambda>f. m_tag f \<noteq> m_tag expected) current of
        [] \<Rightarrow> False
      | actual # rest \<Rightarrow> m_value actual = m_value expected \<and> expect_fields (actual # rest) es)"

definition expect :: "string \<Rightarrow> (message \<Rightarrow> exn + unit) option \<Rightarrow> field list \<Rightarrow> (message list, bool) proc" where
  "expect msg_type validator es messages =
     (case bq_pop messages of
        None \<Rightarrow> (Inr False, messages)
      | Some (m, rest) \<Rightarrow>
          (case message_MsgType m of
             Inl e \<Rightarrow> (Inl e, rest)
           | Inr type \<Rightarrow>
               if type \<noteq> msg_type then (Inr False, rest)
               else if \<not> expect_fields (m_fields m) es then (Inr False, rest)
               else (case validator of
                       None \<Rightarrow> (Inr True, rest)
                     | Some check \<Rightarrow> (case check m of Inl e \<Rightarrow> (Inl e, rest) | Inr _ \<Rightarrow> (Inr True, rest)))))"

definition sent_from :: "party \<Rightarrow> string \<Rightarrow> field list \<Rightarrow> (session_fixture, bool) proc" where
  "sent_from p msg_type es fx =
     (case expect msg_type None es (outgoing_messages (endpoint_of (net fx) p)) of
        (r, q) \<Rightarrow> (r, fx\<lparr> net := on_endpoint p (\<lambda>x. x\<lparr> outgoing_messages := q \<rparr>) (net fx) \<rparr>))"

definition received_at :: "party \<Rightarrow> string \<Rightarrow> (message \<Rightarrow> exn + unit) option \<Rightarrow> field list \<Rightarrow> (session_fixture, bool) proc" where
  "received_at p msg_type validator es fx =
     (case expect msg_type validator es (incoming_messages (endpoint_of (net fx) p)) of
        (r, q) \<Rightarrow> (r, fx\<lparr> net := on_endpoint p (\<lambda>x. x\<lparr> incoming_messages := q \<rparr>) (net fx) \<rparr>))"

definition expect_state_change :: "session_state \<Rightarrow> (session_state list, bool) proc" where
  "expect_state_change expected_state state_changes =
     (case bq_pop state_changes of
        None \<Rightarrow> (Inr False, state_changes)
      | Some (state, rest) \<Rightarrow> (Inr (state = expected_state), rest))"

definition state_change :: "party \<Rightarrow> session_state \<Rightarrow> (session_fixture, bool) proc" where
  "state_change p expected_state fx =
     (case expect_state_change expected_state (state_changes_of fx p) of
        (r, q) \<Rightarrow> (r, fx\<lparr> state_changes_of := (state_changes_of fx)(p := q) \<rparr>))"

text \<open>\<open>REQUIRE\<close> ends the test when the expectation is not met.\<close>

definition REQUIRE :: "(session_fixture, bool) proc \<Rightarrow> (session_fixture, unit) proc" where
  "REQUIRE expectation = bindP expectation (\<lambda>met. if met then returnP () else throwP (Runtime_error ''REQUIRE''))"

section \<open>Sending from a test\<close>

definition fixture_send :: "'e links \<Rightarrow> string \<Rightarrow> field list \<Rightarrow> int \<Rightarrow> int list \<Rightarrow> ('e, unit) action" where
  "fixture_send io msg_type es options fields_to_remove =
     (let m = make_message True es;
          m1 = m\<lparr> m_fields := snd (fc_set_string MsgType_Tag msg_type Replace_first (m_fields m)) \<rparr>;
          m2 = m1\<lparr> m_fields := fold (\<lambda>tag fs. snd (fc_remove tag Remove_first fs)) fields_to_remove (m_fields m1) \<rparr>
      in bindP (session_send io m2 options) (\<lambda>_. returnP ()))"

definition send_from :: "(party \<Rightarrow> network links) \<Rightarrow> party \<Rightarrow> string \<Rightarrow> field list \<Rightarrow> int \<Rightarrow> int list \<Rightarrow> (session_fixture, unit) proc" where
  "send_from io p msg_type es options fields_to_remove =
     with_party p (fixture_send (io p) msg_type es options fields_to_remove)"

section \<open>The default logon sequence\<close>

definition from_initiator :: "session_fixture \<Rightarrow> field list" where
  "from_initiator fx = [field_string SenderCompID_Tag (m_sender_comp_id (m_options (session_of fx Initiator))),
     field_string TargetCompID_Tag (m_target_comp_id (m_options (session_of fx Initiator)))]"

definition from_acceptor :: "session_fixture \<Rightarrow> field list" where
  "from_acceptor fx = [field_string SenderCompID_Tag (m_target_comp_id (m_options (session_of fx Initiator))),
     field_string TargetCompID_Tag (m_sender_comp_id (m_options (session_of fx Initiator)))]"

fun in_turn :: "(session_fixture, bool) proc list \<Rightarrow> (session_fixture, unit) proc" where
  "in_turn [] = returnP ()"
| "in_turn (e # es) = seqP (REQUIRE e) (in_turn es)"

definition logon_expectations :: "(session_fixture, bool) proc list" where
  "logon_expectations = [
     (\<lambda>fx. sent_from Initiator Logon_MsgType (from_initiator fx) fx),
     (\<lambda>fx. received_at Acceptor Logon_MsgType None (from_initiator fx) fx),
     (\<lambda>fx. sent_from Acceptor Logon_MsgType (from_acceptor fx) fx),
     (\<lambda>fx. received_at Initiator Logon_MsgType None (from_acceptor fx) fx),
     state_change Acceptor logging_on,
     state_change Initiator logging_on,
     (\<lambda>fx. sent_from Initiator TestRequest_MsgType (from_initiator fx @ [field_int TestReqID_Tag 0]) fx),
     (\<lambda>fx. received_at Acceptor TestRequest_MsgType None (from_initiator fx @ [field_int TestReqID_Tag 0]) fx),
     (\<lambda>fx. sent_from Acceptor TestRequest_MsgType (from_acceptor fx @ [field_int TestReqID_Tag 0]) fx),
     (\<lambda>fx. sent_from Acceptor Heartbeat_MsgType (from_acceptor fx) fx),
     (\<lambda>fx. received_at Initiator TestRequest_MsgType None (from_acceptor fx @ [field_int TestReqID_Tag 0]) fx),
     (\<lambda>fx. received_at Initiator Heartbeat_MsgType None (from_acceptor fx) fx),
     (\<lambda>fx. sent_from Initiator Heartbeat_MsgType (from_initiator fx) fx),
     (\<lambda>fx. received_at Acceptor Heartbeat_MsgType None (from_initiator fx) fx),
     state_change Acceptor logged_on,
     state_change Initiator logged_on]"

definition perform_default_logon_sequence :: "(party \<Rightarrow> network links) \<Rightarrow> nat \<Rightarrow> (session_fixture, unit) proc" where
  "perform_default_logon_sequence io n =
     seqP (in_turn [getP (\<lambda>fx. m_state (session_of fx Acceptor) = connected), getP (\<lambda>fx. m_state (session_of fx Initiator) = connected)])
     (seqP (open_both io)
     (seqP (run_tasks io n)
     (in_turn logon_expectations)))"

section \<open>What the expectations take\<close>

text \<open>Party \<open>p\<close> has sent, received and gone through what \<open>h\<close> says, the oldest first.\<close>

fun with_history :: "party \<Rightarrow> history \<Rightarrow> session_fixture \<Rightarrow> session_fixture" where
  "with_history p (a, b, c) fx = fx\<lparr> state_changes_of := (state_changes_of fx)(p := rev c),
     net := on_endpoint p (\<lambda>x. x\<lparr> outgoing_messages := rev a, incoming_messages := rev b \<rparr>) (net fx) \<rparr>"

lemma with_history_simps [simp]:
  "history (with_history p h fx) = (history fx)(p := h)" "session_of (with_history p h fx) = session_of fx"
  "posted (scheduler (net (with_history p h fx))) = posted (scheduler (net fx))"
  by (cases h; auto simp: history_def on_endpoint_def)+

declare with_history.simps [simp del]

definition met_by :: "string \<Rightarrow> field list \<Rightarrow> message \<Rightarrow> bool" where
  "met_by type es m \<longleftrightarrow> message_MsgType m = Inr type \<and> expect_fields (m_fields m) es"

lemma bq_pop_rev: "rev q = m # ms \<Longrightarrow> bq_pop q = Some (m, rev ms)"
  by (cases q rule: rev_cases) (auto simp: bq_pop_def)

lemma expect_met: "rev q = m # ms \<Longrightarrow> met_by type es m \<Longrightarrow> expect type None es q = (Inr True, rev ms)"
  by (simp add: expect_def bq_pop_rev met_by_def)

lemma REQUIRE_met: "e fx = (Inr True, fx') \<Longrightarrow> REQUIRE e fx = (Inr (), fx')"
  by (simp add: REQUIRE_def bindP_def)

lemma sent_from_met:
  assumes "history fx p = (m # a, b, c)" "met_by type es m"
  shows "sent_from p type es fx = (Inr True, with_history p (a, b, c) fx)"
proof -
  have q: "rev (outgoing_messages (endpoint_of (net fx) p)) = m # a" "rev b = incoming_messages (endpoint_of (net fx) p)"
    "rev c = state_changes_of fx p" using assms(1) by (auto simp: history_def)
  show ?thesis by (simp add: sent_from_def expect_met[OF q(1) assms(2)] on_endpoint_def with_history.simps q(2,3))
qed

lemma received_at_met:
  assumes "history fx p = (a, m # b, c)" "met_by type es m"
  shows "received_at p type None es fx = (Inr True, with_history p (a, b, c) fx)"
proof -
  have q: "rev (incoming_messages (endpoint_of (net fx) p)) = m # b" "rev a = outgoing_messages (endpoint_of (net fx) p)"
    "rev c = state_changes_of fx p" using assms(1) by (auto simp: history_def)
  show ?thesis by (simp add: received_at_def expect_met[OF q(1) assms(2)] on_endpoint_def with_history.simps q(2,3))
qed

lemma state_change_met:
  assumes "history fx p = (a, b, s # c)"
  shows "state_change p s fx = (Inr True, with_history p (a, b, c) fx)"
proof -
  have q: "rev (state_changes_of fx p) = s # c" "rev a = outgoing_messages (endpoint_of (net fx) p)"
    "rev b = incoming_messages (endpoint_of (net fx) p)" using assms by (auto simp: history_def)
  show ?thesis by (simp add: state_change_def expect_state_change_def bq_pop_rev[OF q(1)] on_endpoint_def with_history.simps q(2,3))
qed

lemmas expectations_met = sent_from_met received_at_met state_change_met

text \<open>The messages of the handshake meet what is expected of them.\<close>

lemma handshake_tags:
  "tags (m_fields (logon_with h)) = [8, 9, 35, 49, 56, 34, 52, 98, 108]"
  "tags (m_fields (test_request_with x)) = [8, 9, 35, 49, 56, 34, 52, 112]"
  "tags (m_fields (heartbeat_with x)) = [8, 9, 35, 49, 56, 34, 52, 112]"
  by (simp_all add: handshake_messages make_message_def header_fields_def fc_set_def)

lemma carried_met:
  assumes "carries opt m n d" "m \<in> {logon_with h, test_request_with x, heartbeat_with x}" "message_MsgType m = Inr type"
  shows "met_by type [field_string SenderCompID_Tag (m_sender_comp_id opt), field_string TargetCompID_Tag (m_target_comp_id opt)] d"
proof -
  have "\<exists>ts. tags (m_fields d) = [8, 9, 35, 49, 56] @ ts"
    using assms(1,2) by (auto simp: carries_def handshake_tags)
  then obtain f1 f2 f3 f4 f5 fs where d: "m_fields d = f1 # f2 # f3 # f4 # f5 # fs" "tags [f1, f2, f3, f4, f5] = [8, 9, 35, 49, 56]"
    by (auto simp: map_eq_append_conv map_eq_Cons_conv)
  then have "f4 = field_string 49 (m_sender_comp_id opt)" "f5 = field_string 56 (m_target_comp_id opt)"
    using assms(1) by (simp_all add: carries_def fc_try_get_def)
  with d show ?thesis using carried_handshake(3)[OF assms(1,2)] assms(3) by (simp add: met_by_def)
qed

lemma carried_request_met:
  assumes "carries opt (test_request_with 0) n d"
  shows "met_by TestRequest_MsgType ([field_string SenderCompID_Tag (m_sender_comp_id opt),
     field_string TargetCompID_Tag (m_target_comp_id opt)] @ [field_int TestReqID_Tag 0]) d"
proof -
  have "tags (m_fields d) = [8, 9, 35, 49, 56, 34, 52, 112, 10]"
    using assms by (simp add: carries_def handshake_tags)
  then obtain f1 f2 f3 f4 f5 f6 f7 f8 f9 where d: "m_fields d = [f1, f2, f3, f4, f5, f6, f7, f8, f9]"
    "tags [f1, f2, f3, f4, f5, f6, f7, f8, f9] = [8, 9, 35, 49, 56, 34, 52, 112, 10]"
    by (auto simp: map_eq_Cons_conv)
  then have "f4 = field_string 49 (m_sender_comp_id opt)" "f5 = field_string 56 (m_target_comp_id opt)"
    using assms by (simp_all add: carries_def fc_try_get_def)
  moreover have "fc_try_get 112 (m_fields d) = Some (field_u32 112 0)"
    using carried_get[OF assms, of 112] by (simp add: stamped_tags_def test_request_with_def built_message_simps)
  with d have "f8 = field_u32 112 0" by (simp add: fc_try_get_def)
  moreover have "message_MsgType d = Inr TestRequest_MsgType"
    using carried_handshake(3)[OF assms, of 0 0] by (simp add: test_request_with_def built_message_simps)
  ultimately show ?thesis using d by (simp add: met_by_def u32_to_string_def int_to_string_def)
qed

section \<open>The sequence\<close>

definition stands :: "(party \<Rightarrow> session) \<Rightarrow> task list \<Rightarrow> history \<Rightarrow> history \<Rightarrow> session_fixture \<Rightarrow> bool" where
  "stands ss ts hi ha fx \<longleftrightarrow> session_of fx = ss \<and> posted (scheduler (net fx)) = ts \<and> history fx Initiator = hi \<and> history fx Acceptor = ha"

text \<open>The expectations \<open>es\<close> are met one after the other, and take what is in \<open>hi\<close> and \<open>ha\<close> down to nothing.\<close>

definition meets :: "(party \<Rightarrow> session) \<Rightarrow> (session_fixture, bool) proc list \<Rightarrow> history \<Rightarrow> history \<Rightarrow> bool" where
  "meets ss es hi ha \<longleftrightarrow> (\<forall>ts fx. stands ss ts hi ha fx \<longrightarrow>
     (\<exists>fx'. in_turn es fx = (Inr (), fx') \<and> stands ss ts ([], [], []) ([], [], []) fx'))"

lemma meets_Cons:
  assumes "\<And>ts fx. stands ss ts hi ha fx \<Longrightarrow> \<exists>fx'. e fx = (Inr True, fx') \<and> stands ss ts hi' ha' fx'" "meets ss es hi' ha'"
  shows "meets ss (e # es) hi ha"
  unfolding meets_def
proof (intro allI impI)
  fix ts fx
  assume "stands ss ts hi ha fx"
  with assms obtain f1 f2 where "e fx = (Inr True, f1)" "in_turn es f1 = (Inr (), f2)" "stands ss ts ([], [], []) ([], [], []) f2"
    unfolding meets_def by metis
  then show "\<exists>fx'. in_turn (e # es) fx = (Inr (), fx') \<and> stands ss ts ([], [], []) ([], [], []) fx'"
    by (intro exI[of _ f2]) (simp add: REQUIRE_met seqP_returns)
qed

lemma meets_Nil: "meets ss [] ([], [], []) ([], [], [])"
  by (simp add: meets_def)

lemma meets_rules:
  "(\<And>fx. session_of fx = ss \<Longrightarrow> met_by type (F fx) m) \<Longrightarrow> meets ss es (a, b, c) ha \<Longrightarrow>
   meets ss ((\<lambda>fx. sent_from Initiator type (F fx) fx) # es) (m # a, b, c) ha"
  "(\<And>fx. session_of fx = ss \<Longrightarrow> met_by type (F fx) m) \<Longrightarrow> meets ss es hi (a, b, c) \<Longrightarrow>
   meets ss ((\<lambda>fx. sent_from Acceptor type (F fx) fx) # es) hi (m # a, b, c)"
  "(\<And>fx. session_of fx = ss \<Longrightarrow> met_by type (F fx) m) \<Longrightarrow> meets ss es (a, b, c) ha \<Longrightarrow>
   meets ss ((\<lambda>fx. received_at Initiator type None (F fx) fx) # es) (a, m # b, c) ha"
  "(\<And>fx. session_of fx = ss \<Longrightarrow> met_by type (F fx) m) \<Longrightarrow> meets ss es hi (a, b, c) \<Longrightarrow>
   meets ss ((\<lambda>fx. received_at Acceptor type None (F fx) fx) # es) hi (a, m # b, c)"
  "meets ss es (a, b, c) ha \<Longrightarrow> meets ss (state_change Initiator st # es) (a, b, st # c) ha"
  "meets ss es hi (a, b, c) \<Longrightarrow> meets ss (state_change Acceptor st # es) hi (a, b, st # c)"
  by (rule meets_Cons; simp add: stands_def expectations_met)+

lemma handshake_meets:
  assumes "exchanged s t h ds ds'" "m_next_test_request_id s = 0" "m_next_test_request_id t = 0" "mirrored (m_options s) (m_options t)"
    and "m_options (ss Initiator) = (m_options s)\<lparr> m_heartbeat_interval := h \<rparr>"
  shows "meets ss logon_expectations
     (ds, ds', [logging_on, logged_on]) (ds', ds, [logging_on, logged_on])"
proof -
  obtain d1 d2 d3 e1 e2 e3 where l: "ds = [d1, d2, d3]" "ds' = [e1, e2, e3]"
    and c: "carries (m_options s) (logon_with h) (m_outgoing_msg_seq_num s) d1"
      "carries (m_options s) (test_request_with 0) (m_outgoing_msg_seq_num s + 1) d2"
      "carries (m_options s) (heartbeat_with 0) (m_outgoing_msg_seq_num s + 2) d3"
      "carries (m_options t) (logon_with h) (m_outgoing_msg_seq_num t) e1"
      "carries (m_options t) (test_request_with 0) (m_outgoing_msg_seq_num t + 1) e2"
      "carries (m_options t) (heartbeat_with 0) (m_outgoing_msg_seq_num t + 2) e3"
    using assms(1-3) unfolding exchanged_def by auto
  have ty: "message_MsgType (logon_with h) = Inr Logon_MsgType" "message_MsgType (heartbeat_with 0) = Inr Heartbeat_MsgType"
    by (simp_all add: handshake_messages built_message_simps)
  have F: "from_initiator fx = [field_string SenderCompID_Tag (m_sender_comp_id (m_options s)), field_string TargetCompID_Tag (m_target_comp_id (m_options s))]"
    "from_acceptor fx = [field_string SenderCompID_Tag (m_sender_comp_id (m_options t)), field_string TargetCompID_Tag (m_target_comp_id (m_options t))]"
    if "session_of fx = ss" for fx
    using that assms(4,5) by (simp_all add: from_initiator_def from_acceptor_def mirrored_def)
  note met = carried_met[OF c(1) _ ty(1), of h 0] carried_met[OF c(3) _ ty(2), of h 0]
    carried_met[OF c(4) _ ty(1), of h 0] carried_met[OF c(6) _ ty(2), of h 0]
    carried_request_met[OF c(2)] carried_request_met[OF c(5)]
  show ?thesis unfolding l logon_expectations_def
    by (intro meets_rules meets_Nil; simp only: F; rule met; simp)
qed

text \<open>
  C5: the default logon sequence of the tests passes. Configure a new fixture as its constructor
  does and perform the sequence, with at least six tasks run by the scheduler: every REQUIRE
  holds, each message is found where it is expected with the expected comp ids and TestReqID in
  their order, nothing else was sent, received or signalled, and both sessions are logged on. It
  holds for each clock and each dictionary that knows the fields of the handshake.
\<close>

theorem default_logon_sequence_passes:
  assumes "list_all (known_tag dict) (header_tags @ [EncryptMethod_Tag, HeartBtInt_Tag, TestReqID_Tag])"
    and "\<And>k. short_text (timestamp_string Milliseconds (clock k))" and "6 \<le> n"
  shows "\<exists>fx. seqP configure_fixture (perform_default_logon_sequence (fixture_links dict orch clock) n) new_fixture = (Inr (), fx) \<and>
    posted (scheduler (net fx)) = [] \<and>
    (\<forall>p. m_state (session_of fx p) = logged_on \<and> state_changes_of fx p = [] \<and>
       outgoing_messages (endpoint_of (net fx) p) = [] \<and> incoming_messages (endpoint_of (net fx) p) = [])"
proof -
  let ?io = "fixture_links dict orch clock"
  obtain fx where fx: "configure_fixture new_fixture = (Inr (), fx)" "net fx = net new_fixture" "state_changes_of fx = (\<lambda>_. [])"
    "session_of fx Initiator = initial_session\<lparr> m_options := default_session_options\<lparr> m_test_request_delay := 0,
      m_begin_string := ''FIXT.1.1'', m_sender_comp_id := ''INITIATOR'', m_target_comp_id := ''ACCEPTOR'' \<rparr> \<rparr>" (is "_ = ?si")
    "session_of fx Acceptor = initial_session\<lparr> m_options := default_session_options\<lparr> m_logon_behaviour := acceptor, m_test_request_delay := 0,
      m_begin_string := ''FIXT.1.1'', m_sender_comp_id := ''ACCEPTOR'', m_target_comp_id := ''INITIATOR'' \<rparr> \<rparr>" (is "_ = ?sa")
    using configured by blast
  have i: "can_log_on dict clock initiator ?si" "can_log_on dict clock acceptor ?sa"
    using sample_texts_short assms(1,2)
    by (simp_all add: can_log_on_def awaits_logon_def handshake_safe_def wire_safe_def initial_session_def default_session_options_def)
  have s: "in_step ?si ?sa" "in_step ?sa ?si" "unat (m_heartbeat_interval (m_options ?si)) < 2 ^ 31"
    by (simp_all add: in_step_def mirrored_def initial_session_def default_session_options_def)
  have n: "open_net (net fx)" "posted (scheduler (net fx)) = []" "tokens_left 2 (scheduler (net fx))"
    by (simp_all add: fx(2) new_fixture_def open_net_def tokens_left_def scheduler_ok_def make_scheduler_def sm.all_entries_def map_ok_def map_find_def)
  have start: "history fx p = ([], [], [])" for p by (simp add: history_def fx(2,3) new_fixture_def)
  show ?thesis
  proof (rule handshake_exchanged[OF fx(4) i(1) fx(5) i(2) s n, of orch], goal_cases)
    case (1 f1 ds ds')
    let ?h = "m_heartbeat_interval (m_options ?si)"
    have "run_tasks ?io n f0 = (Inr (), f1)" if "run_tasks ?io 6 f0 = (Inr (), f1)" for f0
      using run_tasks_split[OF that run_tasks_idle[OF 1(2), of ?io "n - 6"]] assms(3) by simp
    then have run: "seqP (open_both ?io) (run_tasks ?io n) fx = (Inr (), f1)" using 1(1) by (auto simp: seqP_returns)
    have "m_options (session_of f1 Initiator) = (m_options ?si)\<lparr> m_heartbeat_interval := ?h \<rparr>"
      "m_next_test_request_id ?si = 0" "m_next_test_request_id ?sa = 0" "mirrored (m_options ?si) (m_options ?sa)"
      using 1(3) s(1) by (auto simp: logged_on_from_def in_step_def initial_session_def)
    note meets = handshake_meets[where ss = "session_of f1", OF 1(5) this(2-4) this(1)]
    have "stands (session_of f1) [] (ds, ds', [logging_on, logged_on]) (ds', ds, [logging_on, logged_on]) f1"
      using 1(2,6,7) start by (simp add: stands_def)
    with meets obtain f2 where f2: "in_turn logon_expectations f1 = (Inr (), f2)"
      "stands (session_of f1) [] ([], [], []) ([], [], []) f2"
      unfolding meets_def by blast
    have "perform_default_logon_sequence ?io n fx = (Inr (), f2)"
      using run f2(1) fx(4,5)
      by (auto simp: perform_default_logon_sequence_def seqP_returns REQUIRE_met initial_session_def)
    with fx(1) f2(2) 1(3,4) show ?case
      by (intro exI[of _ f2]) (auto simp: seqP_returns stands_def history_def all_party logged_on_from_def)
  qed
qed

theorem default_logon_sequence_passes_witness:
  "\<exists>fx. seqP configure_fixture (perform_default_logon_sequence (fixture_links plain_dict plain_orchestration sample_clock) 6)
     new_fixture = (Inr (), fx) \<and> m_state (session_of fx Initiator) = logged_on"
  using default_logon_sequence_passes[of plain_dict sample_clock 6 plain_orchestration, OF plain_dict_knows sample_time_short] by auto

end
