(* ===== verification/Gap_Recovery.thy ===== *)
theory Gap_Recovery
  imports Logon_Sequence
begin

text \<open>
  Two sessions that are logged on, one of which has missed messages of the other. The next message
  it receives is ahead of the sequence; the ResendRequest, the gap fill, the two TestRequests and the
  Heartbeats that follow bring both sessions back in step.
\<close>

section \<open>The messages\<close>

definition resend_request_with :: "u32 \<Rightarrow> u32 \<Rightarrow> message" where
  "resend_request_with a b = make_message True
     [field_string MsgType_Tag ResendRequest_MsgType, field_u32 BeginSeqNo_Tag a, field_u32 EndSeqNo_Tag b]"

definition gap_fill_with :: "u32 \<Rightarrow> u32 \<Rightarrow> message" where
  "gap_fill_with n new = make_message True
     [field_string MsgType_Tag SequenceReset_MsgType, field_u32 MsgSeqNum_Tag n, field_bool GapFillFlag_Tag True,
      field_bool PossDupFlag_Tag True, field_u32 NewSeqNo_Tag new]"

definition recovery_safe :: "orchestration_field_collection \<Rightarrow> (nat \<Rightarrow> utc_time) \<Rightarrow> session_options \<Rightarrow> bool" where
  "recovery_safe dict clock opt \<longleftrightarrow> handshake_safe dict clock opt \<and>
     list_all (known_tag dict) [BeginSeqNo_Tag, EndSeqNo_Tag, NewSeqNo_Tag, GapFillFlag_Tag, PossDupFlag_Tag]"

lemma recovery_safeD:
  assumes "recovery_safe dict clock opt"
  shows "handshake_safe dict clock opt" "wire_safe dict clock opt" "list_all (known_tag dict) [7, 16, 36, 123, 43]" "known_tag dict 34"
    "known_tag dict 35"
  using assms by (simp_all add: recovery_safe_def handshake_safe_def wire_safe_def header_tags_def)

lemma short_single: "(of_char c :: nat) < 128 \<Longrightarrow> c \<noteq> field_separator \<Longrightarrow> short_text [c]"
  by (simp add: short_text_def)

text \<open>Any message built with a header from fields that fit the wire is sent and arrives.\<close>

lemma send_built:
  assumes safe: "wire_safe dict clock (m_options (sess w))" and o: "\<not> writer_closed (endpoint_of (outside w) p)"
    and fs: "all_short dict fs" "length fs \<le> 7" "CheckSum_Tag \<notin> set (tags fs)"
    and ty: "message_MsgType (make_message True fs) = Inr type" "type \<noteq> Logon_MsgType"
  obtains m' d where "send_standard (fixture_links dict orch clock p) (make_message True fs) w = (Inr (), after_send p m' d w)"
    "carries (m_options (sess w)) (make_message True fs) (m_outgoing_msg_seq_num (sess w)) d"
proof -
  have "length (m_fields (make_message True fs)) \<le> 14" using length_built[of fs] fs(2) by simp
  then show thesis
    by (rule send_travels[OF built_has_header[OF fs(3)] all_short_built[OF safe fs(1)] _ ty(1) disjI1[OF ty(2)] safe o, where orch = orch])
       (auto simp: send_standard_def seqP_returns intro: that)
qed

section \<open>The session that missed messages\<close>

lemma gap_step:
  assumes d: "carries opt m n d" "message_MsgType m = Inr type" "type \<notin> {Logon_MsgType, SequenceReset_MsgType}"
      "message_PossDupFlag m = Inr False" "unat n < 2 ^ 31"
    and s: "mirrored opt (m_options (sess w))" "m_logon_behaviour (m_options (sess w)) = initiator \<or> m_logon_received (sess w)"
      "m_state (sess w) = logged_on" "m_incoming_msg_seq_num (sess w) = e" "e < n"
    and safe: "recovery_safe dict clock (m_options (sess w))" "\<not> writer_closed (endpoint_of (outside w) p)"
  obtains w' d' where "on_message_read (fixture_links dict orch clock p) d w = (Inr (), w')"
    "sess w' = (sess w)\<lparr> m_state := resending, m_incoming_resent_msg_seq_num := e, m_incoming_target_msg_seq_num := n,
       m_outgoing_msg_seq_num := m_outgoing_msg_seq_num (sess w) + 1 \<rparr>"
    "carries (m_options (sess w)) (resend_request_with e n) (m_outgoing_msg_seq_num (sess w)) d'"
    "reacts p [d'] [resending] 0 w w'"
proof -
  let ?io = "fixture_links dict orch clock p"
  have acc: "accepted (sess w) d" by (rule carried_accepted[OF d(1) s(1)]) (use s(2) in \<open>auto simp: first_message_ok_def\<close>)
  note seq = carried_sequenced[OF d] and n = carried_number[OF d(1,5)] and same = carried_same[OF d(1)]
  obtain i1 i2 where v: "request_resend ?io n (received d w) = send_standard ?io (resend_request_with e n)
      (w\<lparr> sess := (sess w)\<lparr> m_state := resending, m_incoming_resent_msg_seq_num := e, m_incoming_target_msg_seq_num := n \<rparr>,
          emitted := emitted w @ [Message_received d, Information i1, State_changed logged_on resending, Information i2] \<rparr>)"
    (is "_ = send_standard _ _ ?v")
    using s(3,4) by (simp add: request_resend_def the_session_def on_session_def emit_def set_state_apply resend_request_with_def
        seqP_def bindP_def)
  let ?fs = "[field_string 35 ''2'', field_u32 7 e, field_u32 16 n]"
  have fs: "all_short dict ?fs"
    using recovery_safeD[OF safe(1)] by (simp add: short_field_def short_u32 field_u32_def short_single)
  obtain m' d' where sd: "send_standard ?io (make_message True ?fs) ?v = (Inr (), after_send p m' d' ?v)"
    "carries (m_options (sess ?v)) (make_message True ?fs) (m_outgoing_msg_seq_num (sess ?v)) d'"
    by (rule send_built[of dict clock ?v p ?fs "''2''" orch])
       (use recovery_safeD(2)[OF safe(1)] safe(2) fs in \<open>simp_all add: built_message_simps\<close>)
  have "validate_sequence_numbers ?io d (received d w) = (Inr False, after_send p m' d' ?v)"
    using v sd(1) n s(3-5)
    by (simp add: validate_sequence_numbers_def sequence_number_is_high_def the_session_def resend_request_with_def bindP_def seqP_def)
  then have "on_message_read ?io d w = (Inr (), after_send p m' d' ?v)"
    using same(1) d(2) by (simp add: sequenced_dispatch[OF acc seq] guardP_def bindP_def)
  moreover have "reacts p [d'] [resending] 0 w (after_send p m' d' ?v)"
    by (simp add: reacts_def)
  ultimately show thesis using sd(2) by (intro that) (simp_all add: resend_request_with_def)
qed

text \<open>The gap fill: the sequence goes on behind the gap, and a TestRequest asks whether the peer agrees.\<close>

lemma gap_fill_step:
  assumes d: "carries opt (gap_fill_with e new) e d" "unat e < 2 ^ 31" "unat new < 2 ^ 31" "e < new"
    and s: "mirrored opt (m_options (sess w))" "m_logon_behaviour (m_options (sess w)) = initiator \<or> m_logon_received (sess w)"
      "m_state (sess w) = resending" "m_incoming_msg_seq_num (sess w) = e" "m_incoming_target_msg_seq_num (sess w) \<le> new"
      "\<not> m_use_next_expected_msg_seq_num (m_options (sess w))" "m_next_test_request_id (sess w) = y"
    and safe: "recovery_safe dict clock (m_options (sess w))" "\<not> writer_closed (endpoint_of (outside w) p)"
      "tokens_left (Suc k) (scheduler (outside w))"
  obtains w' d' tok where "on_message_read (fixture_links dict orch clock p) d w = (Inr (), w')"
    "sess w' = (sess w)\<lparr> m_incoming_resent_msg_seq_num := new, m_incoming_msg_seq_num := new, m_next_test_request_id := y + 1,
       m_expected_test_request_id := Some y, m_outgoing_msg_seq_num := m_outgoing_msg_seq_num (sess w) + 1, m_heartbeat_timer_token := tok \<rparr>"
    "carries (m_options (sess w)) (test_request_with y) (m_outgoing_msg_seq_num (sess w)) d'"
    "reacts p [d'] [] 1 w w'"
proof -
  let ?io = "fixture_links dict orch clock p"
  have acc: "accepted (sess w) d" by (rule carried_accepted[OF d(1) s(1)]) (use s(2) in \<open>auto simp: first_message_ok_def\<close>)
  note n = carried_number[OF d(1,2)] and same = carried_same[OF d(1)]
  have m: "message_MsgType d = Inr SequenceReset_MsgType" "message_PossDupFlag d = Inr True" "message_GapFillFlag d = Inr True"
    unfolding same gap_fill_with_def by (simp_all add: message_PossDupFlag_def message_GapFillFlag_def built_message_simps)
  have f: "fc_try_get NewSeqNo_Tag (m_fields d) = Some (field_u32 NewSeqNo_Tag new)"
    using carried_get[OF d(1), of 36] by (simp add: stamped_tags_def gap_fill_with_def built_message_simps)
  let ?v = "\<lambda>i1 i2. w\<lparr> sess := (sess w)\<lparr> m_incoming_resent_msg_seq_num := new, m_incoming_msg_seq_num := new \<rparr>,
      emitted := emitted w @ [Message_received d, Information i1, Information i2] \<rparr>"
  have val: "validate_sequence_numbers ?io d (received d w) = (Inr True, received d w)"
    using n s(4) by (simp add: validate_sequence_numbers_True)
  have nle: "\<not> new \<le> e" using d(4) by (simp only: not_le)
  obtain i1 i2 where run: "on_message_read ?io d w = seqP (send_test_request ?io) (start_defibrillator ?io) (?v i1 i2)"
    using s(3-6) nle m f val stoi_u32_to_string(2)[OF d(3)]
    by (simp add: accepted_dispatch[OF acc] dispatch_message_def process_sequence_reset_def process_gap_fill_def finish_resend_def
        the_session_def on_session_def emit_def set_incoming_msg_seq_num_def try_catch_def field_u32_def guardP_def bindP_def seqP_def)
  let ?u = "(?v i1 i2)\<lparr> sess := (sess (?v i1 i2))\<lparr> m_next_test_request_id := y + 1, m_expected_test_request_id := Some y \<rparr> \<rparr>"
  obtain m' d' where sd: "send_standard ?io (test_request_with y) ?u = (Inr (), after_send p m' d' ?u)"
    "carries (m_options (sess ?u)) (test_request_with y) (m_outgoing_msg_seq_num (sess ?u)) d'"
    by (rule send_handshake[of dict clock ?u "test_request_with y" 0 y p orch]) (use recovery_safeD(1)[OF safe(1)] safe(2) in simp_all)
  have sent: "send_test_request ?io (?v i1 i2) = (Inr (), after_send p m' d' ?u)"
    using sd(1) s(7) by (simp add: send_test_request_def allocate_test_request_id_def the_session_def on_session_def test_request_with_def)
  have tl: "tokens_left (Suc k) (scheduler (outside (after_send p m' d' ?u)))" using safe(3) by simp
  obtain tok sch where st: "start_defibrillator ?io (after_send p m' d' ?u) =
      (Inr (), (after_send p m' d' ?u)\<lparr> sess := (sess (after_send p m' d' ?u))\<lparr> m_heartbeat_timer_token := tok \<rparr>,
         outside := (outside (after_send p m' d' ?u))\<lparr> scheduler := sch \<rparr> \<rparr>)"
    "\<And>j. tokens_left (Suc j) (scheduler (outside (after_send p m' d' ?u))) \<Longrightarrow> tokens_left j sch"
    "posted sch = posted (scheduler (outside (after_send p m' d' ?u)))"
    using defibrillator_started[OF tl, of dict orch clock p] by metis
  have "on_message_read ?io d w = (Inr (), (after_send p m' d' ?u)\<lparr> sess := (sess (after_send p m' d' ?u))\<lparr> m_heartbeat_timer_token := tok \<rparr>,
         outside := (outside (after_send p m' d' ?u))\<lparr> scheduler := sch \<rparr> \<rparr>)"
    using run sent st(1) by (simp add: seqP_def bindP_def)
  moreover have "reacts p [d'] [] 1 w ((after_send p m' d' ?u)\<lparr> sess := (sess (after_send p m' d' ?u))\<lparr> m_heartbeat_timer_token := tok \<rparr>,
         outside := (outside (after_send p m' d' ?u))\<lparr> scheduler := sch \<rparr> \<rparr>)"
    using st(2,3) by (auto simp: reacts_def open_net_def)
  ultimately show thesis using sd(2) by (intro that) simp_all
qed

section \<open>The session that is asked\<close>

lemma gap_fill_sent:
  assumes safe: "recovery_safe dict clock (m_options (sess w))" and o: "\<not> writer_closed (endpoint_of (outside w) p)"
  obtains m' d where "send_gap_fill (fixture_links dict orch clock p) e new w = (Inr (), w\<lparr>
       outside := sent_net p d (outside w), emitted := emitted w @ [Message_sent m'] \<rparr>)"
    "carries (m_options (sess w)) (gap_fill_with e new) e d"
proof -
  let ?o = "encode_standard AND NOT set_msg_seq_num" and ?e = "(outside w)\<lparr> clock_reads := Suc (clock_reads (outside w)) \<rparr>"
  let ?fs = "[field_string 35 ''4'', field_u32 34 e, field_bool 123 True, field_bool 43 True, field_u32 36 new]"
  have fs: "all_short dict ?fs"
    using recovery_safeD[OF safe] by (simp add: short_field_def short_u32 field_u32_def field_bool_def short_single)
  have m: "has_header (gap_fill_with e new)" "all_short dict (m_fields (gap_fill_with e new))" "length (m_fields (gap_fill_with e new)) \<le> 14"
    using built_has_header[of ?fs] all_short_built[OF recovery_safeD(2)[OF safe] fs] length_built[of ?fs]
    by (simp_all add: gap_fill_with_def)
  have bits: "?o AND set_msg_seq_num = 0" by (simp add: encode_standard_def set_msg_seq_num_def set_checksum_def set_body_length_def set_begin_string_def)
  have num: "if ?o AND set_msg_seq_num \<noteq> 0 then 0 = e else fc_try_get 34 (m_fields (gap_fill_with e new)) = Some (field_u32 34 e)"
    unfolding bits by (simp add: gap_fill_with_def built_message_simps)
  have o': "\<not> writer_closed (endpoint_of ?e p)" using o by simp
  show thesis
  proof (rule message_travels[OF m full_options_used(2) num recovery_safeD(2)[OF safe] o', of "clock_reads (outside w)"], goal_cases)
    case (1 m' d)
    have "message_MsgType (gap_fill_with e new) = Inr SequenceReset_MsgType" by (simp add: gap_fill_with_def built_message_simps)
    then have "session_send (fixture_links dict orch clock p) (gap_fill_with e new) ?o w = (Inr m', w\<lparr>
       outside := sent_net p d (outside w), emitted := emitted w @ [Message_sent m'] \<rparr>)"
      using 1(1) bits by (simp add: session_send_def the_session_def quiet_def external_apply emit_def fixture_links_def sent_net_def
          seqP_def bindP_def)
    then show thesis using 1(2) by (intro that[of m' d]) (simp_all add: send_gap_fill_def gap_fill_with_def seqP_def bindP_def)
  qed
qed

lemma resend_request_step:
  assumes d: "carries opt (resend_request_with e n) q d" "unat e < 2 ^ 31" "unat n < 2 ^ 31" "unat q < 2 ^ 31"
    and s: "mirrored opt (m_options (sess w))" "m_logon_behaviour (m_options (sess w)) = initiator \<or> m_logon_received (sess w)"
      "m_incoming_msg_seq_num (sess w) = q" "m_test_request_timer_token (sess w) = None" "m_test_request_delay (m_options (sess w)) = 0"
      "m_next_test_request_id (sess w) = x" "m_outgoing_msg_seq_num (sess w) = new"
    and safe: "recovery_safe dict clock (m_options (sess w))" "\<not> writer_closed (endpoint_of (outside w) p)"
  obtains w' d1 d2 where "on_message_read (fixture_links dict orch clock p) d w = (Inr (), w')"
    "sess w' = (sess w)\<lparr> m_incoming_msg_seq_num := q + 1, m_next_test_request_id := x + 1, m_expected_test_request_id := Some x,
       m_outgoing_msg_seq_num := new + 1 \<rparr>"
    "carries (m_options (sess w)) (gap_fill_with e new) e d1" "carries (m_options (sess w)) (test_request_with x) new d2"
    "reacts p [d1, d2] [] 0 w w'"
proof -
  let ?io = "fixture_links dict orch clock p" and ?o = "encode_standard AND NOT set_msg_seq_num"
  have ty: "message_MsgType (resend_request_with e n) = Inr ResendRequest_MsgType" "message_PossDupFlag (resend_request_with e n) = Inr False"
    by (simp_all add: resend_request_with_def message_PossDupFlag_def built_message_simps)
  have f: "fc_try_get BeginSeqNo_Tag (m_fields d) = Some (field_u32 BeginSeqNo_Tag e)"
    "fc_try_get EndSeqNo_Tag (m_fields d) = Some (field_u32 EndSeqNo_Tag n)"
    using carried_get[OF d(1), of 7] carried_get[OF d(1), of 16]
    by (simp_all add: stamped_tags_def resend_request_with_def built_message_simps)
  let ?v = "\<lambda>i. w\<lparr> sess := (sess w)\<lparr> m_incoming_msg_seq_num := q + 1 \<rparr>, emitted := emitted w @ [Message_received d, Information i] \<rparr>"
  obtain i where run: "on_message_read ?io d w = seqP (perform_resend ?io e (if (m_begin_string (m_options (sess w)) = ''FIX.4.0'' \<or>
      m_begin_string (m_options (sess w)) = ''FIX.4.1'') \<and> n = 9999 then 0 else n)) (send_post_logon_test_request ?io) (?v i)"
    using in_sequence_step[OF d(1) ty(1) _ ty(2) s(1,3) d(4) s(2), of ?io] f s(4) stoi_u32_to_string(2)[OF d(2)] stoi_u32_to_string(2)[OF d(3)]
    by (simp add: handle_in_sequence_def process_resend_request_def stop_test_request_timer_def the_session_def emit_def field_u32_def Let_def)
  have o: "\<not> writer_closed (endpoint_of (outside (?v i)) p)" and sf: "recovery_safe dict clock (m_options (sess (?v i)))"
    using safe by simp_all
  obtain m1 d1 where g: "send_gap_fill ?io e new (?v i) = (Inr (), (?v i)\<lparr>
       outside := sent_net p d1 (outside (?v i)), emitted := emitted (?v i) @ [Message_sent m1] \<rparr>)"
    "carries (m_options (sess (?v i))) (gap_fill_with e new) e d1"
    by (rule gap_fill_sent[OF sf o])
  let ?u = "(?v i)\<lparr> outside := sent_net p d1 (outside (?v i)), emitted := emitted (?v i) @ [Message_sent m1],
      sess := (sess (?v i))\<lparr> m_next_test_request_id := x + 1, m_expected_test_request_id := Some x \<rparr> \<rparr>"
  obtain m2 d2 where t: "send_standard ?io (test_request_with x) ?u = (Inr (), after_send p m2 d2 ?u)"
    "carries (m_options (sess ?u)) (test_request_with x) (m_outgoing_msg_seq_num (sess ?u)) d2"
    by (rule send_handshake[of dict clock ?u "test_request_with x" 0 x p orch]) (use recovery_safeD(1)[OF safe(1)] safe(2) in simp_all)
  have "on_message_read ?io d w = (Inr (), after_send p m2 d2 ?u)"
    using run g(1) s(5-7) t(1) send_test_request_at_once[of _ x ?io]
    by (simp add: perform_resend_def the_session_def seqP_def bindP_def)
  moreover have "reacts p [d1, d2] [] 0 w (after_send p m2 d2 ?u)" by (simp add: reacts_def)
  ultimately show thesis using g(2) t(2) s(7) by (intro that) simp_all
qed

text \<open>A TestRequest is answered; a Heartbeat is taken note of, or completes the recovery.\<close>

lemma answer_step:
  assumes d: "carries opt (test_request_with x) n d" "unat n < 2 ^ 31"
    and s: "mirrored opt (m_options (sess w))" "m_logon_behaviour (m_options (sess w)) = initiator \<or> m_logon_received (sess w)"
      "m_incoming_msg_seq_num (sess w) = n"
    and safe: "recovery_safe dict clock (m_options (sess w))" "\<not> writer_closed (endpoint_of (outside w) p)"
  obtains w' d' where "on_message_read (fixture_links dict orch clock p) d w = (Inr (), w')"
    "sess w' = (sess w)\<lparr> m_incoming_msg_seq_num := n + 1, m_outgoing_msg_seq_num := m_outgoing_msg_seq_num (sess w) + 1 \<rparr>"
    "carries (m_options (sess w)) (heartbeat_with x) (m_outgoing_msg_seq_num (sess w)) d'" "reacts p [d'] [] 0 w w'"
proof (rule test_request_step[OF d(1) s(1,3) d(2) s(2) recovery_safeD(1)[OF safe(1)] safe(2), of orch], goal_cases)
  case (1 m' d')
  let ?v = "(received d w)\<lparr> sess := (sess w)\<lparr> m_incoming_msg_seq_num := n + 1 \<rparr> \<rparr>"
  have "reacts p [d'] [] 0 w (after_send p m' d' ?v)" by (simp add: reacts_def)
  with 1 show thesis by (intro that[of "after_send p m' d' ?v" d']) simp_all
qed

lemma idle_heartbeat_step:
  assumes d: "carries opt (heartbeat_with x) n d" "unat n < 2 ^ 31"
    and s: "mirrored opt (m_options (sess w))" "m_logon_behaviour (m_options (sess w)) = initiator \<or> m_logon_received (sess w)"
      "m_incoming_msg_seq_num (sess w) = n" "m_state (sess w) = logged_on"
  shows "on_message_read io d w = (Inr (), (received d w)\<lparr> sess := (sess w)\<lparr> m_incoming_msg_seq_num := n + 1 \<rparr> \<rparr>)"
    "reacts p [] [] 0 w ((received d w)\<lparr> sess := (sess w)\<lparr> m_incoming_msg_seq_num := n + 1 \<rparr> \<rparr>)"
proof -
  have "message_MsgType (heartbeat_with x) = Inr Heartbeat_MsgType" "message_PossDupFlag (heartbeat_with x) = Inr False"
    by (simp_all add: heartbeat_with_def message_PossDupFlag_def built_message_simps)
  from in_sequence_step[OF d(1) this(1) _ this(2) s(1,3) d(2) s(2)] s(4)
  show "on_message_read io d w = (Inr (), (received d w)\<lparr> sess := (sess w)\<lparr> m_incoming_msg_seq_num := n + 1 \<rparr> \<rparr>)"
    by (simp add: handle_in_sequence_def process_heartbeat_def the_session_def Let_def)
  show "reacts p [] [] 0 w ((received d w)\<lparr> sess := (sess w)\<lparr> m_incoming_msg_seq_num := n + 1 \<rparr> \<rparr>)"
    by (simp add: reacts_def)
qed

lemma final_heartbeat_step:
  assumes d: "carries opt (heartbeat_with x) n d" "unat n < 2 ^ 31"
    and s: "mirrored opt (m_options (sess w))" "m_logon_behaviour (m_options (sess w)) = initiator \<or> m_logon_received (sess w)"
      "m_incoming_msg_seq_num (sess w) = n" "m_state (sess w) = st" "st \<in> {logging_on, resetting, resending}"
      "m_expected_test_request_id (sess w) = Some x"
    and safe: "tokens_left (Suc k) (scheduler (outside w))"
  obtains w' tok where "on_message_read (fixture_links dict orch clock p) d w = (Inr (), w')"
    "sess w' = (sess w)\<lparr> m_incoming_msg_seq_num := n + 1, m_state := logged_on, m_heartbeat_timer_token := tok \<rparr>"
    "reacts p [] [logged_on] 1 w w'" "tok \<noteq> None \<longleftrightarrow> m_heartbeat_interval (m_options (sess w)) \<noteq> 0"
proof (rule heartbeat_step[OF d(1) s(1,3) d(2) s(2,4,5,6) safe, where dict = dict and orch = orch and clock = clock and p = p], goal_cases)
  case (1 tok sch)
  let ?v = "w\<lparr> sess := (sess w)\<lparr> m_incoming_msg_seq_num := n + 1, m_state := logged_on, m_heartbeat_timer_token := tok \<rparr>,
         outside := (outside w)\<lparr> scheduler := sch \<rparr>, emitted := emitted w @ [Message_received d, State_changed st logged_on] \<rparr>"
  have "reacts p [] [logged_on] 1 w ?v" using 1(3,4) by (auto simp: reacts_def open_net_def)
  with 1(2,5) show thesis by (intro that[of ?v tok]) simp_all
qed

section \<open>From the first message behind the gap to the answers\<close>

lemma delivered_open: "open_net (net fx) \<Longrightarrow> \<not> writer_closed (endpoint_of (outside (delivered p d ts fx)) p)"
  by (simp add: arrive_def on_endpoint_def open_net_def)

text \<open>The session \<open>s\<close> is logged on to a peer with options \<open>opt\<close>.\<close>

definition in_touch :: "orchestration_field_collection \<Rightarrow> (nat \<Rightarrow> utc_time) \<Rightarrow> session_options \<Rightarrow> session \<Rightarrow> bool" where
  "in_touch dict clock opt s \<longleftrightarrow> recovery_safe dict clock (m_options s) \<and> mirrored opt (m_options s) \<and>
     (m_logon_behaviour (m_options s) = initiator \<or> m_logon_received s) \<and> m_test_request_delay (m_options s) = 0 \<and>
     \<not> m_use_next_expected_msg_seq_num (m_options s) \<and> m_test_request_timer_token s = None"

lemma in_touchD:
  assumes "in_touch dict clock opt s"
  shows "recovery_safe dict clock (m_options s)" "mirrored opt (m_options s)"
    "m_logon_behaviour (m_options s) = initiator \<or> m_logon_received s" "m_test_request_delay (m_options s) = 0"
    "\<not> m_use_next_expected_msg_seq_num (m_options s)" "m_test_request_timer_token s = None"
  using assms by (simp_all add: in_touch_def)

lemma unat_successors:
  fixes n :: u32
  assumes "unat n + 3 < 2 ^ 31"
  shows "unat n < 2 ^ 31" "unat (n + 1) < 2 ^ 31" "unat (n + 2) < 2 ^ 31" "n < n + 1"
proof -
  have "unat (n + 1) = unat n + 1" "unat (n + 2) = unat n + 2" using assms by (simp_all add: unat_word_ariths)
  with assms show "unat n < 2 ^ 31" "unat (n + 1) < 2 ^ 31" "unat (n + 2) < 2 ^ 31" "n < n + 1"
    by (simp_all add: word_less_nat_alt)
qed

text \<open>The three deliveries up to the TestRequests: \<open>p\<close> is ahead, its peer \<open>q\<close> has missed messages.\<close>

lemma gap_found:
  assumes fx: "session_of fx p = a" "session_of fx q = b" "q = peer p" "open_net (net fx)" "posted (scheduler (net fx)) = [Deliver q d]"
      "tokens_left 1 (scheduler (net fx))"
    and a: "in_touch dict clock (m_options b) a" and b: "in_touch dict clock (m_options a) b" "m_state b = logged_on"
    and n: "m_outgoing_msg_seq_num a = n + 1" "unat n + 3 < 2 ^ 31" "m_incoming_msg_seq_num b = e" "e < n"
      "m_outgoing_msg_seq_num b = k" "m_incoming_msg_seq_num a = k" "unat k + 3 < 2 ^ 31"
    and d: "carries (m_options a) m n d" "message_MsgType m = Inr type" "type \<notin> {Logon_MsgType, SequenceReset_MsgType}"
      "message_PossDupFlag m = Inr False"
  obtains fx' tok da db sa sb where "run_tasks (fixture_links dict orch clock) 3 fx = (Inr (), fx')"
    "session_of fx' p = a\<lparr> m_incoming_msg_seq_num := k + 1, m_next_test_request_id := m_next_test_request_id a + 1,
       m_expected_test_request_id := Some (m_next_test_request_id a), m_outgoing_msg_seq_num := n + 2 \<rparr>"
    "session_of fx' q = b\<lparr> m_state := resending, m_incoming_target_msg_seq_num := n, m_incoming_resent_msg_seq_num := n + 1,
       m_incoming_msg_seq_num := n + 1, m_next_test_request_id := m_next_test_request_id b + 1,
       m_expected_test_request_id := Some (m_next_test_request_id b), m_outgoing_msg_seq_num := k + 2, m_heartbeat_timer_token := tok \<rparr>"
    "posted (scheduler (net fx')) = [Deliver q da, Deliver p db]" "open_net (net fx')"
    "\<And>j. tokens_left (1 + j) (scheduler (net fx)) \<Longrightarrow> tokens_left j (scheduler (net fx'))"
    "carries (m_options a) (test_request_with (m_next_test_request_id a)) (n + 1) da"
    "carries (m_options b) (test_request_with (m_next_test_request_id b)) (k + 1) db"
    "history fx' p = extend (history fx p) [sa, da] [sb] []" "history fx' q = extend (history fx q) [sb, db] [d, sa] [resending]"
proof -
  let ?io = "fixture_links dict orch clock"
  note N = unat_successors[OF n(2)] and K = unat_successors[OF n(7)]
  have q: "peer q = p" "p \<noteq> q" "q \<noteq> p" using fx(3) by simp_all
  have e: "unat e < 2 ^ 31" "e < n + 1" using n(4) N(1,4) by (auto simp: word_less_nat_alt)
  note A = in_touchD[OF a] and B = in_touchD[OF b(1)]
  obtain w1 d1 where w1: "on_message_read (?io q) d (delivered q d [] fx) = (Inr (), w1)"
    "sess w1 = b\<lparr> m_state := resending, m_incoming_resent_msg_seq_num := e, m_incoming_target_msg_seq_num := n, m_outgoing_msg_seq_num := k + 1 \<rparr>"
    "carries (m_options b) (resend_request_with e n) k d1" "reacts q [d1] [resending] 0 (delivered q d [] fx) w1"
  proof (rule gap_step[OF d N(1), where w = "delivered q d [] fx" and e = e and dict = dict and clock = clock and p = q and orch = orch], goal_cases)
    case (8 w' d')
    then show ?case using fx(2) n(5) by (intro that) simp_all
  qed (use fx(2) B b(2) n(3,4) delivered_open[OF fx(4)] in simp_all)
  obtain f1 where f1: "run_next ?io fx = (Inr (), f1)" "session_of f1 = (session_of fx)(q := sess w1)" "open_net (net f1)"
    "posted (scheduler (net f1)) = [Deliver p d1]" "history f1 = (history fx)(q := extend (history fx q) [d1] [d] [resending])"
    "\<And>j. tokens_left (0 + j) (scheduler (net fx)) \<Longrightarrow> tokens_left j (scheduler (net f1))"
    by (rule run_next_reacts[where io = ?io, OF fx(5,4) w1(1,4)]) (simp add: q)
  have a1: "session_of f1 p = a" using f1(2) fx(1) q by simp
  obtain w2 d2 d3 where w2: "on_message_read (?io p) d1 (delivered p d1 [] f1) = (Inr (), w2)"
    "sess w2 = a\<lparr> m_incoming_msg_seq_num := k + 1, m_next_test_request_id := m_next_test_request_id a + 1,
       m_expected_test_request_id := Some (m_next_test_request_id a), m_outgoing_msg_seq_num := n + 2 \<rparr>"
    "carries (m_options a) (gap_fill_with e (n + 1)) e d2" "carries (m_options a) (test_request_with (m_next_test_request_id a)) (n + 1) d3"
    "reacts p [d2, d3] [] 0 (delivered p d1 [] f1) w2"
  proof (rule resend_request_step[OF w1(3) e(1) N(1) K(1), where w = "delivered p d1 [] f1" and x = "m_next_test_request_id a"
      and new = "n + 1" and dict = dict and clock = clock and p = p and orch = orch], goal_cases)
    case (10 w' d1 d2)
    then show ?case using a1 by (intro that) simp_all
  qed (use a1 A n(1,6) delivered_open[OF f1(3)] in simp_all)
  obtain f2 where f2: "run_next ?io f1 = (Inr (), f2)" "session_of f2 = (session_of f1)(p := sess w2)" "open_net (net f2)"
    "posted (scheduler (net f2)) = Deliver q d2 # [Deliver q d3]" "history f2 = (history f1)(p := extend (history f1 p) [d2, d3] [d1] [])"
    "\<And>j. tokens_left (0 + j) (scheduler (net f1)) \<Longrightarrow> tokens_left j (scheduler (net f2))"
    by (rule run_next_reacts[where io = ?io, OF f1(4,3) w2(1,5)]) (simp add: fx(3))
  have b2: "session_of f2 q = sess w1" using f2(2) f1(2) q by simp
  have tok: "tokens_left (Suc 0) (scheduler (net f2))" using f2(6)[of 1] f1(6)[of 1] fx(6) by simp
  obtain w3 d4 tk where w3: "on_message_read (?io q) d2 (delivered q d2 [Deliver q d3] f2) = (Inr (), w3)"
    "sess w3 = (sess w1)\<lparr> m_incoming_resent_msg_seq_num := n + 1, m_incoming_msg_seq_num := n + 1,
       m_next_test_request_id := m_next_test_request_id b + 1,
       m_expected_test_request_id := Some (m_next_test_request_id b), m_outgoing_msg_seq_num := k + 2, m_heartbeat_timer_token := tk \<rparr>"
    "carries (m_options b) (test_request_with (m_next_test_request_id b)) (k + 1) d4" "reacts q [d4] [] 1 (delivered q d2 [Deliver q d3] f2) w3"
  proof (rule gap_fill_step[OF w2(3) e(1) N(2) e(2), where w = "delivered q d2 [Deliver q d3] f2" and y = "m_next_test_request_id b"
      and k = 0 and dict = dict and clock = clock and p = q and orch = orch], goal_cases)
    case (11 w' d' tok)
    then show ?case using b2 w1(2) by (intro that[of w' tok d']) (simp_all add: add.commute)
  qed (use b2 w1(2) B n(3) N(4) tok delivered_open[OF f2(3)] in simp_all)
  obtain f3 where f3: "run_next ?io f2 = (Inr (), f3)" "session_of f3 = (session_of f2)(q := sess w3)" "open_net (net f3)"
    "posted (scheduler (net f3)) = [Deliver q d3, Deliver p d4]" "history f3 = (history f2)(q := extend (history f2 q) [d4] [d2] [])"
    "\<And>j. tokens_left (1 + j) (scheduler (net f2)) \<Longrightarrow> tokens_left j (scheduler (net f3))"
    by (rule run_next_reacts[where io = ?io, OF f2(4,3) w3(1,4)]) (simp add: q)
  show thesis
  proof (rule that[of f3 tk d3 d4 d2 d1])
    show "run_tasks ?io 3 fx = (Inr (), f3)" using f1(1) f2(1) f3(1) by (simp add: eval_nat_numeral)
    show "session_of f3 p = a\<lparr> m_incoming_msg_seq_num := k + 1, m_next_test_request_id := m_next_test_request_id a + 1,
       m_expected_test_request_id := Some (m_next_test_request_id a), m_outgoing_msg_seq_num := n + 2 \<rparr>"
      using f3(2) f2(2) w2(2) q by simp
    show "session_of f3 q = b\<lparr> m_state := resending, m_incoming_target_msg_seq_num := n, m_incoming_resent_msg_seq_num := n + 1,
       m_incoming_msg_seq_num := n + 1, m_next_test_request_id := m_next_test_request_id b + 1,
       m_expected_test_request_id := Some (m_next_test_request_id b), m_outgoing_msg_seq_num := k + 2, m_heartbeat_timer_token := tk \<rparr>"
      using f3(2) w3(2) w1(2) by simp
    show "tokens_left j (scheduler (net f3))" if "tokens_left (1 + j) (scheduler (net fx))" for j
      using f3(6) f2(6) f1(6) that by simp
    show "history f3 p = extend (history fx p) [d2, d3] [d1] []" "history f3 q = extend (history fx q) [d1, d4] [d, d2] [resending]"
      using f3(5) f2(5) f1(5) q by simp_all
  qed (fact f3(3,4) w2(4) w3(3))+
qed

text \<open>The four deliveries that answer the TestRequests.\<close>

lemma gap_closed:
  assumes fx: "session_of fx p = a" "session_of fx q = b" "q = peer p" "open_net (net fx)"
      "posted (scheduler (net fx)) = [Deliver q da, Deliver p db]" "tokens_left 1 (scheduler (net fx))"
    and a: "in_touch dict clock (m_options b) a" "m_state a = logged_on"
    and b: "in_touch dict clock (m_options a) b" "m_state b = resending" "m_expected_test_request_id b = Some y"
    and n: "m_outgoing_msg_seq_num a = n + 2" "m_incoming_msg_seq_num b = n + 1" "unat n + 3 < 2 ^ 31"
      "m_outgoing_msg_seq_num b = k + 2" "m_incoming_msg_seq_num a = k + 1" "unat k + 3 < 2 ^ 31"
    and d: "carries (m_options a) (test_request_with x) (n + 1) da" "carries (m_options b) (test_request_with y) (k + 1) db"
  obtains fx' dc dd tok where "run_tasks (fixture_links dict orch clock) 4 fx = (Inr (), fx')"
    "session_of fx' p = a\<lparr> m_incoming_msg_seq_num := k + 3, m_outgoing_msg_seq_num := n + 3 \<rparr>"
    "session_of fx' q = b\<lparr> m_incoming_msg_seq_num := n + 3, m_outgoing_msg_seq_num := k + 3, m_state := logged_on,
       m_heartbeat_timer_token := tok \<rparr>"
    "posted (scheduler (net fx')) = []" "open_net (net fx')"
    "history fx' p = extend (history fx p) [dd] [db, dc] []" "history fx' q = extend (history fx q) [dc] [da, dd] [logged_on]"
proof -
  let ?io = "fixture_links dict orch clock"
  note N = unat_successors[OF n(3)] and K = unat_successors[OF n(6)] and A = in_touchD[OF a(1)] and B = in_touchD[OF b(1)]
  have q: "peer q = p" "p \<noteq> q" "q \<noteq> p" using fx(3) by simp_all
  have plus: "i + 1 + 1 = i + 2" "i + 2 + 1 = i + 3" "i + 1 + 2 = i + 3" for i :: u32 by simp_all
  obtain w1 dc where w1: "on_message_read (?io q) da (delivered q da [Deliver p db] fx) = (Inr (), w1)"
    "sess w1 = b\<lparr> m_incoming_msg_seq_num := n + 2, m_outgoing_msg_seq_num := k + 3 \<rparr>"
    "carries (m_options b) (heartbeat_with x) (k + 2) dc" "reacts q [dc] [] 0 (delivered q da [Deliver p db] fx) w1"
  proof (rule answer_step[OF d(1) N(2), where w = "delivered q da [Deliver p db] fx" and dict = dict and clock = clock and p = q and orch = orch], goal_cases)
    case (6 w' d')
    then show ?case using fx(2) n(4) by (intro that[of w' d']) (simp_all add: plus)
  qed (use fx(2) B n(2) delivered_open[OF fx(4)] in simp_all)
  obtain f1 where f1: "run_next ?io fx = (Inr (), f1)" "session_of f1 = (session_of fx)(q := sess w1)" "open_net (net f1)"
    "posted (scheduler (net f1)) = Deliver p db # [Deliver p dc]" "history f1 = (history fx)(q := extend (history fx q) [dc] [da] [])"
    "\<And>j. tokens_left (0 + j) (scheduler (net fx)) \<Longrightarrow> tokens_left j (scheduler (net f1))"
    by (rule run_next_reacts[where io = ?io, OF fx(5,4) w1(1,4)]) (simp add: q)
  have a1: "session_of f1 p = a" using f1(2) fx(1) q by simp
  obtain w2 dd where w2: "on_message_read (?io p) db (delivered p db [Deliver p dc] f1) = (Inr (), w2)"
    "sess w2 = a\<lparr> m_incoming_msg_seq_num := k + 2, m_outgoing_msg_seq_num := n + 3 \<rparr>"
    "carries (m_options a) (heartbeat_with y) (n + 2) dd" "reacts p [dd] [] 0 (delivered p db [Deliver p dc] f1) w2"
  proof (rule answer_step[OF d(2) K(2), where w = "delivered p db [Deliver p dc] f1" and dict = dict and clock = clock and p = p and orch = orch], goal_cases)
    case (6 w' d')
    then show ?case using a1 n(1) by (intro that[of w' d']) (simp_all add: plus)
  qed (use a1 A n(5) delivered_open[OF f1(3)] in simp_all)
  obtain f2 where f2: "run_next ?io f1 = (Inr (), f2)" "session_of f2 = (session_of f1)(p := sess w2)" "open_net (net f2)"
    "posted (scheduler (net f2)) = Deliver p dc # [Deliver q dd]" "history f2 = (history f1)(p := extend (history f1 p) [dd] [db] [])"
    "\<And>j. tokens_left (0 + j) (scheduler (net f1)) \<Longrightarrow> tokens_left j (scheduler (net f2))"
    by (rule run_next_reacts[where io = ?io, OF f1(4,3) w2(1,4)]) (simp add: fx(3))
  let ?w3 = "(received dc (delivered p dc [Deliver q dd] f2))\<lparr> sess := (session_of f2 p)\<lparr> m_incoming_msg_seq_num := k + 2 + 1 \<rparr> \<rparr>"
  have w3: "on_message_read (?io p) dc (delivered p dc [Deliver q dd] f2) = (Inr (), ?w3)"
    "reacts p [] [] 0 (delivered p dc [Deliver q dd] f2) ?w3"
    using idle_heartbeat_step[OF w1(3) K(3), of "delivered p dc [Deliver q dd] f2"] f2(2) w2(2) A(2,3) a(2) by simp_all
  obtain f3 where f3: "run_next ?io f2 = (Inr (), f3)" "session_of f3 = (session_of f2)(p := sess ?w3)" "open_net (net f3)"
    "posted (scheduler (net f3)) = Deliver q dd # []" "history f3 = (history f2)(p := extend (history f2 p) [] [dc] [])"
    "\<And>j. tokens_left (0 + j) (scheduler (net f2)) \<Longrightarrow> tokens_left j (scheduler (net f3))"
    by (rule run_next_reacts[where io = ?io, OF f2(4,3) w3]) simp
  have b3: "session_of f3 q = sess w1" using f3(2) f2(2) f1(2) q by simp
  have tok: "tokens_left (Suc 0) (scheduler (net f3))" using f3(6) f2(6) f1(6) fx(6) by simp
  obtain w4 tk where w4: "on_message_read (?io q) dd (delivered q dd [] f3) = (Inr (), w4)"
    "sess w4 = b\<lparr> m_incoming_msg_seq_num := n + 3, m_outgoing_msg_seq_num := k + 3, m_state := logged_on, m_heartbeat_timer_token := tk \<rparr>"
    "reacts q [] [logged_on] 1 (delivered q dd [] f3) w4"
  proof (rule final_heartbeat_step[OF w2(3) N(3), where w = "delivered q dd [] f3" and st = resending and k = 0 and dict = dict
      and clock = clock and p = q and orch = orch], goal_cases)
    case (8 w' tok)
    then show ?case using b3 w1(2) by (intro that[of w' tok]) (simp_all add: plus)
  qed (use b3 w1(2) B b(2,3) tok in simp_all)
  obtain f4 where f4: "run_next ?io f3 = (Inr (), f4)" "session_of f4 = (session_of f3)(q := sess w4)" "open_net (net f4)"
    "posted (scheduler (net f4)) = []" "history f4 = (history f3)(q := extend (history f3 q) [] [dd] [logged_on])"
    by (rule run_next_reacts[where io = ?io, OF f3(4,3) w4(1,3)]) simp
  show thesis
  proof (rule that[of f4 tk dd dc])
    show "run_tasks ?io 4 fx = (Inr (), f4)" using f1(1) f2(1) f3(1) f4(1) by (simp add: eval_nat_numeral)
    show "session_of f4 p = a\<lparr> m_incoming_msg_seq_num := k + 3, m_outgoing_msg_seq_num := n + 3 \<rparr>"
      using f4(2) f3(2) f2(2) w2(2) q by (simp add: plus)
    show "session_of f4 q = b\<lparr> m_incoming_msg_seq_num := n + 3, m_outgoing_msg_seq_num := k + 3, m_state := logged_on,
       m_heartbeat_timer_token := tk \<rparr>" using f4(2) w4(2) by simp
    show "history f4 p = extend (history fx p) [dd] [db, dc] []" "history f4 q = extend (history fx q) [dc] [da, dd] [logged_on]"
      using f4(5) f3(5) f2(5) f1(5) q by simp_all
  qed (fact f4(3,4))+
qed

section \<open>The recovery\<close>

text \<open>What a test hands to \<open>send_from\<close>: a message that fits the wire and is neither a Logon nor a SequenceReset.\<close>

definition ordinary :: "orchestration_field_collection \<Rightarrow> string \<Rightarrow> field list \<Rightarrow> bool" where
  "ordinary dict type es \<longleftrightarrow> all_short dict es \<and> length es \<le> 7 \<and> CheckSum_Tag \<notin> set (tags es) \<and> PossDupFlag_Tag \<notin> set (tags es) \<and>
     short_text type \<and> type \<notin> {Logon_MsgType, SequenceReset_MsgType}"

definition fixture_message :: "string \<Rightarrow> field list \<Rightarrow> message" where
  "fixture_message type es = (make_message True es)\<lparr> m_fields := fc_replace (field_string MsgType_Tag type) (m_fields (make_message True es)) \<rparr>"

lemma tags_built: "set (tags (m_fields (make_message True es))) = set (tags header_fields) \<union> set (tags es)"
proof -
  have "set (tags (fold fc_upsert es gs)) = set (tags gs) \<union> set (tags es)" for gs
    by (induction es arbitrary: gs) (simp_all add: tag_set_fc_upsert)
  then show ?thesis by (simp add: make_message_def fc_set_all_fold)
qed

lemma fixture_message_ok:
  assumes "wire_safe dict clock opt" "ordinary dict type es"
  shows "has_header (fixture_message type es)" "all_short dict (m_fields (fixture_message type es))"
    "length (m_fields (fixture_message type es)) \<le> 14" "message_MsgType (fixture_message type es) = Inr type"
    "message_PossDupFlag (fixture_message type es) = Inr False"
proof -
  let ?m = "make_message True es" and ?f = "field_string 35 type"
  have o: "all_short dict es" "length es \<le> 7" "CheckSum_Tag \<notin> set (tags es)" "PossDupFlag_Tag \<notin> set (tags es)" "short_text type"
    using assms(2) by (simp_all add: ordinary_def)
  have t: "tags (fc_replace ?f (m_fields ?m)) = tags (m_fields ?m)" by (simp add: tags_fc_replace)
  show "has_header (fixture_message type es)" using built_has_header[OF o(3)] t by (simp add: has_header_def fixture_message_def)
  have "short_field dict ?f" using header_field_short[OF assms(1) _ o(5), of 35] by (simp add: header_tags_def)
  then show "all_short dict (m_fields (fixture_message type es))"
    using all_short_set(1)[OF all_short_built[OF assms(1) o(1)]] by (simp add: fixture_message_def)
  have "length (fc_replace ?f (m_fields ?m)) = length (m_fields ?m)" using arg_cong[OF t, of length] by simp
  then show "length (m_fields (fixture_message type es)) \<le> 14" using length_built[of es] o(2) by (simp add: fixture_message_def)
  have "fc_try_get 35 (m_fields ?m) \<noteq> None" unfolding fc_try_get_None_iff tags_built by (simp add: header_fields_def)
  then show "message_MsgType (fixture_message type es) = Inr type"
    by (simp add: fixture_message_def message_MsgType_def message_value_try_get fc_try_get_replace)
  have "fc_try_get 43 (m_fields (fixture_message type es)) = None"
    unfolding fc_try_get_None_iff using o(4) tags_built[of es] by (simp add: fixture_message_def t header_fields_def)
  then show "message_PossDupFlag (fixture_message type es) = Inr False" by (simp add: message_PossDupFlag_def fc_get_bool_try_get)
qed

lemma fixture_message_sent:
  assumes safe: "wire_safe dict clock (m_options (session_of fx p))" "ordinary dict type es" and o: "open_net (net fx)"
  obtains fx' d where "send_from (fixture_links dict orch clock) p type es encode_standard [] fx = (Inr (), fx')"
    "session_of fx' = (session_of fx)(p := (session_of fx p)\<lparr> m_outgoing_msg_seq_num := m_outgoing_msg_seq_num (session_of fx p) + 1 \<rparr>)"
    "carries (m_options (session_of fx p)) (fixture_message type es) (m_outgoing_msg_seq_num (session_of fx p)) d"
    "posted (scheduler (net fx')) = posted (scheduler (net fx)) @ [Deliver (peer p) d]" "open_net (net fx')"
    "\<And>j. tokens_left j (scheduler (net fx')) = tokens_left j (scheduler (net fx))"
    "history fx' = (history fx)(p := extend (history fx p) [d] [] [])"
proof -
  let ?w = "\<lparr> sess = session_of fx p, outside = net fx, emitted = signals_of fx p \<rparr>"
  note m = fixture_message_ok[OF safe]
  have ty: "type \<noteq> Logon_MsgType \<or> message_ResetSeqNumFlag (fixture_message type es) = Inr False" using safe(2) by (simp add: ordinary_def)
  have sf: "wire_safe dict clock (m_options (sess ?w))" "\<not> writer_closed (endpoint_of (outside ?w) p)" using safe(1) o by (simp_all add: open_net_def)
  obtain m' d where s: "session_send (fixture_links dict orch clock p) (fixture_message type es) encode_standard ?w = (Inr m', after_send p m' d ?w)"
    "carries (m_options (sess ?w)) (fixture_message type es) (m_outgoing_msg_seq_num (sess ?w)) d"
    by (rule send_travels[OF m(1-4) ty sf, where orch = orch])
  have "fixture_send (fixture_links dict orch clock p) type es encode_standard [] ?w = (Inr (), after_send p m' d ?w)"
    using s(1) by (simp add: fixture_send_def fixture_message_def fc_set_string_def Let_def bindP_def)
  then have "send_from (fixture_links dict orch clock) p type es encode_standard [] fx = (Inr (), after_call p (after_send p m' d ?w) fx)"
    unfolding send_from_def by (rule with_party_returns)
  then show thesis by (rule that) (use s(2) o in \<open>simp_all add: history_after_call\<close>)
qed

lemma history_states: "history fx' p = extend (history fx p) ds ds' sts \<Longrightarrow> state_changes_of fx' p = rev sts @ state_changes_of fx p"
  by (simp add: history_def) (metis rev_append rev_rev_ident)


text \<open>An initiator that is nine messages ahead of an acceptor sends a Heartbeat.\<close>

definition wide_dict :: orchestration_field_collection where
  "wide_dict = \<lparr> m_field_offsets = replicate 130 0, m_of_fields = [sample_field False], m_fields_by_name = [] \<rparr>"

definition gap_fixture :: session_fixture where
  "gap_fixture = new_fixture\<lparr> session_of := (\<lambda>p. case p of
       Initiator \<Rightarrow> initial_session\<lparr> m_state := logged_on, m_outgoing_msg_seq_num := 12, m_incoming_msg_seq_num := 4,
         m_options := (sample_options ''INITIATOR'' ''ACCEPTOR'')\<lparr> m_test_request_delay := 0 \<rparr> \<rparr>
     | Acceptor \<Rightarrow> initial_session\<lparr> m_state := logged_on, m_outgoing_msg_seq_num := 4, m_incoming_msg_seq_num := 3, m_logon_received := True,
         m_options := (sample_options ''ACCEPTOR'' ''INITIATOR'')\<lparr> m_test_request_delay := 0, m_logon_behaviour := acceptor \<rparr> \<rparr>) \<rparr>"

lemma wide_dict_knows:
  "list_all (known_tag wide_dict) (header_tags @ [EncryptMethod_Tag, HeartBtInt_Tag, TestReqID_Tag, BeginSeqNo_Tag, EndSeqNo_Tag,
     NewSeqNo_Tag, GapFillFlag_Tag, PossDupFlag_Tag])"
  by code_simp


end
