(* ===== verification/Reset_Exchange.thy ===== *)
theory Reset_Exchange
  imports Gap_Recovery
begin

text \<open>
  A Logon with the ResetSeqNumFlag between two sessions. The session that sends it forgets both of its
  numbers, the one that receives it does the same and answers with a Logon of the same kind; the two
  TestRequests and the Heartbeats that follow bring both sessions to \<open>logged_on\<close> again.
\<close>

section \<open>The message\<close>

definition reset_logon_with :: "u32 \<Rightarrow> message" where
  "reset_logon_with h = make_message True [field_string MsgType_Tag Logon_MsgType, field_string EncryptMethod_Tag EncryptMethod_None,
     field_u32 HeartBtInt_Tag h, field_bool ResetSeqNumFlag_Tag True]"

definition reset_safe :: "orchestration_field_collection \<Rightarrow> (nat \<Rightarrow> utc_time) \<Rightarrow> session_options \<Rightarrow> bool" where
  "reset_safe dict clock opt \<longleftrightarrow> handshake_safe dict clock opt \<and> known_tag dict ResetSeqNumFlag_Tag"

lemma reset_safeD:
  assumes "reset_safe dict clock opt"
  shows "handshake_safe dict clock opt" "wire_safe dict clock opt" "list_all (known_tag dict) [35, 98, 108, 141]"
  using assms by (simp_all add: reset_safe_def handshake_safe_def wire_safe_def header_tags_def)

lemma reset_safe_heartbeat [simp]:
  "reset_safe dict clock (opt\<lparr> m_heartbeat_interval := h \<rparr>) \<longleftrightarrow> reset_safe dict clock opt"
  by (simp add: reset_safe_def)

lemma reset_logon_ok:
  assumes "reset_safe dict clock opt"
  shows "has_header (reset_logon_with h)" "all_short dict (m_fields (reset_logon_with h))" "length (m_fields (reset_logon_with h)) \<le> 14"
proof -
  let ?fs = "[field_string 35 ''A'', field_string 98 ''0'', field_u32 108 h, field_bool 141 True]"
  have fs: "all_short dict ?fs"
    using reset_safeD(3)[OF assms] by (simp add: short_field_def short_u32 field_u32_def field_bool_def short_single)
  show "has_header (reset_logon_with h)" "all_short dict (m_fields (reset_logon_with h))" "length (m_fields (reset_logon_with h)) \<le> 14"
    using built_has_header[of ?fs] all_short_built[OF reset_safeD(2)[OF assms] fs] length_built[of ?fs]
    by (simp_all add: reset_logon_with_def field_bool_def)
qed

lemma reset_logon_reads:
  "message_MsgType (reset_logon_with h) = Inr Logon_MsgType" "message_ResetSeqNumFlag (reset_logon_with h) = Inr True"
  "message_PossDupFlag (reset_logon_with h) = Inr False"
  by (simp_all add: reset_logon_with_def message_PossDupFlag_def built_message_simps field_bool_def)

text \<open>It is what \<open>send_logon(true)\<close> builds, and what the tests build.\<close>

lemma reset_logon_built:
  "(logon_with h)\<lparr> m_fields := fc_upsert (field_bool ResetSeqNumFlag_Tag True) (m_fields (logon_with h)) \<rparr> = reset_logon_with h"
  "fixture_message Logon_MsgType [field_string EncryptMethod_Tag EncryptMethod_None, field_u32 HeartBtInt_Tag h,
     field_bool ResetSeqNumFlag_Tag True] = reset_logon_with h"
  by (simp_all add: logon_with_def reset_logon_with_def fixture_message_def make_message_def fc_set_all_fold header_fields_def
      fc_set_def field_bool_def field_u32_def)

section \<open>Sending it\<close>

text \<open>The sender starts counting at 1 again, whatever its numbers were.\<close>

lemma reset_logon_sent:
  assumes safe: "reset_safe dict clock (m_options (sess w))" and o: "\<not> writer_closed (endpoint_of (outside w) p)"
  obtains m' w' d where "session_send (fixture_links dict orch clock p) (reset_logon_with h) encode_standard w = (Inr m', w')"
    "sess w' = (sess w)\<lparr> m_state := resetting, m_outgoing_msg_seq_num := 2, m_incoming_msg_seq_num := 1 \<rparr>"
    "carries (m_options (sess w)) (reset_logon_with h) 1 d"
    "reacts p [d] (if m_state (sess w) = resetting then [] else [resetting]) 0 w w'"
    "\<not> writer_closed (endpoint_of (outside w') p)"
proof -
  let ?e = "(outside w)\<lparr> clock_reads := Suc (clock_reads (outside w)) \<rparr>" and ?m = "reset_logon_with h"
  note m = reset_logon_ok[OF safe]
  have o': "\<not> writer_closed (endpoint_of ?e p)" using o by simp
  have num: "if encode_standard AND set_msg_seq_num \<noteq> 0 then 1 = (1::u32) else fc_try_get MsgSeqNum_Tag (m_fields ?m) = Some (field_u32 MsgSeqNum_Tag 1)"
    by simp
  show thesis
  proof (rule message_travels[OF m full_options_used(1) num reset_safeD(2)[OF safe] o', of "clock_reads (outside w)"], goal_cases)
    case (1 m' d)
    let ?w = "w\<lparr> sess := (sess w)\<lparr> m_state := resetting, m_outgoing_msg_seq_num := 2, m_incoming_msg_seq_num := 1 \<rparr>,
      outside := sent_net p d (outside w),
      emitted := emitted w @ (if m_state (sess w) = resetting then [] else [State_changed (m_state (sess w)) resetting]) @ [Message_sent m'] \<rparr>"
    have "session_send (fixture_links dict orch clock p) ?m encode_standard w = (Inr m', ?w)"
      using 1(1) by (simp add: reset_logon_reads session_send_def set_state_apply set_outgoing_msg_seq_num_def set_incoming_msg_seq_num_def
          the_session_def on_session_def allocate_outgoing_msg_seq_num_def quiet_def external_apply emit_def fixture_links_def
          sent_net_def seqP_def bindP_def)
    moreover have "reacts p [d] (if m_state (sess w) = resetting then [] else [resetting]) 0 w ?w" by (simp add: reacts_def)
    ultimately show thesis using 1(2) o by (intro that[of m' ?w d]) simp_all
  qed
qed

section \<open>Receiving it\<close>

lemma reset_logon_dispatch:
  assumes d: "carries opt (reset_logon_with h) 1 d" "unat h < 2 ^ 31"
    and s: "mirrored opt (m_options (sess w))" "\<not> m_use_next_expected_msg_seq_num (m_options (sess w))"
    and answer: "(if m_state (sess w) = resetting then send_test_request io
        else seqP (emit (Information ''Logon message received with ResetSeqNumFlag - resetting sequence numbers''))
          (seqP (session_reset io) (seqP (send_logon io True) (send_post_logon_test_request io))))
      ((received d w)\<lparr> sess := (sess w)\<lparr> m_options := (m_options (sess w))\<lparr> m_heartbeat_interval := h \<rparr>, m_logon_received := True \<rparr> \<rparr>) =
      (Inr (), w2)"
  shows "on_message_read io d w = (Inr (), w2\<lparr> sess := (sess w2)\<lparr> m_incoming_msg_seq_num := 2 \<rparr> \<rparr>)"
proof -
  note same = carried_same[OF d(1), unfolded reset_logon_reads]
  have acc: "accepted (sess w) d" by (rule carried_accepted[OF d(1) s(1)]) (simp add: first_message_ok_def same)
  have hb: "fc_try_get HeartBtInt_Tag (m_fields d) = Some (field_u32 HeartBtInt_Tag h)"
    using carried_get[OF d(1), of 108] by (simp add: stamped_tags_def reset_logon_with_def built_message_simps)
  have n: "message_MsgSeqNum d = Inr 1" using carried_number[OF d(1)] by simp
  have ex: "extract_heartbeat_interval io d (received d w) =
      (Inr True, (received d w)\<lparr> sess := (sess w)\<lparr> m_options := (m_options (sess w))\<lparr> m_heartbeat_interval := h \<rparr> \<rparr> \<rparr>)"
    using stoi_u32_to_string(2)[OF d(2)]
    by (simp add: extract_heartbeat_interval_def hb field_u32_def try_catch_def set_heartbeat_interval_def on_options_def on_session_def)
  have "process_logon io d (received d w) = (Inr True, w2)"
    using ex s(2) answer n same(4)
    by (simp add: process_logon_def on_session_def the_session_def bindP_def guardP_def seqP_def
        split: if_splits prod.splits sum.splits)
  then have "dispatch_message io d (received d w) = (Inr (), w2\<lparr> sess := (sess w2)\<lparr> m_incoming_msg_seq_num := 2 \<rparr> \<rparr>)"
    by (simp add: dispatch_message_def same n set_incoming_msg_seq_num_def on_session_def bindP_def guardP_def)
  then show ?thesis unfolding accepted_dispatch[OF acc, of io] .
qed

lemma send_reset_logon:
  "\<not> m_use_next_expected_msg_seq_num (m_options (sess w)) \<Longrightarrow>
   send_logon io True w = send_standard io (reset_logon_with (m_heartbeat_interval (m_options (sess w)))) w"
  by (simp add: send_logon_def the_session_def reset_logon_built(1)[symmetric] logon_with_def fc_set_bool_def field_bool_def
      fc_set_string_def Let_def)

lemma test_request_sent:
  assumes "handshake_safe dict clock (m_options (sess w))" "\<not> writer_closed (endpoint_of (outside w) p)"
    and "m_next_test_request_id (sess w) = x"
  obtains w' d where "send_test_request (fixture_links dict orch clock p) w = (Inr (), w')"
    "sess w' = (sess w)\<lparr> m_next_test_request_id := x + 1, m_expected_test_request_id := Some x,
       m_outgoing_msg_seq_num := m_outgoing_msg_seq_num (sess w) + 1 \<rparr>"
    "carries (m_options (sess w)) (test_request_with x) (m_outgoing_msg_seq_num (sess w)) d" "reacts p [d] [] 0 w w'"
proof -
  let ?w = "w\<lparr> sess := (sess w)\<lparr> m_next_test_request_id := x + 1, m_expected_test_request_id := Some x \<rparr> \<rparr>"
  obtain m' d where t: "send_standard (fixture_links dict orch clock p) (test_request_with x) ?w = (Inr (), after_send p m' d ?w)"
    "carries (m_options (sess ?w)) (test_request_with x) (m_outgoing_msg_seq_num (sess ?w)) d"
    by (rule send_handshake[of dict clock ?w "test_request_with x" 0 x p orch]) (use assms(1,2) in simp_all)
  have "send_test_request (fixture_links dict orch clock p) w = (Inr (), after_send p m' d ?w)"
    using t(1) assms(3)
    by (simp add: send_test_request_def allocate_test_request_id_def the_session_def on_session_def test_request_with_def)
  moreover have "reacts p [d] [] 0 w (after_send p m' d ?w)" by (auto simp: reacts_def)
  ultimately show thesis using t(2) by (intro that[of "after_send p m' d ?w" d]) simp_all
qed

text \<open>A session that has asked for the reset itself takes the Logon for the answer.\<close>

lemma reset_confirmed_step:
  assumes d: "carries opt (reset_logon_with h) 1 d" "unat h < 2 ^ 31"
    and s: "mirrored opt (m_options (sess w))" "awaits_logon (sess w)" "m_state (sess w) = resetting" "m_next_test_request_id (sess w) = x"
    and safe: "handshake_safe dict clock (m_options (sess w))" "\<not> writer_closed (endpoint_of (outside w) p)"
  obtains w' d1 where "on_message_read (fixture_links dict orch clock p) d w = (Inr (), w')"
    "sess w' = (sess w)\<lparr> m_options := (m_options (sess w))\<lparr> m_heartbeat_interval := h \<rparr>, m_logon_received := True,
       m_next_test_request_id := x + 1, m_expected_test_request_id := Some x,
       m_outgoing_msg_seq_num := m_outgoing_msg_seq_num (sess w) + 1, m_incoming_msg_seq_num := 2 \<rparr>"
    "carries (m_options (sess w)) (test_request_with x) (m_outgoing_msg_seq_num (sess w)) d1" "reacts p [d1] [] 0 w w'"
proof -
  let ?v = "(received d w)\<lparr> sess := (sess w)\<lparr> m_options := (m_options (sess w))\<lparr> m_heartbeat_interval := h \<rparr>, m_logon_received := True \<rparr> \<rparr>"
  obtain w1 d1 where t: "send_test_request (fixture_links dict orch clock p) ?v = (Inr (), w1)"
    "sess w1 = (sess ?v)\<lparr> m_next_test_request_id := x + 1, m_expected_test_request_id := Some x,
       m_outgoing_msg_seq_num := m_outgoing_msg_seq_num (sess ?v) + 1 \<rparr>"
    "carries (m_options (sess ?v)) (test_request_with x) (m_outgoing_msg_seq_num (sess ?v)) d1" "reacts p [d1] [] 0 ?v w1"
    by (rule test_request_sent[of dict clock ?v p x orch]) (use safe s(4) in simp_all)
  have u: "\<not> m_use_next_expected_msg_seq_num (m_options (sess w))" using s(2) by (simp add: awaits_logon_def)
  have "on_message_read (fixture_links dict orch clock p) d w = (Inr (), w1\<lparr> sess := (sess w1)\<lparr> m_incoming_msg_seq_num := 2 \<rparr> \<rparr>)"
    by (rule reset_logon_dispatch[OF d s(1) u]) (use s(3) t(1) in simp)
  moreover have "reacts p [] [] 0 w (received d w)" using reacts_signals[of p "[Message_received d]" w] by simp
  from reacts_trans[OF this] t(4) have "reacts p [d1] [] 0 w w1" by simp
  ultimately show thesis using t(2,3) by (intro that[of "w1\<lparr> sess := (sess w1)\<lparr> m_incoming_msg_seq_num := 2 \<rparr> \<rparr>" d1]) simp_all
qed

text \<open>Any other session resets too and says so.\<close>

lemma reset_answered_step:
  assumes d: "carries opt (reset_logon_with h) 1 d" "unat h < 2 ^ 31"
    and s: "mirrored opt (m_options (sess w))" "awaits_logon (sess w)" "m_state (sess w) \<noteq> resetting" "m_next_test_request_id (sess w) = x"
    and safe: "reset_safe dict clock (m_options (sess w))" "\<not> writer_closed (endpoint_of (outside w) p)"
      "tokens_left k (scheduler (outside w))"
  obtains w' d1 d2 where "on_message_read (fixture_links dict orch clock p) d w = (Inr (), w')"
    "sess w' = (sess w)\<lparr> m_options := (m_options (sess w))\<lparr> m_heartbeat_interval := h \<rparr>, m_logon_received := True,
       m_heartbeat_timer_token := None, m_state := resetting, m_next_test_request_id := x + 1, m_expected_test_request_id := Some x,
       m_outgoing_msg_seq_num := 3, m_incoming_msg_seq_num := 2 \<rparr>"
    "carries (m_options (sess w)) (reset_logon_with h) 1 d1" "carries (m_options (sess w)) (test_request_with x) 2 d2"
    "reacts p [d1, d2] [resetting] 0 w w'"
proof -
  let ?io = "fixture_links dict orch clock p" and ?i = "Information ''Logon message received with ResetSeqNumFlag - resetting sequence numbers''"
  let ?s = "(sess w)\<lparr> m_options := (m_options (sess w))\<lparr> m_heartbeat_interval := h \<rparr>, m_logon_received := True \<rparr>"
  let ?v = "w\<lparr> sess := ?s, emitted := emitted w @ [Message_received d, ?i] \<rparr>"
  have tok: "tokens_left k (scheduler (outside ?v))" using safe(3) by simp
  obtain sch where stop: "stop_defibrillator ?io ?v =
      (Inr (), ?v\<lparr> sess := (sess ?v)\<lparr> m_heartbeat_timer_token := None \<rparr>, outside := (outside ?v)\<lparr> scheduler := sch \<rparr> \<rparr>)"
    "\<And>j. tokens_left j (scheduler (outside ?v)) \<Longrightarrow> tokens_left j sch" "posted sch = posted (scheduler (outside ?v))"
    using defibrillator_stopped[OF tok, of dict orch clock p] by metis
  let ?v2 = "w\<lparr> sess := ?s\<lparr> m_heartbeat_timer_token := None, m_state := resetting, m_outgoing_msg_seq_num := 1, m_incoming_msg_seq_num := 1 \<rparr>,
      outside := (outside w)\<lparr> scheduler := sch \<rparr>,
      emitted := emitted w @ [Message_received d, ?i, State_changed (m_state (sess w)) resetting] \<rparr>"
  have r2: "session_reset ?io ?v = (Inr (), ?v2)"
    using stop(1) s(3) by (simp add: session_reset_def set_state_apply set_outgoing_msg_seq_num_def set_incoming_msg_seq_num_def
        on_session_def seqP_def bindP_def)
  have k2: "reacts p [] [resetting] 0 w ?v2" using stop(2,3) by (auto simp: reacts_def open_net_def)
  have use: "\<not> m_use_next_expected_msg_seq_num (m_options (sess w))" "m_test_request_delay (m_options (sess w)) = 0"
    using s(2) by (simp_all add: awaits_logon_def)
  obtain m3 w3 d1 where l: "session_send ?io (reset_logon_with h) encode_standard ?v2 = (Inr m3, w3)"
    "sess w3 = (sess ?v2)\<lparr> m_state := resetting, m_outgoing_msg_seq_num := 2, m_incoming_msg_seq_num := 1 \<rparr>"
    "carries (m_options (sess ?v2)) (reset_logon_with h) 1 d1"
    "reacts p [d1] (if m_state (sess ?v2) = resetting then [] else [resetting]) 0 ?v2 w3"
    "\<not> writer_closed (endpoint_of (outside w3) p)"
    by (rule reset_logon_sent[of dict clock ?v2 p orch h]) (use safe in simp_all)
  obtain w4 d2 where t: "send_test_request ?io w3 = (Inr (), w4)"
    "sess w4 = (sess w3)\<lparr> m_next_test_request_id := x + 1, m_expected_test_request_id := Some x,
       m_outgoing_msg_seq_num := m_outgoing_msg_seq_num (sess w3) + 1 \<rparr>"
    "carries (m_options (sess w3)) (test_request_with x) (m_outgoing_msg_seq_num (sess w3)) d2" "reacts p [d2] [] 0 w3 w4"
    by (rule test_request_sent[of dict clock w3 p x orch]) (use l(2,5) s(4) reset_safeD(1)[OF safe(1)] in simp_all)
  have "send_logon ?io True ?v2 = (Inr (), w3)"
    using l(1) use(1) send_reset_logon[of ?v2 ?io] by (simp add: send_standard_def seqP_def bindP_def)
  moreover have "send_post_logon_test_request ?io w3 = (Inr (), w4)"
    using t(1) use(2) l(2) by (simp add: send_post_logon_test_request_def the_session_def bindP_def)
  ultimately have "on_message_read ?io d w = (Inr (), w4\<lparr> sess := (sess w4)\<lparr> m_incoming_msg_seq_num := 2 \<rparr> \<rparr>)"
    using r2 s(3) by (intro reset_logon_dispatch[OF d s(1) use(1)]) (simp add: emit_def seqP_def bindP_def)
  moreover have "reacts p [d1, d2] [resetting] 0 w w4"
    using reacts_trans[OF reacts_trans[OF k2 l(4)] t(4)] by simp
  ultimately show thesis using t(2,3) l(2,3) by (intro that[of "w4\<lparr> sess := (sess w4)\<lparr> m_incoming_msg_seq_num := 2 \<rparr> \<rparr>" d1 d2]) simp_all
qed

section \<open>The exchange\<close>

text \<open>A session that is logged on to a peer with options \<open>opt\<close>; its numbers may be anything.\<close>

definition reset_party :: "orchestration_field_collection \<Rightarrow> (nat \<Rightarrow> utc_time) \<Rightarrow> session_options \<Rightarrow> session \<Rightarrow> bool" where
  "reset_party dict clock opt s \<longleftrightarrow> reset_safe dict clock (m_options s) \<and> mirrored opt (m_options s) \<and> awaits_logon s \<and> m_state s = logged_on"

abbreviation reset_fields :: "u32 \<Rightarrow> field list" where
  "reset_fields h \<equiv> [field_string EncryptMethod_Tag EncryptMethod_None, field_u32 HeartBtInt_Tag h, field_bool ResetSeqNumFlag_Tag True]"

lemma reset_requested:
  assumes safe: "reset_safe dict clock (m_options (session_of fx p))" "m_state (session_of fx p) = logged_on" and o: "open_net (net fx)"
  obtains fx' d where "send_from (fixture_links dict orch clock) p Logon_MsgType (reset_fields h) encode_standard [] fx = (Inr (), fx')"
    "session_of fx' = (session_of fx)(p := (session_of fx p)\<lparr> m_state := resetting, m_outgoing_msg_seq_num := 2, m_incoming_msg_seq_num := 1 \<rparr>)"
    "carries (m_options (session_of fx p)) (reset_logon_with h) 1 d"
    "posted (scheduler (net fx')) = posted (scheduler (net fx)) @ [Deliver (peer p) d]" "open_net (net fx')"
    "\<And>j. tokens_left j (scheduler (net fx)) \<Longrightarrow> tokens_left j (scheduler (net fx'))"
    "history fx' = (history fx)(p := extend (history fx p) [d] [] [resetting])"
proof -
  let ?w = "\<lparr> sess = session_of fx p, outside = net fx, emitted = signals_of fx p \<rparr>" and ?io = "fixture_links dict orch clock"
  have sf: "reset_safe dict clock (m_options (sess ?w))" "\<not> writer_closed (endpoint_of (outside ?w) p)"
    using safe(1) o by (simp_all add: open_net_def)
  obtain m' w' d where s: "session_send (?io p) (reset_logon_with h) encode_standard ?w = (Inr m', w')"
    "sess w' = (sess ?w)\<lparr> m_state := resetting, m_outgoing_msg_seq_num := 2, m_incoming_msg_seq_num := 1 \<rparr>"
    "carries (m_options (sess ?w)) (reset_logon_with h) 1 d"
    "reacts p [d] (if m_state (sess ?w) = resetting then [] else [resetting]) 0 ?w w'"
    by (rule reset_logon_sent[OF sf, where orch = orch and h = h])
  have "fixture_send (?io p) Logon_MsgType (reset_fields h) encode_standard [] ?w = (Inr (), w')"
    using s(1) reset_logon_built(2)[of h] by (simp add: fixture_send_def fixture_message_def fc_set_string_def Let_def bindP_def)
  then have "send_from ?io p Logon_MsgType (reset_fields h) encode_standard [] fx = (Inr (), after_call p w' fx)"
    unfolding send_from_def by (rule with_party_returns)
  then show thesis by (rule that) (use s(2-4) safe(2) o in \<open>auto simp: reacts_def history_after_call\<close>)
qed

text \<open>The two deliveries up to the TestRequests.\<close>

lemma reset_agreed:
  assumes fx: "session_of fx p = a\<lparr> m_state := resetting, m_outgoing_msg_seq_num := 2, m_incoming_msg_seq_num := 1 \<rparr>" (is "_ = ?a")
      "session_of fx (peer p) = b" "open_net (net fx)" "posted (scheduler (net fx)) = [Deliver (peer p) d]" "tokens_left 2 (scheduler (net fx))"
    and s: "reset_party dict clock (m_options b) a" "reset_party dict clock (m_options a) b"
      "m_next_test_request_id a = x" "m_next_test_request_id b = y"
    and d: "carries (m_options a) (reset_logon_with h) 1 d" "unat h < 2 ^ 31"
  obtains fx' d1 d2 d3 where "run_tasks (fixture_links dict orch clock) 2 fx = (Inr (), fx')"
    "session_of fx' p = a\<lparr> m_state := resetting, m_options := (m_options a)\<lparr> m_heartbeat_interval := h \<rparr>, m_logon_received := True,
       m_next_test_request_id := x + 1, m_expected_test_request_id := Some x, m_outgoing_msg_seq_num := 3, m_incoming_msg_seq_num := 2 \<rparr>"
    "session_of fx' (peer p) = b\<lparr> m_options := (m_options b)\<lparr> m_heartbeat_interval := h \<rparr>, m_logon_received := True,
       m_heartbeat_timer_token := None, m_state := resetting, m_next_test_request_id := y + 1, m_expected_test_request_id := Some y,
       m_outgoing_msg_seq_num := 3, m_incoming_msg_seq_num := 2 \<rparr>"
    "posted (scheduler (net fx')) = [Deliver p d2, Deliver (peer p) d3]" "open_net (net fx')" "tokens_left 2 (scheduler (net fx'))"
    "carries (m_options b) (test_request_with y) 2 d2" "carries (m_options a) (test_request_with x) 2 d3"
    "history fx' p = extend (history fx p) [d3] [d1] []" "history fx' (peer p) = extend (history fx (peer p)) [d1, d2] [d] [resetting]"
proof -
  let ?io = "fixture_links dict orch clock" and ?q = "peer p"
  have A: "reset_safe dict clock (m_options a)" "mirrored (m_options b) (m_options a)" "awaits_logon a"
    and B: "reset_safe dict clock (m_options b)" "mirrored (m_options a) (m_options b)" "awaits_logon b" "m_state b = logged_on"
    using s(1,2) by (simp_all add: reset_party_def)
  obtain w1 d1 d2 where w1: "on_message_read (?io ?q) d (delivered ?q d [] fx) = (Inr (), w1)"
    "sess w1 = b\<lparr> m_options := (m_options b)\<lparr> m_heartbeat_interval := h \<rparr>, m_logon_received := True,
       m_heartbeat_timer_token := None, m_state := resetting, m_next_test_request_id := y + 1, m_expected_test_request_id := Some y,
       m_outgoing_msg_seq_num := 3, m_incoming_msg_seq_num := 2 \<rparr>"
    "carries (m_options b) (reset_logon_with h) 1 d1" "carries (m_options b) (test_request_with y) 2 d2"
    "reacts ?q [d1, d2] [resetting] 0 (delivered ?q d [] fx) w1"
  proof (rule reset_answered_step[OF d, where w = "delivered ?q d [] fx" and x = y and k = 2 and dict = dict and clock = clock and p = ?q
      and orch = orch], goal_cases)
    case (8 w' d1 d2)
    then show ?case using fx(2) by (intro that[of w' d1 d2]) simp_all
  qed (use fx(2,5) B s(4) delivered_open[OF fx(3)] in simp_all)
  obtain f1 where f1: "run_next ?io fx = (Inr (), f1)" "session_of f1 = (session_of fx)(?q := sess w1)" "open_net (net f1)"
    "posted (scheduler (net f1)) = Deliver p d1 # [Deliver p d2]" "history f1 = (history fx)(?q := extend (history fx ?q) [d1, d2] [d] [resetting])"
    "\<And>j. tokens_left (0 + j) (scheduler (net fx)) \<Longrightarrow> tokens_left j (scheduler (net f1))"
    by (rule run_next_reacts[where io = ?io, OF fx(4,3) w1(1,5)]) simp
  have a1: "session_of f1 p = ?a" using f1(2) fx(1) by simp
  obtain w2 d3 where w2: "on_message_read (?io p) d1 (delivered p d1 [Deliver p d2] f1) = (Inr (), w2)"
    "sess w2 = a\<lparr> m_state := resetting, m_options := (m_options a)\<lparr> m_heartbeat_interval := h \<rparr>, m_logon_received := True,
       m_next_test_request_id := x + 1, m_expected_test_request_id := Some x, m_outgoing_msg_seq_num := 3, m_incoming_msg_seq_num := 2 \<rparr>"
    "carries (m_options a) (test_request_with x) 2 d3" "reacts p [d3] [] 0 (delivered p d1 [Deliver p d2] f1) w2"
  proof (rule reset_confirmed_step[OF w1(3) d(2), where w = "delivered p d1 [Deliver p d2] f1" and x = x and dict = dict and clock = clock
      and p = p and orch = orch], goal_cases)
    case (7 w' d3)
    then show ?case using a1 by (intro that[of w' d3]) simp_all
  qed (use a1 A s(3) reset_safeD(1)[OF A(1)] delivered_open[OF f1(3)] in \<open>simp_all add: awaits_logon_def\<close>)
  obtain f2 where f2: "run_next ?io f1 = (Inr (), f2)" "session_of f2 = (session_of f1)(p := sess w2)" "open_net (net f2)"
    "posted (scheduler (net f2)) = [Deliver p d2, Deliver ?q d3]" "history f2 = (history f1)(p := extend (history f1 p) [d3] [d1] [])"
    "\<And>j. tokens_left (0 + j) (scheduler (net f1)) \<Longrightarrow> tokens_left j (scheduler (net f2))"
    by (rule run_next_reacts[where io = ?io, OF f1(4,3) w2(1,4)]) simp
  show thesis
    by (rule that[of f2 d2 d3 d1]) (use f1 f2 w1(2,4) w2(2,3) fx(5) in \<open>simp_all add: eval_nat_numeral\<close>)
qed


text \<open>The initiator that is nine messages ahead of its acceptor, with a dictionary that knows the flag, resets.\<close>

definition reset_dict :: orchestration_field_collection where
  "reset_dict = \<lparr> m_field_offsets = replicate 150 0, m_of_fields = [sample_field False], m_fields_by_name = [] \<rparr>"

lemma reset_dict_knows:
  "list_all (known_tag reset_dict) (header_tags @ [EncryptMethod_Tag, HeartBtInt_Tag, TestReqID_Tag, ResetSeqNumFlag_Tag])"
  by code_simp


end
