(* ===== verification/Logout_Exchange.thy ===== *)
theory Logout_Exchange
  imports Gap_Recovery
begin

text \<open>
  How a connection ends. A session that closes closes its reader and its writer; the writer's closure
  reaches the reader of the peer, and with it the peer's session.
\<close>

text \<open>The network after a session closed its ends, and after the peer has been told.\<close>

definition closed_net :: "party \<Rightarrow> network \<Rightarrow> network" where
  "closed_net p e = post (Close_reader (peer p)) (on_endpoint p (\<lambda>x. x\<lparr> reader_closed := True, writer_closed := True \<rparr>) e)"

lemma session_close_step:
  assumes "open_net (outside w)" "m_state (sess w) \<noteq> disconnected"
  shows "session_close (fixture_links dict orch clock p) w = (Inr (), w\<lparr> sess := (sess w)\<lparr> m_state := disconnected \<rparr>,
     outside := closed_net p (outside w), emitted := emitted w @ [State_changed (m_state (sess w)) disconnected] \<rparr>)"
proof -
  have "\<not> reader_closed (endpoint_of (outside w) p)" "\<not> writer_closed (endpoint_of (outside w) p)"
    using assms(1) by (simp_all add: open_net_def)
  then show ?thesis
    using assms(2)
    by (simp add: session_close_def external_apply set_state_apply fixture_links_def test_reader_close_def test_writer_close_def
        closed_net_def post_def on_endpoint_def seqP_def bindP_def)
qed

lemma closed_net_simps [simp]:
  "posted (scheduler (closed_net p e)) = posted (scheduler e) @ [Close_reader (peer p)]"
  "reader_closed (endpoint_of (closed_net p e) q) \<longleftrightarrow> q = p \<or> reader_closed (endpoint_of e q)"
  "writer_closed (endpoint_of (closed_net p e) q) \<longleftrightarrow> q = p \<or> writer_closed (endpoint_of e q)"
  by (simp_all add: closed_net_def post_def on_endpoint_def scheduler_schedule_def)

lemma close_reader_step:
  assumes "posted (scheduler (net fx)) = Close_reader p # ts" "\<not> reader_closed (endpoint_of (net fx) p)"
    "m_state (session_of fx p) \<noteq> disconnected"
  obtains fx' where "run_next io fx = (Inr (), fx')" "posted (scheduler (net fx')) = ts"
    "session_of fx' = (session_of fx)(p := (session_of fx p)\<lparr> m_state := disconnected \<rparr>)"
    "state_changes_of fx' = (state_changes_of fx)(p := disconnected # state_changes_of fx p)"
    "\<And>q. reader_closed (endpoint_of (net fx') q) \<longleftrightarrow> q = p \<or> reader_closed (endpoint_of (net fx) q)"
    "\<And>q. writer_closed (endpoint_of (net fx') q) = writer_closed (endpoint_of (net fx) q)"
proof -
  let ?fx = "fx\<lparr> net := (net fx)\<lparr> scheduler := (scheduler (net fx))\<lparr> posted := ts \<rparr> \<rparr> \<rparr>"
  let ?w = "\<lparr> sess = (session_of fx p)\<lparr> m_state := disconnected \<rparr>, outside = on_endpoint p (\<lambda>x. x\<lparr> reader_closed := True \<rparr>) (net ?fx),
    emitted = signals_of fx p @ [State_changed (m_state (session_of fx p)) disconnected] \<rparr>"
  have "external (test_reader_close p) \<lparr> sess = session_of ?fx p, outside = net ?fx, emitted = signals_of ?fx p \<rparr> = (Inr (), ?w)"
    using assms(2,3) by (simp add: external_apply set_state_apply test_reader_close_def)
  then have "with_party p (external (test_reader_close p)) ?fx = (Inr (), after_call p ?w ?fx)" by (rule with_party_returns)
  then have "run_next io fx = (Inr (), after_call p ?w ?fx)" using assms(1) by (simp add: run_next_def)
  then show thesis
    by (rule that) (simp_all add: after_call_def bq_push_def on_endpoint_def)
qed

text \<open>
  C8: a Logout ends the session on both sides. When a session sends a Logout that is next in the
  sequence of its peer, whatever state the two are in, then after the two tasks that follow nothing is
  left on the way, both sessions are disconnected, each has signalled that once, and both readers and
  the writer of the peer are closed. Nothing is sent in answer.
\<close>

theorem logout_disconnects_both:
  assumes "wire_safe dict clock (m_options (session_of fx p))" "ordinary dict Logout_MsgType es"
    and "mirrored (m_options (session_of fx p)) (m_options (session_of fx (peer p)))"
    and "m_state (session_of fx p) \<noteq> disconnected" "m_state (session_of fx (peer p)) \<noteq> disconnected"
    and "m_incoming_msg_seq_num (session_of fx (peer p)) = m_outgoing_msg_seq_num (session_of fx p)"
    and "unat (m_outgoing_msg_seq_num (session_of fx p)) < 2 ^ 31" "open_net (net fx)" "posted (scheduler (net fx)) = []"
  shows "\<exists>fx'. seqP (send_from (fixture_links dict orch clock) p Logout_MsgType es encode_standard [])
      (run_tasks (fixture_links dict orch clock) 2) fx = (Inr (), fx') \<and> posted (scheduler (net fx')) = [] \<and>
    (\<forall>q. m_state (session_of fx' q) = disconnected \<and> state_changes_of fx' q = disconnected # state_changes_of fx q \<and>
       reader_closed (endpoint_of (net fx') q) \<and> (writer_closed (endpoint_of (net fx') q) \<longleftrightarrow> q = peer p)) \<and>
    m_outgoing_msg_seq_num (session_of fx' (peer p)) = m_outgoing_msg_seq_num (session_of fx (peer p))"
proof -
  let ?io = "fixture_links dict orch clock" and ?q = "peer p" and ?n = "m_outgoing_msg_seq_num (session_of fx p)"
  show ?thesis
  proof (rule fixture_message_sent[OF assms(1,2,8), of orch], goal_cases)
    case (1 f0 d)
    note f0 = 1
    note m = fixture_message_ok[OF assms(1,2)]
    have b: "session_of f0 ?q = session_of fx ?q" using f0(2) by simp
    let ?w = "delivered ?q d [] f0"
    let ?v = "\<lambda>i. (received d ?w)\<lparr> sess := (session_of fx ?q)\<lparr> m_incoming_msg_seq_num := ?n + 1 \<rparr>,
        emitted := signals_of f0 ?q @ [Message_received d, Information i] \<rparr>"
    have acc: "accepted (sess ?w) d"
      by (rule carried_accepted[OF f0(3)]) (use assms(3) b carried_same(1)[OF f0(3)] m(4) in \<open>simp_all add: first_message_ok_def\<close>)
    have "sequenced d ?n" by (rule carried_sequenced[OF f0(3) m(4) _ m(5) assms(7)]) simp
    then have "on_message_read (?io ?q) d ?w = process_logout (?io ?q) d ((received d ?w)\<lparr> sess := (sess ?w)\<lparr> m_incoming_msg_seq_num := ?n + 1 \<rparr> \<rparr>)"
      using in_sequence_handled[OF acc, of Logout_MsgType "?io ?q"] carried_same(1)[OF f0(3)] m(4) b assms(6)
      by (simp add: handle_in_sequence_def)
    also obtain i where "\<dots> = session_close (?io ?q) (?v i)" using b by (simp add: process_logout_def emit_def)
    also have "\<dots> = (Inr (), (?v i)\<lparr> sess := (sess (?v i))\<lparr> m_state := disconnected \<rparr>, outside := closed_net ?q (outside (?v i)),
        emitted := emitted (?v i) @ [State_changed (m_state (session_of fx ?q)) disconnected] \<rparr>)" (is "_ = (_, ?w1)")
      using session_close_step[of "?v i" dict orch clock ?q] f0(5) assms(5) by simp
    finally have "on_message_read (?io ?q) d ?w = (Inr (), ?w1)" .
    then have r1: "run_next ?io f0 = (Inr (), after_call ?q ?w1 f0)"
      using f0(4,5) assms(9) by (intro run_next_deliver[where ts = "[]"]) simp_all
    let ?f1 = "after_call ?q ?w1 f0"
    have same0: "state_changes_of f0 = state_changes_of fx"
      using f0(7) by (auto simp: history_def fun_eq_iff split: if_splits)
    have f1: "posted (scheduler (net ?f1)) = [Close_reader p]" "\<not> reader_closed (endpoint_of (net ?f1) p)"
      "m_state (session_of ?f1 p) \<noteq> disconnected"
      using f0(2,5) assms(4) by (simp_all add: arrive_def on_endpoint_def open_net_def)
    show ?thesis
    proof (rule close_reader_step[OF f1, of ?io], goal_cases)
      case (1 f2)
      have "state_changes_of f2 ?q = disconnected # state_changes_of fx ?q" "state_changes_of f2 p = disconnected # state_changes_of fx p"
        using 1(4) same0 by (simp_all add: after_call_def bq_push_def)
      moreover have "(\<forall>q. P q) \<longleftrightarrow> P p \<and> P (peer p)" for P by (cases p) (auto simp: all_party)
      ultimately show ?thesis
        using 1 r1 f0(1,2,5) by (intro exI[of _ f2])
          (simp add: seqP_def bindP_def numeral_2_eq_2 arrive_def on_endpoint_def open_net_def)
    qed
  qed
qed

text \<open>Two sessions that are logged on, each at the number the other expects; the initiator sends the Logout.\<close>

definition logged_on_fixture :: session_fixture where
  "logged_on_fixture = gap_fixture\<lparr> session_of := (\<lambda>p. case p of
       Initiator \<Rightarrow> session_of gap_fixture Initiator
     | Acceptor \<Rightarrow> (session_of gap_fixture Acceptor)\<lparr> m_incoming_msg_seq_num := 12 \<rparr>) \<rparr>"

theorem logout_disconnects_both_witness:
  "\<exists>fx. seqP (send_from (fixture_links wide_dict plain_orchestration sample_clock) Initiator Logout_MsgType [] encode_standard [])
      (run_tasks (fixture_links wide_dict plain_orchestration sample_clock) 2) logged_on_fixture = (Inr (), fx) \<and>
    posted (scheduler (net fx)) = [] \<and> m_state (session_of fx Acceptor) = disconnected \<and>
    m_state (session_of fx Initiator) = disconnected \<and> m_outgoing_msg_seq_num (session_of fx Acceptor) = 4"
proof -
  have o: "ordinary wide_dict Logout_MsgType []" by (simp add: ordinary_def short_single)
  have i: "wire_safe wide_dict sample_clock (m_options (session_of logged_on_fixture Initiator))"
    "mirrored (m_options (session_of logged_on_fixture Initiator)) (m_options (session_of logged_on_fixture (peer Initiator)))"
    using sample_texts_short sample_time_short wide_dict_knows
    by (simp_all add: wire_safe_def logged_on_fixture_def gap_fixture_def mirrored_def sample_options_def
        initial_session_def default_session_options_def)
  have s: "m_state (session_of logged_on_fixture Initiator) \<noteq> disconnected"
    "m_state (session_of logged_on_fixture (peer Initiator)) \<noteq> disconnected"
    "m_incoming_msg_seq_num (session_of logged_on_fixture (peer Initiator)) = m_outgoing_msg_seq_num (session_of logged_on_fixture Initiator)"
    "unat (m_outgoing_msg_seq_num (session_of logged_on_fixture Initiator)) < 2 ^ 31"
    "open_net (net logged_on_fixture)" "posted (scheduler (net logged_on_fixture)) = []"
    by (simp_all add: logged_on_fixture_def gap_fixture_def new_fixture_def open_net_def make_scheduler_def)
  from logout_disconnects_both[OF i(1) o i(2) s, of plain_orchestration] show ?thesis
    by (simp add: all_party) (auto simp: logged_on_fixture_def gap_fixture_def)
qed

end
