(* ===== verification/Std_Stream.thy ===== *)
theory Std_Stream
  imports Croco_Prelude
begin

text \<open>
  Formatted output of the C++ standard library, as far as the printers use it: \<open>std::setw\<close> with a
  fill character pads a text on the left or on the right up to a width and never cuts it.
\<close>

datatype justification = Justify_left | Justify_right

fun setw :: "char \<Rightarrow> justification \<Rightarrow> nat \<Rightarrow> string \<Rightarrow> string" where
  "setw fill Justify_left w s = s @ replicate (w - length s) fill"
| "setw fill Justify_right w s = replicate (w - length s) fill @ s"

abbreviation newline :: string where
  "newline \<equiv> [CHR 0x0A]"

lemma length_setw [simp]: "length (setw fill j w s) = max w (length s)"
  by (cases j) auto

lemma setw_full: "w \<le> length s \<Longrightarrow> setw fill j w s = s"
  by (cases j) auto

text \<open>The loops that look for the widest entry.\<close>

lemma foldl_max_least: "foldl (\<lambda>n x. max n (f x)) n xs \<ge> n" "x \<in> set xs \<Longrightarrow> foldl (\<lambda>n x. max n (f x)) n xs \<ge> (f x :: nat)"
proof -
  show ge: "foldl (\<lambda>n x. max n (f x)) n xs \<ge> n" for n :: nat and xs
    by (induction xs arbitrary: n) (simp_all, meson max.cobounded1 order_trans)
  show "x \<in> set xs \<Longrightarrow> foldl (\<lambda>n x. max n (f x)) n xs \<ge> f x"
  proof (induction xs arbitrary: n)
    case (Cons y xs)
    then show ?case using ge[of "max n (f y)" xs] by auto
  qed simp
qed

text \<open>Texts side by side with a gap of two blanks, as the loop over the columns of a table prints them.\<close>

definition print_cells :: "string list \<Rightarrow> string" where
  "print_cells cs = concat (map (\<lambda>i. cs ! i @ (if i < length cs - 1 then ''  '' else '''')) [0..<length cs])"

definition cell_offset :: "nat \<Rightarrow> nat list \<Rightarrow> nat" where
  "cell_offset i ws = sum_list (take i ws) + 2 * i"

lemma print_cells_simps:
  "print_cells [] = ''''" "print_cells [c] = c" "print_cells (c # d # cs) = c @ ''  '' @ print_cells (d # cs)"
proof -
  have "map (\<lambda>i. (c # d # cs) ! i @ (if i < length (c # d # cs) - 1 then ''  '' else '''')) [0..<length (c # d # cs)] =
     (c @ ''  '') # map (\<lambda>i. (d # cs) ! i @ (if i < length (d # cs) - 1 then ''  '' else '''')) [0..<length (d # cs)]"
    by (simp add: upt_conv_Cons map_Suc_upt[symmetric] del: upt_Suc map_Suc_upt)
  then show "print_cells (c # d # cs) = c @ ''  '' @ print_cells (d # cs)"
    unfolding print_cells_def by (simp del: upt_Suc list.size)
qed (simp_all add: print_cells_def)

lemma length_print_cells: "length (print_cells cs) = sum_list (map length cs) + 2 * (length cs - 1)"
  by (induction cs rule: induct_list012) (simp_all add: print_cells_simps)

text \<open>Every text stands whole at the offset that the lengths of the texts before it give.\<close>

lemma print_cells_at:
  "i < length cs \<Longrightarrow> take (length (cs ! i)) (drop (cell_offset i (map length cs)) (print_cells cs)) = cs ! i"
proof (induction cs arbitrary: i rule: induct_list012)
  case (3 c d cs)
  then show ?case by (cases i) (auto simp: print_cells_simps cell_offset_def)
qed (auto simp: print_cells_simps cell_offset_def)

end
