(* ===== verification/Message_Printing.thy ===== *)
theory Message_Printing
  imports Message_Decoding Message_Encoding Std_Stream
begin

text \<open>
  \<open>message::pretty_print\<close> of \<open>libcrocofix/message.cpp\<close>: one line per field, with its name, its tag, its
  value and, for an enumerated value, the name of the value. \<open>dict\<close> and \<open>messages\<close> stand for
  \<open>FIX_5_0SP2::fields()\<close> and \<open>FIX_5_0SP2::messages()\<close>. The result is the text the stream receives, or
  the exception of \<open>MsgType()\<close>, which is thrown before anything is written.
\<close>

definition field_name :: "orchestration_field_collection \<Rightarrow> field \<Rightarrow> string" where
  "field_name dict f = name_of_field dict (word_of_int (m_tag f))"

definition widest_field_name :: "orchestration_field_collection \<Rightarrow> field_collection \<Rightarrow> nat" where
  "widest_field_name dict fs =
     foldl (\<lambda>widest f. if length (field_name dict f) > widest then length (field_name dict f) else widest) 0 fs"

definition widest_tag :: "field_collection \<Rightarrow> nat" where
  "widest_tag fs = foldl (\<lambda>widest f. max widest (unat (number_of_digits_int (m_tag f)))) 0 fs"

definition pretty_print_field :: "orchestration_field_collection \<Rightarrow> nat \<Rightarrow> nat \<Rightarrow> field \<Rightarrow> string" where
  "pretty_print_field dict name_width tag_width f =
     (let value_name = name_of_value dict (word_of_int (m_tag f)) (m_value f)
      in setw (CHR '' '') Justify_right name_width (field_name dict f) @
         setw (CHR '' '') Justify_right (tag_width + 4) ('' ('' @ int_to_string (m_tag f) @ '') '') @
         m_value f @ (if value_name = '''' then '''' else '' - '' @ value_name) @ newline)"

definition message_pretty_print ::
  "orchestration_field_collection \<Rightarrow> message_collection \<Rightarrow> message \<Rightarrow> exn + string" where
  "message_pretty_print dict messages m =
     (let name_width = widest_field_name dict (m_fields m); tag_width = widest_tag (m_fields m)
      in case message_MsgType m of
           Inl e \<Rightarrow> Inl e
         | Inr type \<Rightarrow>
             Inr (name_of_message messages type @ newline @ ''{'' @ newline @
                  concat (map (pretty_print_field dict name_width tag_width) (m_fields m)) @ ''}'' @ newline))"

lemma message_pretty_print_Inl: "message_pretty_print dict messages m = Inl e \<longleftrightarrow> message_MsgType m = Inl e"
  by (simp add: message_pretty_print_def Let_def split: sum.splits)

lemma message_pretty_print_Inr: "message_MsgType m = Inr type \<Longrightarrow> \<exists>out. message_pretty_print dict messages m = Inr out"
  by (simp add: message_pretty_print_def Let_def)

lemma widest_field_name_ge:
  assumes "f \<in> set fs"
  shows "length (field_name dict f) \<le> widest_field_name dict fs"
proof -
  have "(\<lambda>widest f. if length (field_name dict f) > widest then length (field_name dict f) else widest) =
    (\<lambda>widest f. max widest (length (field_name dict f)))" by (intro ext) auto
  then show "length (field_name dict f) \<le> widest_field_name dict fs"
    using foldl_max_least(2)[OF assms, of "\<lambda>f. length (field_name dict f)" 0] by (simp add: widest_field_name_def)
qed

lemma widest_tag_ge:
  assumes "f \<in> set fs" "tags_ok fs"
  shows "length (int_to_string (m_tag f)) \<le> widest_tag fs"
proof -
  from assms have "number_of_digits_int (m_tag f) = of_nat (length (int_to_string (m_tag f)))" "0 \<le> m_tag f" "m_tag f < 2 ^ 31"
    by (auto simp: tags_ok_def number_of_digits_int_text)
  moreover from this have "length (int_to_string (m_tag f)) < 2 ^ 32"
    using length_nat_to_string_le[of 10 "nat (m_tag f)"] by (simp add: int_to_string_def nat_less_iff)
  ultimately have "unat (number_of_digits_int (m_tag f)) = length (int_to_string (m_tag f))"
    by (simp add: unsigned_of_nat take_bit_nat_eq_self)
  with foldl_max_least(2)[OF assms(1), of "\<lambda>f. unat (number_of_digits_int (m_tag f))" 0] show ?thesis
    by (simp add: widest_tag_def)
qed

text \<open>
  The printed message is the name of the message type and, in braces, one line per field, in the
  order of the fields, each with the field's name, its tag in parentheses and its whole value; and
  the values of all fields begin in the same column, whatever the lengths of names and tags.
\<close>

theorem pretty_print_aligned:
  assumes "message_pretty_print dict messages m = Inr out" "tags_ok (m_fields m)"
  shows "\<exists>type left note column. message_MsgType m = Inr type \<and>
    out = name_of_message messages type @ newline @ ''{'' @ newline @
      concat (map (\<lambda>f. left f @ m_value f @ note f @ newline) (m_fields m)) @ ''}'' @ newline \<and>
    (\<forall>f \<in> set (m_fields m). length (left f) = column \<and>
       (\<exists>j k. left f = replicate j (CHR '' '') @ field_name dict f @ replicate k (CHR '' '') @
          '' ('' @ int_to_string (m_tag f) @ '') ''))"
proof -
  let ?n = "widest_field_name dict (m_fields m)" and ?t = "widest_tag (m_fields m)"
  let ?left = "\<lambda>f. setw (CHR '' '') Justify_right ?n (field_name dict f) @
      setw (CHR '' '') Justify_right (?t + 4) ('' ('' @ int_to_string (m_tag f) @ '') '')"
  let ?note = "\<lambda>f. let value_name = name_of_value dict (word_of_int (m_tag f)) (m_value f)
      in if value_name = '''' then '''' else '' - '' @ value_name"
  from assms(1) obtain type where type: "message_MsgType m = Inr type"
    by (auto simp: message_pretty_print_def Let_def split: sum.splits)
  have "pretty_print_field dict ?n ?t = (\<lambda>f. ?left f @ m_value f @ ?note f @ newline)"
    by (intro ext) (simp add: pretty_print_field_def Let_def)
  with assms(1) type have "out = name_of_message messages type @ newline @ ''{'' @ newline @
      concat (map (\<lambda>f. ?left f @ m_value f @ ?note f @ newline) (m_fields m)) @ ''}'' @ newline"
    by (simp only: message_pretty_print_def Let_def sum.case) simp
  moreover have "length (?left f) = ?n + (?t + 4)" if "f \<in> set (m_fields m)" for f
    using widest_field_name_ge[OF that] widest_tag_ge[OF that assms(2)] by simp
  ultimately show ?thesis using type
    by (intro exI[of _ type] exI[of _ ?left] exI[of _ ?note] exI[of _ "?n + (?t + 4)"]) auto
qed

definition sample_printed :: message where
  "sample_printed = empty_message\<lparr> m_fields := [field_string 8 ''F'', field_string 35 ''A''] \<rparr>"

theorem pretty_print_aligned_witness:
  "\<exists>left note column. message_pretty_print sample_dict (make_message_collection []) sample_printed =
      Inr (newline @ ''{'' @ newline @ left (field_string 8 ''F'') @ ''F'' @ note (field_string 8 ''F'') @ newline @
        left (field_string 35 ''A'') @ ''A'' @ note (field_string 35 ''A'') @ newline @ ''}'' @ newline) \<and>
      length (left (field_string 8 ''F'')) = column \<and> length (left (field_string 35 ''A'')) = (column :: nat)"
proof -
  have ok: "tags_ok (m_fields sample_printed)" by code_simp
  have fs: "m_fields sample_printed = [field_string 8 ''F'', field_string 35 ''A'']" "message_MsgType sample_printed = Inr ''A''"
    "name_of_message (make_message_collection []) t = ''''" for t
    by (simp_all add: sample_printed_def message_MsgType_def message_value_def name_of_message_def make_message_collection_def)
  obtain out where out: "message_pretty_print sample_dict (make_message_collection []) sample_printed = Inr out"
    using message_pretty_print_Inr[OF fs(2)] by blast
  from pretty_print_aligned[OF out ok] obtain left remark column where
    "out = newline @ ''{'' @ newline @ concat (map (\<lambda>f. left f @ m_value f @ remark f @ newline) (m_fields sample_printed)) @ ''}'' @ newline"
    "\<forall>f \<in> set (m_fields sample_printed). length (left f) = column"
    unfolding fs(3) by auto
  with out show ?thesis
    by (intro exI[of _ left] exI[of _ remark] exI[of _ column]) (simp add: fs(1))
qed

end
