(* ===== verification/Order_Exchange.thy ===== *)
theory Order_Exchange
  imports Gap_Recovery Message_Printing
begin

text \<open>
  \<open>examples/initiator/main.cpp\<close>, \<open>examples/acceptor/main.cpp\<close>: a program that sends a number of orders once its
  session is logged on and stops when all are acknowledged, and the program that acknowledges them. The
  functions the programs connect to the signals of their sessions run where the sessions emit those
  signals. The connection is the one of \<open>Session_Fixture\<close>, which carries messages as a pair of sockets does
  (\<open>written_messages_are_read\<close>); the two processes, and their timers, run in any order. Console output is
  left out, except that it may throw.
\<close>

section \<open>The acceptor\<close>

definition process_new_order_single :: "'e links \<Rightarrow> message \<Rightarrow> ('e, unit) action" where
  "process_new_order_single io m =
     send_standard io (make_message True [field_string MsgType_Tag ExecutionReport_MsgType])"

text \<open>The function connected to \<open>message_received\<close>.\<close>

definition acceptor_message_received ::
  "orchestration_field_collection \<Rightarrow> message_collection \<Rightarrow> 'e links \<Rightarrow> message \<Rightarrow> ('e, unit) action" where
  "acceptor_message_received dict messages io m =
     bindP (liftP (message_MsgType m)) (\<lambda>type.
     bindP (liftP (message_pretty_print dict messages m)) (\<lambda>_.
       whenP (type = NewOrderSingle_MsgType) (process_new_order_single io m)))"

text \<open>\<open>on_message_read\<close> of a session to whose \<open>message_received\<close> the function \<open>slot\<close> is connected.\<close>

definition on_message_read_with :: "(message \<Rightarrow> ('e, unit) action) \<Rightarrow> 'e links \<Rightarrow> message \<Rightarrow> ('e, unit) action" where
  "on_message_read_with slot io m =
     seqP (emit (Message_received m))
     (seqP (slot m)
     (guardP (validate_checksum io m) () (guardP (validate_body_length io m) ()
     (guardP (validate_begin_string io m) () (guardP (validate_comp_ids io m) ()
     (guardP (validate_first_message io m) () (dispatch_message io m)))))))"

text \<open>What \<open>main\<close> sets before it opens the session.\<close>

definition acceptor_configure :: "('e, unit) action" where
  "acceptor_configure =
     seqP (set_logon_behaviour acceptor) (seqP (set_begin_string_option ''FIXT.1.1'')
     (seqP (set_sender_comp_id ''ACCEPTOR'') (set_target_comp_id ''INITIATOR'')))"

section \<open>The initiator\<close>

fun send_orders :: "'e links \<Rightarrow> nat \<Rightarrow> ('e, unit) action" where
  "send_orders io 0 = returnP ()"
| "send_orders io (Suc n) =
     seqP (send_standard io (make_message True [field_string MsgType_Tag NewOrderSingle_MsgType])) (send_orders io n)"

definition generate_orders :: "'e links \<Rightarrow> u64 \<Rightarrow> ('e, unit) action" where
  "generate_orders io number_of_orders_to_send = send_orders io (unat number_of_orders_to_send)"

definition initiator_configure :: "('e, unit) action" where
  "initiator_configure =
     seqP (set_logon_behaviour initiator) (seqP (set_test_request_delay 2000) (seqP (set_begin_string_option ''FIXT.1.1'')
     (seqP (set_sender_comp_id ''INITIATOR'') (set_target_comp_id ''ACCEPTOR''))))"

lemma programs_mirror_each_other:
  assumes "sess w = initial_session" "sess v = initial_session"
  obtains w' v' where "initiator_configure w = (Inr (), w')" "acceptor_configure v = (Inr (), v')"
    "mirrored (m_options (sess w')) (m_options (sess v'))" "mirrored (m_options (sess v')) (m_options (sess w'))"
    "m_logon_behaviour (m_options (sess w')) = initiator" "m_logon_behaviour (m_options (sess v')) = acceptor"
  using assms
  by (auto simp: initiator_configure_def acceptor_configure_def set_logon_behaviour_def set_test_request_delay_def set_begin_string_option_def
      set_sender_comp_id_def set_target_comp_id_def ensure_options_are_mutable_def on_options_def on_session_def the_session_def mirrored_def
      seqP_def bindP_def initial_session_def)

text \<open>
  The two programs: their sessions and what is between them, the variable \<open>acks_received\<close> of the
  initiator, whether it has stopped its io_context, how many calls of \<open>generate_orders\<close> it has scheduled
  that have not run, and which program an exception has taken out of \<open>run\<close>.
\<close>

record order_exchange =
  sessions :: session_fixture
  acks_received :: u64
  io_stopped :: bool
  generate_posted :: nat
  left_run :: "party \<Rightarrow> bool"

text \<open>The functions the initiator connects to \<open>message_received\<close> and \<open>state_changed\<close>.\<close>

definition initiator_message_received :: "u64 \<Rightarrow> message \<Rightarrow> (order_exchange, unit) proc" where
  "initiator_message_received number_of_orders_to_send m =
     bindP (liftP (message_MsgType m)) (\<lambda>type.
       if type \<noteq> ExecutionReport_MsgType then returnP ()
       else seqP (modifyP (\<lambda>s. s\<lparr> acks_received := acks_received s + 1 \<rparr>))
           (bindP (getP acks_received) (\<lambda>acks.
              whenP (acks \<ge> number_of_orders_to_send) (modifyP (\<lambda>s. s\<lparr> io_stopped := True \<rparr>)))))"

fun initiator_state_changed :: "session_state \<Rightarrow> order_exchange \<Rightarrow> order_exchange" where
  "initiator_state_changed current s = (if current = logged_on then s\<lparr> generate_posted := generate_posted s + 1 \<rparr> else s)"

text \<open>A call on the sessions; the states the initiator's session signals meanwhile reach the function above.\<close>

definition on_sessions :: "(session_fixture, unit) proc \<Rightarrow> (order_exchange, unit) proc" where
  "on_sessions act s =
     (case act (sessions s) of
        (r, fx) \<Rightarrow> (r, fold initiator_state_changed
           (state_targets (drop (length (signals_of (sessions s) Initiator)) (signals_of fx Initiator))) (s\<lparr> sessions := fx \<rparr>)))"

section \<open>Running both\<close>

text \<open>What is on its way to a party, and taking the first of it.\<close>

fun inbox :: "party \<Rightarrow> task list \<Rightarrow> message list" where
  "inbox p [] = []"
| "inbox p (Deliver q m # ts) = (if q = p then [m] else []) @ inbox p ts"
| "inbox p (t # ts) = inbox p ts"

fun take_message :: "party \<Rightarrow> task list \<Rightarrow> (message \<times> task list) option" where
  "take_message p [] = None"
| "take_message p (t # ts) =
     (if \<exists>m. t = Deliver p m then (case t of Deliver q m \<Rightarrow> Some (m, ts) | _ \<Rightarrow> None)
      else map_option (\<lambda>(m, us). (m, t # us)) (take_message p ts))"

definition receive_message ::
  "orchestration_field_collection \<Rightarrow> message_collection \<Rightarrow> (party \<Rightarrow> network links) \<Rightarrow> u64 \<Rightarrow> party \<Rightarrow> message \<Rightarrow> (order_exchange, unit) proc" where
  "receive_message dict messages io number p m =
     (case p of
        Initiator \<Rightarrow> seqP (initiator_message_received number m) (on_sessions (with_party Initiator (on_message_read (io Initiator) m)))
      | Acceptor \<Rightarrow> on_sessions (with_party Acceptor
          (on_message_read_with (acceptor_message_received dict messages (io Acceptor)) (io Acceptor) m)))"

text \<open>
  A handler of a program that is still in \<open>run\<close>; an exception ends \<open>run\<close>, and \<open>main\<close> prints it and
  gives the connection up.
\<close>

definition running :: "party \<Rightarrow> order_exchange \<Rightarrow> bool" where
  "running p s \<longleftrightarrow> \<not> left_run s p \<and> \<not> (p = Initiator \<and> io_stopped s)"

definition run_handler :: "party \<Rightarrow> (order_exchange, unit) proc \<Rightarrow> order_exchange \<Rightarrow> order_exchange" where
  "run_handler p act s =
     (if \<not> running p s then s
      else case act s of (Inr _, s') \<Rightarrow> s' | (Inl _, s') \<Rightarrow> s'\<lparr> left_run := (left_run s')(p := True) \<rparr>)"

datatype exchange_event = Receive party | Generate | Heartbeat_due party

definition set_posted :: "task list \<Rightarrow> order_exchange \<Rightarrow> order_exchange" where
  "set_posted ts s = s\<lparr> sessions := (sessions s)\<lparr> net := (net (sessions s))\<lparr> scheduler := (scheduler (net (sessions s)))\<lparr> posted := ts \<rparr> \<rparr> \<rparr> \<rparr>"

fun exchange_step ::
  "orchestration_field_collection \<Rightarrow> message_collection \<Rightarrow> (party \<Rightarrow> network links) \<Rightarrow> u64 \<Rightarrow> exchange_event \<Rightarrow> order_exchange \<Rightarrow> order_exchange" where
  "exchange_step dict messages io number (Receive p) s =
     (case if reader_closed (endpoint_of (net (sessions s)) p) then None else take_message p (posted (scheduler (net (sessions s)))) of
        None \<Rightarrow> s
      | Some (m, ts) \<Rightarrow> run_handler p (\<lambda>s. receive_message dict messages io number p m (set_posted ts s)) s)"
| "exchange_step dict messages io number Generate s =
     (if generate_posted s = 0 then s
      else run_handler Initiator (\<lambda>s. on_sessions (with_party Initiator (generate_orders (io Initiator) number))
             (s\<lparr> generate_posted := generate_posted s - 1 \<rparr>)) s)"
| "exchange_step dict messages io number (Heartbeat_due p) s =
     run_handler p (on_sessions (with_party p (run_callback (io p) Defibrillate))) s"

abbreviation exchange_events ::
  "orchestration_field_collection \<Rightarrow> message_collection \<Rightarrow> (party \<Rightarrow> network links) \<Rightarrow> u64 \<Rightarrow> exchange_event list \<Rightarrow> order_exchange \<Rightarrow> order_exchange" where
  "exchange_events dict messages io number evs \<equiv> fold (exchange_step dict messages io number) evs"

section \<open>Messages of the exchange\<close>

definition typed_message :: "string \<Rightarrow> message" where
  "typed_message t = make_message True [field_string MsgType_Tag t]"

abbreviation exchanged :: "string set" where
  "exchanged \<equiv> {NewOrderSingle_MsgType, ExecutionReport_MsgType, Heartbeat_MsgType}"

lemma typed_message_reads [simp]: "message_MsgType (typed_message t) = Inr t" "message_PossDupFlag (typed_message t) = Inr False"
  by (simp_all add: typed_message_def make_message_def header_fields_def fc_set_all_fold fc_set_def message_MsgType_def message_PossDupFlag_def
      message_value_try_get fc_get_bool_try_get fc_try_get_def)

text \<open>Messages of the types \<open>ts\<close>, numbered from \<open>n\<close> on.\<close>

fun carried_seq :: "session_options \<Rightarrow> u32 \<Rightarrow> string list \<Rightarrow> message list \<Rightarrow> bool" where
  "carried_seq opt n [] ds \<longleftrightarrow> ds = []"
| "carried_seq opt n (t # ts) ds \<longleftrightarrow> (\<exists>d ds'. ds = d # ds' \<and> carries opt (typed_message t) n d \<and> carried_seq opt (n + 1) ts ds')"

lemma carried_seq_append:
  "carried_seq opt n ts ds \<Longrightarrow> carried_seq opt (n + of_nat (length ts)) ts' ds' \<Longrightarrow> carried_seq opt n (ts @ ts') (ds @ ds')"
  by (induction ts arbitrary: n ds) (auto simp: algebra_simps)

lemma on_message_read_without_slot: "on_message_read_with (\<lambda>_. returnP ()) io m = on_message_read io m"
  by (simp add: on_message_read_with_def on_message_read_dispatch fun_eq_iff seqP_def bindP_def)

lemma inbox_append [simp]: "inbox p (xs @ ys) = inbox p xs @ inbox p ys"
  by (induction p xs rule: inbox.induct) simp_all

lemma inbox_deliver [simp]: "inbox p (map (Deliver q) ds) = (if p = q then ds else [])"
  by (induction ds) simp_all

lemma take_message_None: "inbox p ts = [] \<Longrightarrow> take_message p ts = None"
  by (induction p ts rule: take_message.induct) (auto split: if_splits elim: inbox.elims)

lemma take_message_Some:
  assumes "inbox p ts = m # ms"
  obtains us where "take_message p ts = Some (m, us)" "inbox p us = ms" "inbox (peer p) us = inbox (peer p) ts"
  using assms
proof (induction ts arbitrary: thesis)
  case (Cons t ts)
  show ?case
  proof (cases "\<exists>x. t = Deliver p x")
    case True
    with Cons.prems show ?thesis by (intro Cons.prems(1)[of ts]) auto
  next
    case False
    with Cons.prems(2) have "inbox p ts = m # ms" by (cases t) auto
    from Cons.IH[OF _ this] obtain us where
      us: "take_message p ts = Some (m, us)" "inbox p us = ms" "inbox (peer p) us = inbox (peer p) ts" by blast
    show ?thesis by (rule Cons.prems(1)[of "t # us"]) (use us False in \<open>cases t; auto\<close>)+
  qed
qed simp

section \<open>What a call does\<close>

text \<open>A party takes in \<open>i\<close> messages and sends messages of the types \<open>ts\<close>; its session stays as it is otherwise.\<close>

definition moved :: "party \<Rightarrow> u32 \<Rightarrow> string list \<Rightarrow> network world \<Rightarrow> network world \<Rightarrow> bool" where
  "moved p i ts w w' \<longleftrightarrow>
     sess w' = (sess w)\<lparr> m_incoming_msg_seq_num := m_incoming_msg_seq_num (sess w) + i,
       m_outgoing_msg_seq_num := m_outgoing_msg_seq_num (sess w) + of_nat (length ts) \<rparr> \<and>
     (\<exists>ds. carried_seq (m_options (sess w)) (m_outgoing_msg_seq_num (sess w)) ts ds \<and>
        posted (scheduler (outside w')) = posted (scheduler (outside w)) @ map (Deliver (peer p)) ds) \<and>
     (open_net (outside w) \<longrightarrow> open_net (outside w')) \<and>
     (\<exists>sigs. emitted w' = emitted w @ sigs \<and> state_targets sigs = [])"

lemma moved_trans: "moved p i ts w w1 \<Longrightarrow> moved p j us w1 w2 \<Longrightarrow> moved p (i + j) (ts @ us) w w2"
  unfolding moved_def
  by (auto simp: algebra_simps state_targets_append intro!: exI[of _ "_ @ _"] carried_seq_append)

lemma moved_refl: "moved p 0 [] w w"
  by (auto simp: moved_def)

lemma moved_emit: "state_targets [sig] = [] \<Longrightarrow> moved p 0 [] w (w\<lparr> emitted := emitted w @ [sig] \<rparr>)"
  by (auto simp: moved_def)

lemma send_typed:
  assumes "wire_safe dict clock (m_options (sess w))" "open_net (outside w)" "t \<in> exchanged"
  obtains w' where "send_standard (fixture_links dict orch clock p) (typed_message t) w = (Inr (), w')" "moved p 0 [t] w w'"
proof -
  have o: "\<not> writer_closed (endpoint_of (outside w) p)" using assms(2) by (simp add: open_net_def)
  have "short_field dict (field_string MsgType_Tag t)"
    using assms(3) by (intro header_field_short[OF assms(1)]) (auto simp: header_tags_def short_text_def)
  then have f: "all_short dict [field_string MsgType_Tag t]" "length [field_string MsgType_Tag t] \<le> 7"
    "CheckSum_Tag \<notin> set (tags [field_string MsgType_Tag t])" by simp_all
  have ty: "t \<noteq> Logon_MsgType" using assms(3) by auto
  show thesis
  proof (rule send_built[OF assms(1) o f typed_message_reads(1)[unfolded typed_message_def] ty, of orch], goal_cases)
    case (1 m' d)
    show thesis
      by (rule that[of "after_send p m' d w"]) (use 1 in \<open>auto simp: typed_message_def moved_def\<close>)
  qed
qed

lemma send_orders_moves:
  assumes "wire_safe dict clock (m_options (sess w))" "open_net (outside w)"
  shows "\<exists>w'. send_orders (fixture_links dict orch clock p) n w = (Inr (), w') \<and> moved p 0 (replicate n NewOrderSingle_MsgType) w w'"
  using assms
proof (induction n arbitrary: w)
  case 0
  then show ?case using moved_refl by auto
next
  case (Suc n)
  obtain v where v: "send_standard (fixture_links dict orch clock p) (typed_message NewOrderSingle_MsgType) w = (Inr (), v)"
    "moved p 0 [NewOrderSingle_MsgType] w v"
    using send_typed[OF Suc.prems, of NewOrderSingle_MsgType orch p] by auto
  have "wire_safe dict clock (m_options (sess v))" "open_net (outside v)"
    using v(2) Suc.prems by (simp_all add: moved_def)
  from Suc.IH[OF this] obtain w' where
    "send_orders (fixture_links dict orch clock p) n v = (Inr (), w')" "moved p 0 (replicate n NewOrderSingle_MsgType) v w'" by blast
  with v moved_trans[OF v(2), of 0 "replicate n NewOrderSingle_MsgType" w'] show ?case
    by (simp add: typed_message_def[symmetric] seqP_def bindP_def)
qed

lemma checks_passed:
  assumes "accepted (sess v) m"
  shows "guardP (validate_checksum io m) () (guardP (validate_body_length io m) () (guardP (validate_begin_string io m) ()
      (guardP (validate_comp_ids io m) () (guardP (validate_first_message io m) () (dispatch_message io m))))) v = dispatch_message io m v"
proof -
  have "validate_checksum io m v = (Inr True, v)" "validate_body_length io m v = (Inr True, v)"
    "validate_begin_string io m v = (Inr True, v)" "validate_comp_ids io m v = (Inr True, v)"
    "validate_first_message io m v = (Inr True, v)"
    using assms unfolding accepted_def header_ok_def validate_checksum_True validate_body_length_True
      validate_begin_string_True validate_comp_ids_True validate_first_message_True by simp_all
  then show ?thesis by simp
qed

lemma dispatch_in_sequence:
  assumes "sequenced m (m_incoming_msg_seq_num (sess v))" "message_MsgType m = Inr type"
  shows "dispatch_message io m v = handle_in_sequence io m type
    (v\<lparr> sess := (sess v)\<lparr> m_incoming_msg_seq_num := m_incoming_msg_seq_num (sess v) + 1 \<rparr> \<rparr>)"
proof -
  have "validate_sequence_numbers io m v = (Inr True, v)"
    using assms(1) by (simp add: validate_sequence_numbers_True sequenced_def)
  then show ?thesis
    using assms by (auto simp: dispatch_message_def sequenced_def handle_in_sequence_def guardP_def bindP_def
      set_incoming_msg_seq_num_def on_session_def seqP_def)
qed

text \<open>A session that is logged on to a peer it knows.\<close>

definition logged_on_to :: "orchestration_field_collection \<Rightarrow> (nat \<Rightarrow> utc_time) \<Rightarrow> session_options \<Rightarrow> session \<Rightarrow> bool" where
  "logged_on_to dict clock opt s \<longleftrightarrow> wire_safe dict clock (m_options s) \<and> mirrored opt (m_options s) \<and> m_state s = logged_on \<and>
     (m_logon_behaviour (m_options s) = initiator \<or> m_logon_received s)"

lemma logged_on_to_numbers [simp]:
  "logged_on_to dict clock opt (s\<lparr> m_incoming_msg_seq_num := i, m_outgoing_msg_seq_num := j \<rparr>) \<longleftrightarrow> logged_on_to dict clock opt s"
  by (simp add: logged_on_to_def)

lemma read_moves:
  assumes s: "logged_on_to dict clock opt (sess w)" "m_incoming_msg_seq_num (sess w) = n" "unat n < 2 ^ 31"
    and d: "carries opt (typed_message t) n d" "t \<in> exchanged"
    and slot: "slot d (received d w) = (Inr (), v)" "moved p 0 ts (received d w) v"
  obtains w' where "on_message_read_with slot io d w = (Inr (), w')" "moved p 1 ts w w'"
proof -
  let ?w' = "v\<lparr> sess := (sess v)\<lparr> m_incoming_msg_seq_num := m_incoming_msg_seq_num (sess v) + 1 \<rparr> \<rparr>"
  have v: "m_incoming_msg_seq_num (sess v) = n" "logged_on_to dict clock opt (sess v)" using slot(2) s(1,2) by (auto simp: moved_def logged_on_to_def)
  have acc: "accepted (sess v) d"
    by (rule carried_accepted[OF d(1)]) (use v(2) in \<open>auto simp: logged_on_to_def first_message_ok_def\<close>)
  have ty: "message_MsgType d = Inr t" using carried_same(1)[OF d(1)] by simp
  have "sequenced d n" by (rule carried_sequenced[OF d(1) typed_message_reads(1) _ typed_message_reads(2) s(3)]) (use d(2) in auto)
  then have "dispatch_message io d v = handle_in_sequence io d t ?w'" using dispatch_in_sequence[of d v t io] ty v(1) by simp
  also have "\<dots> = (Inr (), ?w')"
    using d(2) v(2) by (auto simp: handle_in_sequence_def process_heartbeat_def the_session_def bindP_def logged_on_to_def Let_def)
  finally have "on_message_read_with slot io d w = (Inr (), ?w')"
    using slot(1) checks_passed[OF acc, of io] by (simp add: on_message_read_with_def emit_def)
  moreover have "moved p 1 ts w ?w'"
    using slot(2) by (auto simp: moved_def)
  ultimately show thesis by (rule that)
qed

text \<open>What a message makes the acceptor send.\<close>

fun acknowledgements :: "party \<Rightarrow> string \<Rightarrow> string list" where
  "acknowledgements Initiator t = []"
| "acknowledgements Acceptor t = (if t = NewOrderSingle_MsgType then [ExecutionReport_MsgType] else [])"

lemma initiator_reads:
  assumes "logged_on_to dict clock opt (sess w)" "m_incoming_msg_seq_num (sess w) = n" "unat n < 2 ^ 31"
    and "carries opt (typed_message t) n d" "t \<in> exchanged"
  obtains w' where "on_message_read io d w = (Inr (), w')" "moved p 1 [] w w'"
proof -
  have "(\<lambda>_. returnP ()) d (received d w) = (Inr (), received d w)" by simp
  from read_moves[where slot = "\<lambda>_. returnP ()" and io = io, OF assms this moved_refl, of p] that show thesis by (auto simp: on_message_read_without_slot)
qed

lemma acceptor_reads:
  assumes s: "logged_on_to dict clock opt (sess w)" "m_incoming_msg_seq_num (sess w) = n" "unat n < 2 ^ 31"
    and d: "carries opt (typed_message t) n d" "t \<in> exchanged" and o: "open_net (outside w)"
  obtains w' where
    "on_message_read_with (acceptor_message_received dict' messages (fixture_links dict orch clock Acceptor)) (fixture_links dict orch clock Acceptor) d w = (Inr (), w')"
    "moved Acceptor 1 (acknowledgements Acceptor t) w w'"
proof -
  let ?io = "fixture_links dict orch clock Acceptor"
  have ty: "message_MsgType d = Inr t" using carried_same(1)[OF d(1)] by simp
  obtain out where out: "message_pretty_print dict' messages d = Inr out" using message_pretty_print_Inr[OF ty] by blast
  have "\<exists>v. acceptor_message_received dict' messages ?io d (received d w) = (Inr (), v) \<and> moved Acceptor 0 (acknowledgements Acceptor t) (received d w) v"
  proof (cases "t = NewOrderSingle_MsgType")
    case True
    have "wire_safe dict clock (m_options (sess (received d w)))" "open_net (outside (received d w))"
      using s(1) o by (simp_all add: logged_on_to_def)
    from send_typed[OF this, of ExecutionReport_MsgType orch Acceptor] show ?thesis
      using ty out True by (auto simp: acceptor_message_received_def process_new_order_single_def typed_message_def)
  next
    case False
    then show ?thesis using ty out moved_refl by (auto simp: acceptor_message_received_def)
  qed
  then obtain v where v: "acceptor_message_received dict' messages ?io d (received d w) = (Inr (), v)"
    "moved Acceptor 0 (acknowledgements Acceptor t) (received d w) v" by blast
  from read_moves[where slot = "acceptor_message_received dict' messages ?io" and io = ?io, OF s d v] that show thesis by blast
qed

lemma heartbeat_moves:
  assumes "logged_on_to dict clock opt (sess w)" "open_net (outside w)"
  obtains w' where "run_callback (fixture_links dict orch clock p) Defibrillate w = (Inr (), w')" "moved p 0 [Heartbeat_MsgType] w w'"
proof -
  have "wire_safe dict clock (m_options (sess w))" using assms(1) by (simp add: logged_on_to_def)
  from send_typed[OF this assms(2), of Heartbeat_MsgType orch p] that assms(1) show thesis
    by (auto simp: defibrillate_def the_session_def bindP_def logged_on_to_def typed_message_def)
qed

section \<open>The sessions and what is between them\<close>

lemma carried_seq_drop:
  "carried_seq opt n ts ds \<Longrightarrow> i \<le> length ts \<Longrightarrow> carried_seq opt (n + of_nat i) (drop i ts) (drop i ds)"
proof (induction i arbitrary: n ts ds)
  case (Suc i)
  then obtain t ts' d ds' where "ts = t # ts'" "ds = d # ds'" "carried_seq opt (n + 1) ts' ds'" by (cases ts) auto
  with Suc.IH[of "n + 1" ts' ds'] Suc.prems(2) show ?case by (simp add: algebra_simps)
qed simp

lemma carried_seq_length: "carried_seq opt n ts ds \<Longrightarrow> length ds = length ts"
  by (induction ts arbitrary: n ds) auto

text \<open>Messages of the types \<open>tys p\<close> are on their way to \<open>p\<close>, in sequence.\<close>

definition linked :: "orchestration_field_collection \<Rightarrow> (nat \<Rightarrow> utc_time) \<Rightarrow> (party \<Rightarrow> string list) \<Rightarrow> session_fixture \<Rightarrow> bool" where
  "linked dict clock tys fx \<longleftrightarrow> open_net (net fx) \<and> (\<forall>p.
     logged_on_to dict clock (m_options (session_of fx (peer p))) (session_of fx p) \<and> set (tys p) \<subseteq> exchanged \<and>
     carried_seq (m_options (session_of fx (peer p))) (m_incoming_msg_seq_num (session_of fx p)) (tys p) (inbox p (posted (scheduler (net fx)))) \<and>
     unat (m_outgoing_msg_seq_num (session_of fx (peer p))) = unat (m_incoming_msg_seq_num (session_of fx p)) + length (tys p))"

abbreviation world_of :: "party \<Rightarrow> task list \<Rightarrow> session_fixture \<Rightarrow> network world" where
  "world_of p ts fx \<equiv> \<lparr> sess = session_of fx p, outside = (net fx)\<lparr> scheduler := (scheduler (net fx))\<lparr> posted := ts \<rparr> \<rparr>, emitted = signals_of fx p \<rparr>"

lemma unat_plus_small: "unat (a :: u32) + k < 2 ^ 32 \<Longrightarrow> unat (a + of_nat k) = unat a + k"
  by (simp add: unat_word_ariths unat_of_nat)

lemma linked_call:
  assumes "linked dict clock tys fx" "moved p (of_nat i) us (world_of p ts fx) w'"
    and "inbox p ts = drop i (inbox p (posted (scheduler (net fx))))" "inbox (peer p) ts = inbox (peer p) (posted (scheduler (net fx)))"
    and "i \<le> length (tys p)" "set us \<subseteq> exchanged" "unat (m_outgoing_msg_seq_num (session_of fx p)) + length us < 2 ^ 32"
  shows "linked dict clock (tys(p := drop i (tys p), peer p := tys (peer p) @ us)) (after_call p w' fx)"
proof -
  let ?s = "session_of fx p" and ?q = "peer p" and ?t = "session_of fx (peer p)"
  have l: "logged_on_to dict clock (m_options ?t) ?s" "logged_on_to dict clock (m_options ?s) ?t"
    "set (tys p) \<subseteq> exchanged" "set (tys ?q) \<subseteq> exchanged"
    "carried_seq (m_options ?t) (m_incoming_msg_seq_num ?s) (tys p) (inbox p (posted (scheduler (net fx))))"
    "carried_seq (m_options ?s) (m_incoming_msg_seq_num ?t) (tys ?q) (inbox ?q (posted (scheduler (net fx))))"
    "unat (m_outgoing_msg_seq_num ?t) = unat (m_incoming_msg_seq_num ?s) + length (tys p)"
    "unat (m_outgoing_msg_seq_num ?s) = unat (m_incoming_msg_seq_num ?t) + length (tys ?q)" "open_net (net fx)"
    using assms(1) by (simp_all add: linked_def) (metis peer_peer(1))+
  obtain ds where m: "sess w' = ?s\<lparr> m_incoming_msg_seq_num := m_incoming_msg_seq_num ?s + of_nat i,
      m_outgoing_msg_seq_num := m_outgoing_msg_seq_num ?s + of_nat (length us) \<rparr>"
    "carried_seq (m_options ?s) (m_outgoing_msg_seq_num ?s) us ds"
    "posted (scheduler (outside w')) = ts @ map (Deliver ?q) ds" "open_net (outside w')"
    using assms(2) l(9) by (auto simp: moved_def open_net_def)
  have lt: "unat (m_outgoing_msg_seq_num ?t) < 2 ^ 32" using unsigned_less[of "m_outgoing_msg_seq_num ?t", where 'a = nat] by simp
  have i: "unat (m_incoming_msg_seq_num ?s + of_nat i) = unat (m_incoming_msg_seq_num ?s) + i"
    by (rule unat_plus_small) (use l(7) assms(5) lt in simp)
  have o: "unat (m_outgoing_msg_seq_num ?s + of_nat (length us)) = unat (m_outgoing_msg_seq_num ?s) + length us"
    by (rule unat_plus_small[OF assms(7)])
  have "m_outgoing_msg_seq_num ?s = m_incoming_msg_seq_num ?t + of_nat (length (tys ?q))"
    using l(8) by (metis of_nat_add of_nat_unat ucast_id)
  then have c: "carried_seq (m_options ?s) (m_incoming_msg_seq_num ?t) (tys ?q @ us) (inbox ?q ts @ ds)"
    using carried_seq_append[OF l(6)] m(2) assms(4) by simp
  have "set (drop i (tys p)) \<subseteq> exchanged" using l(3) set_drop_subset[of i "tys p"] by blast
  moreover have "(\<forall>q. P q) \<longleftrightarrow> P p \<and> P ?q" for P by (cases p) (auto simp: all_party)
  ultimately show ?thesis
    using l m c i o assms(3,5,6) carried_seq_drop[OF l(5) assms(5)] by (simp add: linked_def)
qed

lemma on_sessions_moved:
  assumes "act (world_of p (posted (scheduler (net (sessions s)))) (sessions s)) = (Inr (), w')"
    and "moved p i us (world_of p (posted (scheduler (net (sessions s)))) (sessions s)) w'"
  shows "on_sessions (with_party p act) s = (Inr (), s\<lparr> sessions := after_call p w' (sessions s) \<rparr>)"
proof -
  have w: "world_of p (posted (scheduler (net (sessions s)))) (sessions s) =
      \<lparr> sess = session_of (sessions s) p, outside = net (sessions s), emitted = signals_of (sessions s) p \<rparr>" by simp
  obtain sigs where "emitted w' = signals_of (sessions s) p @ sigs" "state_targets sigs = []"
    using assms(2) by (auto simp: moved_def)
  then have "state_targets (drop (length (signals_of (sessions s) Initiator)) (signals_of (after_call p w' (sessions s)) Initiator)) = []"
    by (simp add: after_call_def)
  then show ?thesis
    using with_party_returns[where act = act, OF assms(1)[unfolded w]] by (simp add: on_sessions_def)
qed

section \<open>A view of the exchange\<close>

text \<open>
  What matters of the exchange: the types of the messages on their way to each party, the
  acknowledgements received and the calls of \<open>generate_orders\<close> still to run.
\<close>

record exchange_view =
  under_way :: "party \<Rightarrow> string list"
  acks :: nat
  due :: nat

fun view_step :: "nat \<Rightarrow> exchange_event \<Rightarrow> exchange_view \<Rightarrow> exchange_view" where
  "view_step N (Receive p) v =
     (case under_way v p of
        [] \<Rightarrow> v
      | t # ts \<Rightarrow>
          (if p = Initiator \<and> acks v \<ge> N then v
           else v\<lparr> under_way := (under_way v)(p := ts, peer p := under_way v (peer p) @ acknowledgements p t),
                   acks := acks v + (if p = Initiator \<and> t = ExecutionReport_MsgType then 1 else 0) \<rparr>))"
| "view_step N Generate v =
     (if due v = 0 \<or> acks v \<ge> N then v
      else v\<lparr> under_way := (under_way v)(Acceptor := under_way v Acceptor @ replicate N NewOrderSingle_MsgType), due := due v - 1 \<rparr>)"
| "view_step N (Heartbeat_due p) v =
     (if p = Initiator \<and> acks v \<ge> N then v
      else v\<lparr> under_way := (under_way v)(peer p := under_way v (peer p) @ [Heartbeat_MsgType]) \<rparr>)"

text \<open>Every order is still to be sent, on its way, or acknowledged; a report on its way is an acknowledgement to come.\<close>

definition view_ok :: "nat \<Rightarrow> exchange_view \<Rightarrow> bool" where
  "view_ok N v \<longleftrightarrow> acks v + count_list (under_way v Initiator) ExecutionReport_MsgType +
     count_list (under_way v Acceptor) NewOrderSingle_MsgType + due v * N = N"

lemma count_list_replicate: "count_list (replicate n x) y = (if x = y then n else 0)"
  by (induction n) auto

lemma view_ok_step: "view_ok N v \<Longrightarrow> view_ok N (view_step N ev v)"
proof (cases ev)
  case (Receive p)
  assume "view_ok N v"
  then show ?thesis using Receive by (cases p) (auto simp: view_ok_def split: list.splits)
next
  case Generate
  assume "view_ok N v"
  then show ?thesis using Generate by (cases "due v") (auto simp: view_ok_def count_list_replicate)
next
  case (Heartbeat_due p)
  assume "view_ok N v"
  then show ?thesis using Heartbeat_due by (cases p) (auto simp: view_ok_def)
qed

text \<open>\<open>k\<close> events are still to come, and no number grows beyond what \<open>stoi\<close> reads.\<close>

definition viewed ::
  "orchestration_field_collection \<Rightarrow> (nat \<Rightarrow> utc_time) \<Rightarrow> u64 \<Rightarrow> nat \<Rightarrow> exchange_view \<Rightarrow> order_exchange \<Rightarrow> bool" where
  "viewed dict clock number k v s \<longleftrightarrow> linked dict clock (under_way v) (sessions s) \<and> (\<forall>p. \<not> left_run s p) \<and>
     unat (acks_received s) = acks v \<and> generate_posted s = due v \<and> (io_stopped s \<longleftrightarrow> acks v \<ge> unat number) \<and>
     unat (m_outgoing_msg_seq_num (session_of (sessions s) Initiator)) + due v * unat number + k < 2 ^ 31 \<and>
     unat (m_outgoing_msg_seq_num (session_of (sessions s) Acceptor)) + k < 2 ^ 31"

text \<open>A call of party \<open>p\<close> that takes in \<open>i\<close> messages and sends messages of the types \<open>us\<close>.\<close>

lemma viewed_call:
  assumes v: "viewed dict clock number k v s" "moved p (of_nat i) us (world_of p ts (sessions s)) w'"
    and ts: "inbox p ts = drop i (inbox p (posted (scheduler (net (sessions s)))))"
      "inbox (peer p) ts = inbox (peer p) (posted (scheduler (net (sessions s))))"
    and i: "i \<le> length (under_way v p)" and us: "set us \<subseteq> exchanged"
    and s': "sessions s' = after_call p w' (sessions s)" "left_run s' = left_run s"
      "unat (acks_received s') = a" "generate_posted s' = g" "io_stopped s' \<longleftrightarrow> a \<ge> unat number"
    and k: "length us + k' \<le> k + (if p = Initiator then (due v - g) * unat number else 0)" "g \<le> due v" "k' \<le> k"
  shows "viewed dict clock number k' (v\<lparr> under_way := (under_way v)(p := drop i (under_way v p), peer p := under_way v (peer p) @ us),
    acks := a, due := g \<rparr>) s'"
proof -
  let ?s = "session_of (sessions s) p" and ?N = "unat number"
  have l: "linked dict clock (under_way v) (sessions s)" using v(1) by (simp add: viewed_def)
  have d: "(due v - g) * ?N + g * ?N = due v * ?N" using k(2) by (simp add: add_mult_distrib[symmetric])
  have bi: "unat (m_outgoing_msg_seq_num (session_of (sessions s) Initiator)) + due v * ?N + k < 2 ^ 31"
    and ba: "unat (m_outgoing_msg_seq_num (session_of (sessions s) Acceptor)) + k < 2 ^ 31" using v(1) by (simp_all add: viewed_def)
  have b: "unat (m_outgoing_msg_seq_num ?s) + length us < 2 ^ 31" using bi ba d k by (cases p) auto
  have o: "unat (m_outgoing_msg_seq_num (session_of (after_call p w' (sessions s)) q)) =
      unat (m_outgoing_msg_seq_num (session_of (sessions s) q)) + (if q = p then length us else 0)" for q
    using unat_plus_small[of "m_outgoing_msg_seq_num ?s" "length us"] v(2) b by (simp add: moved_def)
  have gd: "g * ?N \<le> due v * ?N" using k(2) by simp
  have "linked dict clock ((under_way v)(p := drop i (under_way v p), peer p := under_way v (peer p) @ us)) (after_call p w' (sessions s))"
    by (rule linked_call[OF l v(2) ts i us]) (use b in simp)
  then show ?thesis
    using v(1) s' o[of Initiator] o[of Acceptor] bi ba d k gd by (cases p) (simp_all add: viewed_def)
qed

lemma viewed_facts:
  assumes "viewed dict clock number k v s"
  shows "unat (acks_received s) = acks v" "acks v \<ge> unat number \<Longrightarrow> io_stopped s" "\<not> left_run s p"
  using assms by (simp_all add: viewed_def)

lemma viewed_Suc: "viewed dict clock number (Suc k) v s \<Longrightarrow> viewed dict clock number k v s"
  by (auto simp: viewed_def)

lemma viewed_running: "viewed dict clock number k v s \<Longrightarrow> running p s \<longleftrightarrow> \<not> (p = Initiator \<and> acks v \<ge> unat number)"
  by (auto simp: viewed_def running_def)

text \<open>The session of a party as a handler finds it.\<close>

lemma viewed_session:
  assumes "viewed dict clock number k v s"
  shows "logged_on_to dict clock (m_options (session_of (sessions s) (peer p))) (session_of (sessions s) p)" "open_net (net (sessions s))"
    "unat (m_incoming_msg_seq_num (session_of (sessions s) p)) < 2 ^ 31" "set (under_way v p) \<subseteq> exchanged"
    "carried_seq (m_options (session_of (sessions s) (peer p))) (m_incoming_msg_seq_num (session_of (sessions s) p)) (under_way v p)
       (inbox p (posted (scheduler (net (sessions s)))))"
proof -
  have l: "linked dict clock (under_way v) (sessions s)" and q: "unat (m_outgoing_msg_seq_num (session_of (sessions s) q)) < 2 ^ 31" for q
    using assms by (simp add: viewed_def, cases q) (simp_all add: viewed_def)
  have "unat (m_outgoing_msg_seq_num (session_of (sessions s) (peer p))) =
      unat (m_incoming_msg_seq_num (session_of (sessions s) p)) + length (under_way v p)"
    using l unfolding linked_def by blast
  with q[of "peer p"] show "unat (m_incoming_msg_seq_num (session_of (sessions s) p)) < 2 ^ 31" by simp
qed (use assms in \<open>simp_all add: viewed_def linked_def\<close>)

lemma viewed_generate:
  assumes v: "viewed dict clock number (Suc k) v s" and io: "io = fixture_links dict orch clock"
  shows "viewed dict clock number k (view_step (unat number) Generate v) (exchange_step dict' messages io number Generate s)"
proof (cases "due v = 0 \<or> acks v \<ge> unat number")
  case True
  have "exchange_step dict' messages io number Generate s = s"
    using True viewed_running[OF v, of Initiator] v by (auto simp: run_handler_def viewed_def)
  with True viewed_Suc[OF v] show ?thesis by simp
next
  case False
  let ?s1 = "s\<lparr> generate_posted := generate_posted s - 1 \<rparr>" and ?ts = "posted (scheduler (net (sessions s)))"
  let ?w = "world_of Initiator ?ts (sessions s)"
  have g: "generate_posted s = due v" using v by (simp add: viewed_def)
  have "wire_safe dict clock (m_options (sess ?w))" "open_net (outside ?w)"
    using viewed_session(1)[OF v, of Initiator] viewed_session(2)[OF v] by (simp_all add: logged_on_to_def)
  from send_orders_moves[OF this, of orch Initiator "unat number"] obtain w' where
    w': "generate_orders (io Initiator) number ?w = (Inr (), w')" "moved Initiator 0 (replicate (unat number) NewOrderSingle_MsgType) ?w w'"
    by (auto simp: generate_orders_def io)
  have r: "exchange_step dict' messages io number Generate s = ?s1\<lparr> sessions := after_call Initiator w' (sessions s) \<rparr>"
    using False g viewed_running[OF v, of Initiator]
      on_sessions_moved[where act = "generate_orders (io Initiator) number" and s = ?s1 and p = Initiator and w' = w'] w'
    by (simp add: run_handler_def)
  have d: "due v - (due v - 1) = 1" using False by simp
  have e: "view_step (unat number) Generate v = v\<lparr> under_way := (under_way v)(Initiator := drop 0 (under_way v Initiator),
      peer Initiator := under_way v (peer Initiator) @ replicate (unat number) NewOrderSingle_MsgType), acks := acks v, due := due v - 1 \<rparr>"
    using False by simp
  show ?thesis
    unfolding r e
    by (rule viewed_call[OF v, of _ 0]) (use w'(2) v False g d in \<open>auto simp: viewed_def\<close>)
qed

lemma viewed_heartbeat:
  assumes v: "viewed dict clock number (Suc k) v s" and io: "io = fixture_links dict orch clock"
  shows "viewed dict clock number k (view_step (unat number) (Heartbeat_due p) v) (exchange_step dict' messages io number (Heartbeat_due p) s)"
proof (cases "p = Initiator \<and> acks v \<ge> unat number")
  case True
  have "exchange_step dict' messages io number (Heartbeat_due p) s = s"
    using True viewed_running[OF v, of p] by (simp add: run_handler_def)
  with True viewed_Suc[OF v] show ?thesis by simp
next
  case False
  let ?w = "world_of p (posted (scheduler (net (sessions s)))) (sessions s)"
  have "logged_on_to dict clock (m_options (session_of (sessions s) (peer p))) (sess ?w)" "open_net (outside ?w)"
    using viewed_session(1)[OF v, of p] viewed_session(2)[OF v] by simp_all
  then obtain w' where w': "run_callback (io p) Defibrillate ?w = (Inr (), w')" "moved p 0 [Heartbeat_MsgType] ?w w'"
    unfolding io by (rule heartbeat_moves[where p = p and orch = orch])
  have r: "exchange_step dict' messages io number (Heartbeat_due p) s = s\<lparr> sessions := after_call p w' (sessions s) \<rparr>"
    using False viewed_running[OF v, of p] on_sessions_moved[where act = "run_callback (io p) Defibrillate", OF w']
    by (simp add: run_handler_def)
  have e: "view_step (unat number) (Heartbeat_due p) v = v\<lparr> under_way := (under_way v)(p := drop 0 (under_way v p),
      peer p := under_way v (peer p) @ [Heartbeat_MsgType]), acks := acks v, due := due v \<rparr>"
    using False by (cases p) auto
  show ?thesis
    unfolding r e by (rule viewed_call[OF v, of p 0]) (use w'(2) v in \<open>auto simp: viewed_def\<close>)
qed

lemma initiator_counts:
  assumes "message_MsgType m = Inr t" "unat (acks_received s) < 2 ^ 64 - 1"
  obtains a b where "initiator_message_received number m s = (Inr (), s\<lparr> acks_received := a, io_stopped := b \<rparr>)"
    "unat a = unat (acks_received s) + (if t = ExecutionReport_MsgType then 1 else 0)"
    "b \<longleftrightarrow> io_stopped s \<or> t = ExecutionReport_MsgType \<and> a \<ge> number"
proof (cases "t = ExecutionReport_MsgType")
  case True
  have "unat (acks_received s + 1) = unat (acks_received s) + 1" using assms(2) by (simp add: unat_word_ariths)
  with True assms(1) show thesis
    by (intro that[where a = "acks_received s + 1" and b = "io_stopped s \<or> acks_received s + 1 \<ge> number"])
       (auto simp: initiator_message_received_def seqP_def bindP_def whenP_def)
next
  case False
  with assms(1) show thesis
    by (intro that[where a = "acks_received s" and b = "io_stopped s"]) (auto simp: initiator_message_received_def bindP_def)
qed

lemma set_posted_sessions [simp]:
  "session_of (sessions (set_posted ts s)) = session_of (sessions s)" "signals_of (sessions (set_posted ts s)) = signals_of (sessions s)"
  "net (sessions (set_posted ts s)) = (net (sessions s))\<lparr> scheduler := (scheduler (net (sessions s)))\<lparr> posted := ts \<rparr> \<rparr>"
  "after_call p w (sessions (set_posted ts s)) = after_call p w (sessions s)"
  "left_run (set_posted ts s) = left_run s" "acks_received (set_posted ts s) = acks_received s"
  "io_stopped (set_posted ts s) = io_stopped s" "generate_posted (set_posted ts s) = generate_posted s"
  by (simp_all add: set_posted_def after_call_def)

lemma viewed_receive:
  assumes v: "viewed dict clock number (Suc k) v s" "view_ok (unat number) v" and io: "io = fixture_links dict orch clock"
  shows "viewed dict clock number k (view_step (unat number) (Receive p) v) (exchange_step dict' messages io number (Receive p) s)"
proof -
  let ?fx = "sessions s"
  have o: "open_net (net ?fx)" by (rule viewed_session(2)[OF v(1)])
  then have nc: "\<not> reader_closed (endpoint_of (net ?fx) p)" by (simp add: open_net_def)
  consider (none) "under_way v p = []" | (stopped) "p = Initiator" "acks v \<ge> unat number"
    | (read) t ts where "under_way v p = t # ts" "\<not> (p = Initiator \<and> acks v \<ge> unat number)"
    by (cases "under_way v p") auto
  then show ?thesis
  proof cases
    case none
    then have "exchange_step dict' messages io number (Receive p) s = s"
      using viewed_session(5)[OF v(1), of p] nc by (simp add: take_message_None)
    with none viewed_Suc[OF v(1)] show ?thesis by simp
  next
    case stopped
    then have "exchange_step dict' messages io number (Receive p) s = s"
      using viewed_running[OF v(1), of p] nc by (simp add: run_handler_def split: option.split)
    with stopped viewed_Suc[OF v(1)] show ?thesis by (simp split: list.split)
  next
    case read
    note s = viewed_session(1)[OF v(1), of p]
    obtain d ds where d: "inbox p (posted (scheduler (net ?fx))) = d # ds"
      "carries (m_options (session_of ?fx (peer p))) (typed_message t) (m_incoming_msg_seq_num (session_of ?fx p)) d" "t \<in> exchanged"
      using viewed_session(4,5)[OF v(1), of p] read(1) by auto
    obtain us where us: "take_message p (posted (scheduler (net ?fx))) = Some (d, us)" "inbox p us = ds"
      "inbox (peer p) us = inbox (peer p) (posted (scheduler (net ?fx)))"
      using take_message_Some[OF d(1)] by blast
    let ?w = "world_of p us ?fx" and ?s1 = "set_posted us s"
    have ty: "message_MsgType d = Inr t" using carried_same(1)[OF d(2)] by simp
    have step: "exchange_step dict' messages io number (Receive p) s =
        (case receive_message dict' messages io number p d ?s1 of (Inr _, s') \<Rightarrow> s' | (Inl _, s') \<Rightarrow> s'\<lparr> left_run := (left_run s')(p := True) \<rparr>)"
      using us(1) nc read(2) viewed_running[OF v(1), of p] by (simp add: run_handler_def)
    let ?a = "acks v + (if p = Initiator \<and> t = ExecutionReport_MsgType then 1 else 0)"
    have "\<exists>w' s'. exchange_step dict' messages io number (Receive p) s = s' \<and> moved p (of_nat 1) (acknowledgements p t) ?w w' \<and>
        sessions s' = after_call p w' ?fx \<and> left_run s' = left_run s \<and> unat (acks_received s') = ?a \<and>
        generate_posted s' = generate_posted s \<and> (io_stopped s' \<longleftrightarrow> ?a \<ge> unat number)"
    proof (cases p)
      case Initiator
      have "acks v < unat number" using read(2) Initiator by simp
      then have "unat (acks_received s) < 2 ^ 64 - 1"
        using unsigned_less[of number, where 'a = nat] v(1) by (simp add: viewed_def)
      then obtain a b where ab: "initiator_message_received number d ?s1 = (Inr (), ?s1\<lparr> acks_received := a, io_stopped := b \<rparr>)"
        "unat a = unat (acks_received s) + (if t = ExecutionReport_MsgType then 1 else 0)"
        "b \<longleftrightarrow> io_stopped s \<or> t = ExecutionReport_MsgType \<and> a \<ge> number"
        using initiator_counts[OF ty, of ?s1 number] by (simp only: set_posted_sessions) blast
      let ?s2 = "?s1\<lparr> acks_received := a, io_stopped := b \<rparr>"
      obtain w' where w': "on_message_read (io Initiator) d ?w = (Inr (), w')" "moved Initiator 1 [] ?w w'"
        using initiator_reads[of dict clock _ ?w _ t d "io Initiator" Initiator] s viewed_session(3)[OF v(1), of p] d(2,3) by auto
      have "on_sessions (with_party Initiator (on_message_read (io Initiator) d)) ?s2 = (Inr (), ?s2\<lparr> sessions := after_call Initiator w' ?fx \<rparr>)"
        using on_sessions_moved[where act = "on_message_read (io Initiator) d" and s = ?s2 and p = Initiator and w' = w' and us = "[]" and i = 1]
          w' Initiator by simp
      then have "exchange_step dict' messages io number (Receive p) s = ?s2\<lparr> sessions := after_call Initiator w' ?fx \<rparr>"
        unfolding step using ab(1) Initiator by (simp add: receive_message_def seqP_def bindP_def)
      then show ?thesis
        using w'(2) ab(2,3) Initiator read(2) v(1) by (auto simp: viewed_def word_le_nat_alt)
    next
      case Acceptor
      let ?act = "on_message_read_with (acceptor_message_received dict' messages (io Acceptor)) (io Acceptor) d"
      have "open_net (outside ?w)" using o by (simp add: open_net_def)
      then obtain w' where w': "?act ?w = (Inr (), w')" "moved Acceptor 1 (acknowledgements Acceptor t) ?w w'"
        using acceptor_reads[of dict clock _ ?w _ t d dict' messages orch] s viewed_session(3)[OF v(1), of p] d(2,3) io by auto
      have "on_sessions (with_party Acceptor ?act) ?s1 = (Inr (), ?s1\<lparr> sessions := after_call Acceptor w' ?fx \<rparr>)"
        using on_sessions_moved[where act = ?act and s = ?s1 and p = Acceptor and w' = w' and us = "acknowledgements Acceptor t" and i = 1]
          w' Acceptor by simp
      then have "exchange_step dict' messages io number (Receive p) s = ?s1\<lparr> sessions := after_call Acceptor w' ?fx \<rparr>"
        unfolding step using Acceptor by (simp add: receive_message_def)
      then show ?thesis
        using w'(2) Acceptor v(1) by (auto simp: viewed_def)
    qed
    then obtain w' s' where r: "exchange_step dict' messages io number (Receive p) s = s'" "moved p (of_nat 1) (acknowledgements p t) ?w w'"
      "sessions s' = after_call p w' ?fx" "left_run s' = left_run s" "unat (acks_received s') = ?a"
      "generate_posted s' = due v" "io_stopped s' \<longleftrightarrow> ?a \<ge> unat number"
      using v(1) unfolding viewed_def by metis
    have e: "view_step (unat number) (Receive p) v = v\<lparr> under_way := (under_way v)(p := drop 1 (under_way v p),
        peer p := under_way v (peer p) @ acknowledgements p t), acks := ?a, due := due v \<rparr>"
      using read by (cases p) auto
    have "set (acknowledgements p t) \<subseteq> exchanged" "length (acknowledgements p t) \<le> 1" by (cases p; auto)+
    then show ?thesis
      unfolding r(1) e using us(2,3) d(1) read(1) r(2-7)
      by (intro viewed_call[OF v(1) r(2)]) auto
  qed
qed

lemma viewed_step:
  assumes "viewed dict clock number (Suc k) v s" "view_ok (unat number) v" "io = fixture_links dict orch clock"
  shows "viewed dict clock number k (view_step (unat number) ev v) (exchange_step dict' messages io number ev s)"
proof (cases ev)
  case (Receive p)
  show ?thesis unfolding Receive by (rule viewed_receive[OF assms])
next
  case Generate
  show ?thesis unfolding Generate by (rule viewed_generate[OF assms(1,3)])
next
  case (Heartbeat_due p)
  show ?thesis unfolding Heartbeat_due by (rule viewed_heartbeat[OF assms(1,3)])
qed

lemma viewed_events:
  assumes "viewed dict clock number (length evs + k) v s" "view_ok (unat number) v" "io = fixture_links dict orch clock"
  shows "viewed dict clock number k (fold (view_step (unat number)) evs v) (exchange_events dict' messages io number evs s) \<and>
    view_ok (unat number) (fold (view_step (unat number)) evs v)"
  using assms
proof (induction evs arbitrary: v s)
  case (Cons ev evs)
  have "viewed dict clock number (Suc (length evs + k)) v s" using Cons.prems(1) by simp
  from Cons.IH[OF viewed_step[OF this Cons.prems(2,3)] view_ok_step[OF Cons.prems(2)] Cons.prems(3)] show ?case
    by (simp only: fold_simps comp_apply)
qed simp

section \<open>The orders are acknowledged\<close>

text \<open>
  The two programs once their sessions have logged on: nothing is on its way, each session expects
  the number the other uses next, and the initiator has scheduled \<open>generate_orders\<close>.
\<close>

definition ready_to_trade :: "orchestration_field_collection \<Rightarrow> (nat \<Rightarrow> utc_time) \<Rightarrow> order_exchange \<Rightarrow> bool" where
  "ready_to_trade dict clock s \<longleftrightarrow> posted (scheduler (net (sessions s))) = [] \<and> open_net (net (sessions s)) \<and>
     acks_received s = 0 \<and> \<not> io_stopped s \<and> generate_posted s = 1 \<and> (\<forall>p. \<not> left_run s p) \<and>
     (\<forall>p. logged_on_to dict clock (m_options (session_of (sessions s) (peer p))) (session_of (sessions s) p) \<and>
        m_outgoing_msg_seq_num (session_of (sessions s) (peer p)) = m_incoming_msg_seq_num (session_of (sessions s) p))"

definition fresh_view :: exchange_view where
  "fresh_view = \<lparr> under_way = (\<lambda>_. []), acks = 0, due = 1 \<rparr>"

lemma ready_viewed:
  assumes "ready_to_trade dict clock s" "0 < number"
    and "unat (m_outgoing_msg_seq_num (session_of (sessions s) Initiator)) + unat number + k < 2 ^ 31"
    and "unat (m_outgoing_msg_seq_num (session_of (sessions s) Acceptor)) + k < 2 ^ 31"
  shows "viewed dict clock number k fresh_view s" "view_ok (unat number) fresh_view"
  using assms by (simp_all add: ready_to_trade_def viewed_def linked_def fresh_view_def view_ok_def word_less_nat_alt)


lemma inbox_types: "carried_seq opt n ts ds \<Longrightarrow> map message_MsgType ds = map Inr ts"
  by (induction ts arbitrary: n ds) (auto dest: carried_same(1))

text \<open>How much is left to do: twice for an order that is still to be answered, once for any other message.\<close>

definition work_left :: "u64 \<Rightarrow> order_exchange \<Rightarrow> nat" where
  "work_left number s = generate_posted s * (2 * unat number + 1) + length (inbox Initiator (posted (scheduler (net (sessions s))))) +
     (\<Sum>m \<leftarrow> inbox Acceptor (posted (scheduler (net (sessions s)))). if message_MsgType m = Inr NewOrderSingle_MsgType then 2 else 1)"

definition view_work :: "nat \<Rightarrow> exchange_view \<Rightarrow> nat" where
  "view_work N v = due v * (2 * N + 1) + length (under_way v Initiator) + length (under_way v Acceptor) +
     count_list (under_way v Acceptor) NewOrderSingle_MsgType"

lemma work_left_viewed:
  assumes "viewed dict clock number k v s"
  shows "work_left number s = view_work (unat number) v"
proof -
  let ?box = "\<lambda>p. inbox p (posted (scheduler (net (sessions s))))"
  have "(\<Sum>m \<leftarrow> ds. if message_MsgType m = Inr NewOrderSingle_MsgType then 2 else 1 :: nat) = length ts + count_list ts NewOrderSingle_MsgType"
    if "map message_MsgType ds = map Inr ts" for ds ts
    using that by (induction ts arbitrary: ds) auto
  from this[OF inbox_types[OF viewed_session(5)[OF assms]]] show ?thesis
    using carried_seq_length[OF viewed_session(5)[OF assms, of Initiator]] assms
    by (simp add: work_left_def view_work_def viewed_def)
qed

lemma view_work_step: "view_work N (view_step N ev v) \<le> view_work N v + (case ev of Heartbeat_due _ \<Rightarrow> 1 | _ \<Rightarrow> 0)"
proof (cases ev)
  case (Receive p)
  then show ?thesis by (cases p) (auto simp: view_work_def split: list.splits)
next
  case Generate
  then show ?thesis by (cases "due v") (auto simp: view_work_def count_list_replicate)
next
  case (Heartbeat_due p)
  then show ?thesis by (cases p) (auto simp: view_work_def)
qed

lemma view_progress:
  assumes "view_ok N v" "acks v < N"
  obtains ev where "view_work N (view_step N ev v) < view_work N v"
proof (cases "due v = 0")
  case False
  then show thesis using assms(2) by (intro that[of Generate], cases "due v") (auto simp: view_work_def count_list_replicate)
next
  case True
  with assms have "under_way v Initiator \<noteq> [] \<or> under_way v Acceptor \<noteq> []" by (auto simp: view_ok_def)
  then show thesis
  proof
    assume "under_way v Initiator \<noteq> []"
    then show thesis using assms(2) by (intro that[of "Receive Initiator"]) (auto simp: view_work_def neq_Nil_conv)
  next
    assume "under_way v Acceptor \<noteq> []"
    then show thesis by (intro that[of "Receive Acceptor"]) (auto simp: view_work_def neq_Nil_conv)
  qed
qed

lemma exchange_outcome:
  assumes "ready_to_trade dict clock s" "0 < number"
    and "unat (m_outgoing_msg_seq_num (session_of (sessions s) Initiator)) + unat number + Suc (length evs) < 2 ^ 31"
    and "unat (m_outgoing_msg_seq_num (session_of (sessions s) Acceptor)) + Suc (length evs) < 2 ^ 31"
    and "io = fixture_links dict orch clock" "s' = exchange_events dict' messages io number evs s"
  shows "(\<forall>p. \<not> left_run s' p \<and> m_state (session_of (sessions s') p) = logged_on)"
    and "acks_received s' \<le> number" "io_stopped s' \<longleftrightarrow> acks_received s' = number"
    and "generate_posted s' = 0 \<and> (\<forall>p. inbox p (posted (scheduler (net (sessions s')))) = []) \<Longrightarrow> io_stopped s'"
    and "io_stopped s' \<or> (\<exists>ev. work_left number (exchange_step dict' messages io number ev s') < work_left number s')"
    and "work_left number (exchange_step dict' messages io number ev s') \<le> work_left number s' + (case ev of Heartbeat_due _ \<Rightarrow> 1 | _ \<Rightarrow> 0)"
proof -
  let ?v = "fold (view_step (unat number)) evs fresh_view" and ?N = "unat number"
  have v0: "viewed dict clock number (length evs + 1) fresh_view s" "view_ok ?N fresh_view"
    using ready_viewed[OF assms(1,2), of "length evs + 1"] assms(3,4) by simp_all
  then have v: "viewed dict clock number (Suc 0) ?v s'" "view_ok ?N ?v"
    using viewed_events[OF v0 assms(5)] assms(6) by simp_all
  have step: "work_left number (exchange_step dict' messages io number ev s') = view_work ?N (view_step ?N ev ?v)" for ev
    by (rule work_left_viewed[OF viewed_step[OF v assms(5)]])
  have le: "acks ?v \<le> ?N" and a: "unat (acks_received s') = acks ?v" and st: "io_stopped s' \<longleftrightarrow> acks ?v \<ge> ?N"
    using v by (simp_all add: view_ok_def viewed_def)
  show "\<forall>p. \<not> left_run s' p \<and> m_state (session_of (sessions s') p) = logged_on"
    using v(1) viewed_session(1)[OF v(1)] by (simp add: viewed_def logged_on_to_def)
  show "acks_received s' \<le> number" using le a by (simp add: word_le_nat_alt)
  show "io_stopped s' \<longleftrightarrow> acks_received s' = number" using le a st by (simp add: word_unat_eq_iff) linarith
  show "io_stopped s'" if "generate_posted s' = 0 \<and> (\<forall>p. inbox p (posted (scheduler (net (sessions s')))) = [])"
  proof -
    have "under_way ?v p = []" for p using carried_seq_length[OF viewed_session(5)[OF v(1), of p]] that by simp
    then show ?thesis using that v st by (simp add: view_ok_def viewed_def)
  qed
  show "io_stopped s' \<or> (\<exists>ev. work_left number (exchange_step dict' messages io number ev s') < work_left number s')"
    using view_progress[OF v(2)] st unfolding step work_left_viewed[OF v(1)] by (metis linorder_not_le)
  show "work_left number (exchange_step dict' messages io number ev s') \<le> work_left number s' + (case ev of Heartbeat_due _ \<Rightarrow> 1 | _ \<Rightarrow> 0)"
    unfolding step work_left_viewed[OF v(1)] by (rule view_work_step)
qed


section \<open>Two orders\<close>

definition trading_pair :: order_exchange where
  "trading_pair = \<lparr> sessions = gap_fixture\<lparr> session_of := (\<lambda>p. case p of
       Initiator \<Rightarrow> session_of gap_fixture Initiator
     | Acceptor \<Rightarrow> (session_of gap_fixture Acceptor)\<lparr> m_incoming_msg_seq_num := 12 \<rparr>) \<rparr>,
     acks_received = 0, io_stopped = False, generate_posted = 1, left_run = (\<lambda>_. False) \<rparr>"

lemma trading_pair_ready: "ready_to_trade wide_dict sample_clock trading_pair"
  using sample_texts_short sample_time_short wide_dict_knows
  by (simp add: ready_to_trade_def trading_pair_def all_party)
     (simp add: gap_fixture_def new_fixture_def make_scheduler_def open_net_def logged_on_to_def wire_safe_def mirrored_def sample_options_def
        initial_session_def default_session_options_def)

lemma trading_pair_numbers [simp]: "m_outgoing_msg_seq_num (session_of (sessions trading_pair) Initiator) = 12"
  "m_outgoing_msg_seq_num (session_of (sessions trading_pair) Acceptor) = 4"
  by (simp_all add: trading_pair_def gap_fixture_def)

lemma unat_numeral_two: "unat (2 :: u64) = 2" "2 \<le> (2 :: nat)"
  by simp_all

abbreviation seven_events :: "exchange_event list" where
  "seven_events \<equiv> [Generate, Receive Acceptor, Heartbeat_due Acceptor, Receive Initiator, Receive Acceptor, Receive Initiator, Receive Initiator]"



end
