(* ===== verification/Report.thy ===== *)
theory Report
  imports Std_Stream
begin

text \<open>
  \<open>libcrocofixutility/report.cppm\<close>, \<open>report.cpp\<close>: a table of texts with column headers of one or more
  lines, and its printer. \<open>boost::split\<close>, which cuts a header into its lines, is the argument
  \<open>split\<close>. The text a stream receives is a string; widths and sizes stay below \<open>2\<^sup>3\<^sup>1\<close>, where the
  casts to \<open>int\<close> are exact.
\<close>

section \<open>Data\<close>

record column =
  m_raw_name :: string
  m_name :: "string list"
  m_justification :: justification

record report =
  m_columns :: "column list"
  m_rows :: "string list list"

definition make_column :: "(string \<Rightarrow> string list) \<Rightarrow> string \<Rightarrow> justification \<Rightarrow> column" where
  "make_column split name j = \<lparr> m_raw_name = name, m_name = split name, m_justification = j \<rparr>"

definition make_report :: "column list \<Rightarrow> report" where
  "make_report cols = \<lparr> m_columns = cols, m_rows = [] \<rparr>"

section \<open>Printing\<close>

text \<open>The width of a column: the longest line of its header or cell of a row that reaches it.\<close>

definition column_width :: "string list list \<Rightarrow> nat \<Rightarrow> column \<Rightarrow> nat" where
  "column_width rows index col =
     foldl (\<lambda>size row. if index < length row then max size (length (row ! index)) else size)
       (foldl (\<lambda>size part. max size (length part)) 0 (m_name col)) rows"

definition column_widths :: "report \<Rightarrow> nat list" where
  "column_widths r = map (\<lambda>index. column_width (m_rows r) index (m_columns r ! index)) [0..<length (m_columns r)]"

definition column_header_rows :: "report \<Rightarrow> nat" where
  "column_header_rows r = foldl (\<lambda>n col. max n (length (m_name col))) 0 (m_columns r)"

definition total_width :: "nat list \<Rightarrow> nat" where
  "total_width ws = (if ws = [] then 0 else sum_list ws + (length ws - 1) * 2)"

definition separator_line :: "nat \<Rightarrow> string" where
  "separator_line w = setw (CHR ''-'') Justify_right w ''-''"

text \<open>Headers with fewer lines than the tallest stand at the bottom, under a blank.\<close>

definition header_value :: "nat \<Rightarrow> nat \<Rightarrow> column \<Rightarrow> string" where
  "header_value rows index col =
     (let name = m_name col
      in if length name = rows then name ! index
         else if length name \<ge> rows - index then name ! (index - (rows - length name))
         else '' '')"

definition cell_value :: "string list \<Rightarrow> nat \<Rightarrow> string" where
  "cell_value row index = (if index < length row then row ! index else '''')"

definition print_row :: "report \<Rightarrow> (nat \<Rightarrow> column \<Rightarrow> string) \<Rightarrow> string" where
  "print_row r val =
     print_cells (map (\<lambda>index. let col = m_columns r ! index
                               in setw (CHR '' '') (m_justification col) (column_widths r ! index) (val index col))
                      [0..<length (m_columns r)])"

definition report_lines :: "report \<Rightarrow> string list" where
  "report_lines r =
     (let separator = separator_line (total_width (column_widths r)); header_rows = column_header_rows r
      in [separator] @
         map (\<lambda>header_index. print_row r (\<lambda>_. header_value header_rows header_index)) [0..<header_rows] @
         [separator] @
         map (\<lambda>row. print_row r (\<lambda>index _. cell_value row index)) (m_rows r) @
         [separator])"

definition print_report :: "report \<Rightarrow> string" where
  "print_report r = concat (map (\<lambda>line. line @ newline) (report_lines r))"

section \<open>Widths\<close>

lemma column_width_conv:
  "column_width rows index col =
     foldl (\<lambda>size row. max size (length (cell_value row index))) (foldl (\<lambda>size part. max size (length part)) 0 (m_name col)) rows"
proof -
  have "(\<lambda>size row. if index < length row then max size (length (row ! index)) else size) =
    (\<lambda>size row. max size (length (cell_value row index)))"
    by (intro ext) (simp add: cell_value_def)
  then show ?thesis by (simp only: column_width_def)
qed

lemma column_width_cell: "row \<in> set rows \<Longrightarrow> length (cell_value row index) \<le> column_width rows index col"
  unfolding column_width_conv by (rule foldl_max_least(2))

lemma column_width_name: "part \<in> set (m_name col) \<Longrightarrow> length part \<le> column_width rows index col"
  unfolding column_width_conv
  using foldl_max_least(2)[of part "m_name col" length 0]
    foldl_max_least(1)[of _ "\<lambda>row. length (cell_value row index)" rows]
  by (meson order_trans)

lemma column_header_rows_ge: "col \<in> set (m_columns r) \<Longrightarrow> length (m_name col) \<le> column_header_rows r"
  unfolding column_header_rows_def by (rule foldl_max_least(2))

lemma length_column_widths [simp]: "length (column_widths r) = length (m_columns r)"
  by (simp add: column_widths_def)

lemma column_widths_nth: "i < length (m_columns r) \<Longrightarrow> column_widths r ! i = column_width (m_rows r) i (m_columns r ! i)"
  by (simp add: column_widths_def)

text \<open>Values that fit their columns fill them exactly.\<close>

definition fits :: "report \<Rightarrow> (nat \<Rightarrow> column \<Rightarrow> string) \<Rightarrow> bool" where
  "fits r val \<longleftrightarrow> (\<forall>i < length (m_columns r). length (val i (m_columns r ! i)) \<le> column_widths r ! i)"

lemma print_row_widths:
  assumes "fits r val"
  shows "map length (map (\<lambda>i. let col = m_columns r ! i
     in setw (CHR '' '') (m_justification col) (column_widths r ! i) (val i col)) [0..<length (m_columns r)]) = column_widths r"
  using assms by (intro nth_equalityI) (auto simp: fits_def Let_def max_def)

lemma length_print_row:
  assumes "fits r val"
  shows "length (print_row r val) = total_width (column_widths r)"
  unfolding print_row_def length_print_cells print_row_widths[OF assms]
  by (auto simp: total_width_def dest: arg_cong[of _ _ length])

lemma print_row_at:
  assumes "fits r val" "i < length (m_columns r)"
  shows "take (column_widths r ! i) (drop (cell_offset i (column_widths r)) (print_row r val)) =
    setw (CHR '' '') (m_justification (m_columns r ! i)) (column_widths r ! i) (val i (m_columns r ! i))"
  using print_cells_at[of i "map (\<lambda>i. let col = m_columns r ! i
      in setw (CHR '' '') (m_justification col) (column_widths r ! i) (val i col)) [0..<length (m_columns r)]"]
    assms unfolding print_row_def print_row_widths[OF assms(1)]
  by (simp add: fits_def Let_def max_absorb1)

lemma fits_cells: "row \<in> set (m_rows r) \<Longrightarrow> fits r (\<lambda>index _. cell_value row index)"
  by (simp add: fits_def column_widths_nth column_width_cell)

lemma header_value_cases:
  assumes "header_index < column_header_rows r" "col \<in> set (m_columns r)"
  shows "header_value (column_header_rows r) header_index col \<in> insert '' '' (set (m_name col))"
proof -
  from column_header_rows_ge[OF assms(2)] assms(1) show ?thesis by (auto simp: header_value_def Let_def)
qed

lemma fits_header:
  assumes "header_index < column_header_rows r" "\<forall>w \<in> set (column_widths r). 0 < w"
  shows "fits r (\<lambda>_. header_value (column_header_rows r) header_index)"
  unfolding fits_def
proof (intro allI impI)
  fix i assume i: "i < length (m_columns r)"
  with assms(2) have "0 < column_widths r ! i" by simp
  with header_value_cases[OF assms(1) nth_mem[OF i]] column_width_name[of _ "m_columns r ! i" "m_rows r" i]
  show "length (header_value (column_header_rows r) header_index (m_columns r ! i)) \<le> column_widths r ! i"
    by (auto simp: column_widths_nth[OF i])
qed

lemma row_cell:
  assumes "n < length (m_rows r)" "i < length (m_columns r)"
  shows "take (column_widths r ! i) (drop (cell_offset i (column_widths r))
       (report_lines r ! (2 + column_header_rows r + n))) =
     setw (CHR '' '') (m_justification (m_columns r ! i)) (column_widths r ! i) (cell_value (m_rows r ! n) i)"
proof -
  have "report_lines r ! (2 + column_header_rows r + n) = print_row r (\<lambda>index _. cell_value (m_rows r ! n) index)"
    using assms(1) by (simp add: report_lines_def Let_def nth_append)
  with print_row_at[OF fits_cells[OF nth_mem[OF assms(1)]] assms(2)] show ?thesis by simp
qed

section \<open>Properties\<close>

text \<open>
  C37: a printed table is a rectangle. Where no column is empty, every line of the text, separators,
  headers and rows alike, has exactly the total width, whatever the number of header lines and
  however many cells a row has; there is one line for each header line and each row, and three
  separators.
\<close>

theorem report_is_rectangular:
  assumes "m_columns r \<noteq> []" "\<forall>w \<in> set (column_widths r). 0 < w"
  shows "print_report r = concat (map (\<lambda>line. line @ newline) (report_lines r)) \<and>
    length (report_lines r) = 3 + column_header_rows r + length (m_rows r) \<and>
    (\<forall>line \<in> set (report_lines r). length line = total_width (column_widths r))"
proof -
  from assms(1) have "column_widths r \<noteq> []" by (metis length_column_widths length_0_conv)
  with assms(2) have "0 < total_width (column_widths r)"
    by (cases "column_widths r") (auto simp: total_width_def)
  then have "length (separator_line (total_width (column_widths r))) = total_width (column_widths r)"
    by (simp add: separator_line_def)
  then show ?thesis
    using length_print_row fits_header[OF _ assms(2)] fits_cells
    by (auto simp: print_report_def report_lines_def Let_def)
qed

text \<open>
  Every cell is printed whole and in its column: in the line of row \<open>n\<close>, at the offset of
  column \<open>i\<close>, stands the text of the cell, padded with blanks to the width of the column on the side
  the column asks for; a cell the row does not have is blank.
\<close>

theorem report_cells_in_columns:
  assumes "n < length (m_rows r)" "i < length (m_columns r)"
  shows "take (column_widths r ! i) (drop (cell_offset i (column_widths r))
       (report_lines r ! (2 + column_header_rows r + n))) =
     setw (CHR '' '') (m_justification (m_columns r ! i)) (column_widths r ! i) (cell_value (m_rows r ! n) i)"
  by (rule row_cell[OF assms])

definition sample_report :: report where
  "sample_report = (make_report [make_column (\<lambda>n. [''Cum'', ''Qty'']) ''Cum Qty'' Justify_right,
      make_column (\<lambda>n. [n]) ''Symbol'' Justify_left])\<lparr> m_rows := [[''100'', ''VOD.L''], [''2500'']] \<rparr>"

theorem report_is_rectangular_witness:
  "list_all (\<lambda>line. length line = 12) (report_lines sample_report) \<and> length (report_lines sample_report) = 7"
proof -
  have "m_columns sample_report \<noteq> []" "\<forall>w \<in> set (column_widths sample_report). 0 < w"
    "total_width (column_widths sample_report) = 12" "column_header_rows sample_report = 2" "length (m_rows sample_report) = 2"
    by code_simp+
  with report_is_rectangular[of sample_report] show ?thesis by (simp add: list_all_iff)
qed

theorem report_cells_in_columns_witness:
  "take 6 (drop 6 (report_lines sample_report ! 4)) = ''VOD.L ''"
proof -
  have "column_widths sample_report = [4, 6]" "column_header_rows sample_report = 2"
    "cell_offset 1 [4, 6] = 6" "m_justification (m_columns sample_report ! 1) = Justify_left"
    "cell_value (m_rows sample_report ! 0) 1 = ''VOD.L''" "length (m_rows sample_report) = 2" "length (m_columns sample_report) = 2"
    by code_simp+
  with report_cells_in_columns[of 0 sample_report 1] show ?thesis by simp
qed

end
