(* ===== verification/Order_Report.thy ===== *)
theory Order_Report
  imports Order_Lifecycle Report
begin

text \<open>
  \<open>libcrocofix/order_report.cppm\<close>, \<open>order_report.cpp\<close>: a report with one column per chosen field and
  one row per order of a book. \<open>split\<close> and \<open>to_lower\<close> stand for the two \<open>boost\<close> functions that the
  report and the dictionary call, \<open>field_with_tag\<close> for the generated field classes.
\<close>

section \<open>State and operations\<close>

record order_report =
  or_fields :: "orchestration_field list"
  or_report :: report

definition default_fields :: "(int \<Rightarrow> orchestration_field) \<Rightarrow> orchestration_field list" where
  "default_fields field_with_tag = map field_with_tag
     [SenderCompID_Tag, TargetCompID_Tag, ClOrdID_Tag, OrigClOrdID_Tag, Symbol_Tag, OrdStatus_Tag, OrdType_Tag,
      TimeInForce_Tag, Side_Tag, OrderQty_Tag, Price_Tag, CumQty_Tag, AvgPx_Tag]"

definition report_column :: "(string \<Rightarrow> string list) \<Rightarrow> (string \<Rightarrow> string) \<Rightarrow> orchestration_field \<Rightarrow> column" where
  "report_column split to_lower f =
     make_column split (of_name f) (if orchestration_field_is_numeric to_lower f then Justify_right else Justify_left)"

definition make_order_report ::
  "(string \<Rightarrow> string list) \<Rightarrow> (string \<Rightarrow> string) \<Rightarrow> orchestration_field list \<Rightarrow> order_report" where
  "make_order_report split to_lower fs =
     \<lparr> or_fields = fs, or_report = make_report (map (report_column split to_lower) fs) \<rparr>"

definition shown_value :: "orchestration_field \<Rightarrow> string \<Rightarrow> string" where
  "shown_value f v =
     (if orchestration_field_name_of_value f v = '''' then v else orchestration_field_name_of_value f v)"

definition report_cell :: "order \<Rightarrow> orchestration_field \<Rightarrow> string" where
  "report_cell ord f =
     (let value = fc_try_get_or_default_string (of_tag f) '''' (ord_fields ord);
          pending_value = fc_try_get (of_tag f) (ord_pending_fields ord);
          cell = shown_value f (m_value value)
      in case pending_value of
           Some p \<Rightarrow>
             (if m_value value \<noteq> m_value p \<and> \<not> is_identity_tag (of_tag f)
              then cell @ '' ('' @ shown_value f (m_value p) @ '')'' else cell)
         | None \<Rightarrow> cell)"

definition order_report_print :: "order_book \<Rightarrow> order_report \<Rightarrow> string \<times> order_report" where
  "order_report_print book rep =
     (let r = (or_report rep)\<lparr> m_rows := map (\<lambda>(key, ord). map (report_cell ord) (or_fields rep)) (m_orders book) \<rparr>
      in (print_report r, rep\<lparr> or_report := r \<rparr>))"

section \<open>What a row shows\<close>

lemma order_report_print_again:
  "order_report_print book (snd (order_report_print book' rep)) = order_report_print book rep"
  by (simp add: order_report_print_def Let_def)

lemma report_cell_plain: "fc_try_get (of_tag f) (ord_pending_fields ord) = None \<Longrightarrow>
    fc_try_get (of_tag f) (ord_fields ord) = Some v \<Longrightarrow> report_cell ord f = shown_value f (m_value v)"
  by (simp add: report_cell_def fc_try_get_or_default_string_def Let_def)

lemma report_cell_pending:
  assumes "fc_try_get (of_tag f) (ord_fields ord) = Some v" "fc_try_get (of_tag f) (ord_pending_fields ord) = Some p"
    and "m_value v \<noteq> m_value p" "\<not> is_identity_tag (of_tag f)"
  shows "report_cell ord f = shown_value f (m_value v) @ '' ('' @ shown_value f (m_value p) @ '')''"
  using assms by (simp add: report_cell_def fc_try_get_or_default_string_def Let_def)

text \<open>The row of an order: the line at the order's place in the book.\<close>

lemma map_find_row:
  assumes "map_find key (m_orders book) = Some ord"
  shows "\<exists>n < length (m_orders book). m_orders book ! n = (key, ord)"
  using assms unfolding map_find_def by (metis in_set_conv_nth map_of_SomeD)

lemma order_report_cell_text:
  assumes "n < length (m_orders book)" "m_orders book ! n = (key, ord)" "i < length fs"
    and "order_report_print book (make_order_report split to_lower fs) = (out, rep)"
  shows "take (column_widths (or_report rep) ! i) (drop (cell_offset i (column_widths (or_report rep)))
       (report_lines (or_report rep) ! (2 + column_header_rows (or_report rep) + n))) =
     setw (CHR '' '') (if orchestration_field_is_numeric to_lower (fs ! i) then Justify_right else Justify_left)
       (column_widths (or_report rep) ! i) (report_cell ord (fs ! i))"
proof -
  from assms(4) have r: "or_report rep = \<lparr> m_columns = map (report_column split to_lower) fs,
      m_rows = map (\<lambda>(key, ord). map (report_cell ord) fs) (m_orders book) \<rparr>"
    by (auto simp: order_report_print_def make_order_report_def make_report_def Let_def)
  have nth: "n < length (m_rows (or_report rep))" "i < length (m_columns (or_report rep))"
    using assms(1,3) by (simp_all add: r)
  have "cell_value (m_rows (or_report rep) ! n) i = report_cell ord (fs ! i)"
    using assms(1-3) by (simp add: r cell_value_def)
  with row_cell[OF nth] assms(3) show ?thesis
    by (simp add: r report_column_def make_column_def)
qed

section \<open>Properties\<close>

text \<open>
  A value that a cancel/replace request would change is reported with both values. After the
  request has been processed for an order without a pending request, the report's line for that
  order has, in the column of every field that the request gives a new value, the current value and
  then the requested one in parentheses, each by its name in the dictionary where it has one.
\<close>

theorem requested_values_are_reported:
  assumes found: "map_find key (m_orders book) = Some ord" and idle: "ord_pending_fields ord = []"
    and rq: "fc_try_get MsgType_Tag (m_fields rq) = Some (field_string MsgType_Tag OrderCancelReplaceRequest_MsgType)"
      "key_for_message rq False = Inr key" "fc_get ClOrdID_Tag (m_fields rq) = Inr cl"
    and col: "i < length fs" "\<not> is_identity_tag (of_tag (fs ! i))" "of_tag (fs ! i) \<noteq> OrdStatus_Tag"
    and vals: "fc_try_get (of_tag (fs ! i)) (ord_fields ord) = Some v" "last_field (of_tag (fs ! i)) rq = Some p"
      "m_value v \<noteq> m_value p"
  shows "\<exists>book1 out rep n. order_book_process rq book = (Inr (Inr ()), book1) \<and>
    order_report_print book1 (make_order_report split to_lower fs) = (out, rep) \<and>
    out = concat (map (\<lambda>line. line @ newline) (report_lines (or_report rep))) \<and>
    n < length (m_orders book1) \<and> fst (m_orders book1 ! n) = key \<and>
    take (column_widths (or_report rep) ! i) (drop (cell_offset i (column_widths (or_report rep)))
       (report_lines (or_report rep) ! (2 + column_header_rows (or_report rep) + n))) =
     setw (CHR '' '') (if orchestration_field_is_numeric to_lower (fs ! i) then Justify_right else Justify_left)
       (column_widths (or_report rep) ! i)
       (shown_value (fs ! i) (m_value v) @ '' ('' @ shown_value (fs ! i) (m_value p) @ '')'')"
proof -
  note type = MsgType_try_get[OF rq(1), simplified]
  obtain ord1 where u: "order_update rq ord = (Inr (), ord1)" and flds:
    "ord_fields ord1 = fc_replace (field_string OrdStatus_Tag OrdStatus_PendingReplace) (ord_fields ord)"
    "ord_pending_fields ord1 = set_non_identity (m_fields rq) []"
    using request_state[OF type rq(3), of ord] idle by simp
  define book1 where "book1 = book\<lparr> m_orders := map_assign key ord1 (m_orders book) \<rparr>"
  have "order_book_process rq book = (Inr (Inr ()), book1)"
    using rq(1) lookup_and_run_found[of rq False key book ord "order_update rq" ord1, OF rq(2) found u]
    by (simp add: order_book_process_def field_eq_value_def lookup_and_run_handlers book1_def)
  moreover have "map_find key (m_orders book1) = Some ord1" using found by (simp add: book1_def sm.find_assign)
  from map_find_row[OF this] obtain n where n: "n < length (m_orders book1)" "m_orders book1 ! n = (key, ord1)" by blast
  obtain out rep where pr: "order_report_print book1 (make_order_report split to_lower fs) = (out, rep)" by fastforce
  then have "out = concat (map (\<lambda>line. line @ newline) (report_lines (or_report rep)))"
    by (auto simp: order_report_print_def print_report_def Let_def)
  moreover have "report_cell ord1 (fs ! i) = shown_value (fs ! i) (m_value v) @ '' ('' @ shown_value (fs ! i) (m_value p) @ '')''"
    using vals col(2,3) flds
    by (intro report_cell_pending) (auto simp: fc_try_get_replace set_non_identity_once orelse_def)
  ultimately show ?thesis using order_report_cell_text[OF n col(1) pr] pr n by fastforce
qed

definition sample_price_field :: orchestration_field where
  "sample_price_field = \<lparr> of_tag = 44, of_is_data = False, of_name = ''Price'', of_type = ''Price'', of_synopsis = [],
     of_pedigree = \<lparr> added = [], addedEP = [], updated = [], updatedEP = [], deprecated = [], deprecatedEP = [] \<rparr>, of_values = [] \<rparr>"

definition sample_priced_book :: order_book where
  "sample_priced_book = \<lparr> m_orders = [(''A-B-1'', sample_order\<lparr> ord_fields := m_fields sample_new_order @ [field_string 44 ''10''] \<rparr>)] \<rparr>"

definition sample_price_change :: message where
  "sample_price_change = sample_order_message ''G'' ''A'' ''B'' [field_string 41 ''1'', field_string 11 ''2'', field_string 44 ''12'']"

theorem requested_values_are_reported_witness:
  "\<exists>book1 out rep n. order_book_process sample_price_change sample_priced_book = (Inr (Inr ()), book1) \<and>
    order_report_print book1 (make_order_report (\<lambda>s. [s]) id [sample_price_field]) = (out, rep) \<and>
    take (column_widths (or_report rep) ! 0) (report_lines (or_report rep) ! (2 + column_header_rows (or_report rep) + n)) =
      setw (CHR '' '') Justify_left (column_widths (or_report rep) ! 0) ''10 (12)''"
proof -
  let ?ord = "sample_order\<lparr> ord_fields := m_fields sample_new_order @ [field_string 44 ''10''] \<rparr>"
  have "map_find ''A-B-1'' (m_orders sample_priced_book) = Some ?ord" "ord_pending_fields ?ord = []"
    "fc_try_get 35 (m_fields sample_price_change) = Some (field_string 35 ''G'')"
    "key_for_message sample_price_change False = Inr ''A-B-1''"
    "fc_get 11 (m_fields sample_price_change) = Inr (field_string 11 ''2'')"
    "\<not> is_identity_tag 44" "fc_try_get 44 (ord_fields ?ord) = Some (field_string 44 ''10'')"
    "last_field 44 sample_price_change = Some (field_string 44 ''12'')"
    "shown_value sample_price_field ''10'' = ''10''" "shown_value sample_price_field ''12'' = ''12''"
    "\<not> orchestration_field_is_numeric id sample_price_field" "of_tag sample_price_field = 44"
    by code_simp+
  with requested_values_are_reported[of "''A-B-1''" sample_priced_book ?ord sample_price_change "field_string 11 ''2''" 0
      "[sample_price_field]" "field_string 44 ''10''" "field_string 44 ''12''" "\<lambda>s. [s]" id]
  show ?thesis by (auto simp: cell_offset_def) 
qed

end
