(* ===== verification/Read_File.thy ===== *)
theory Read_File
  imports Std_Convert
begin

text \<open>
  \<open>libcrocofixutility/read_file.cpp\<close>: the stream a reader gets for a file, decompressed according to
  the ending of the file name. The bytes of the file (none where it cannot be opened: the stream is
  then at its end), \<open>boost::algorithm::ends_with\<close> and the two filters of \<open>boost::iostreams\<close> are
  arguments. A filter maps bytes to the text it yields; where it meets malformed data the text ends,
  because \<open>std::getline\<close>, which reads the lines, catches what the stream buffer throws.
\<close>

definition read_file ::
  "(string \<Rightarrow> string \<Rightarrow> bool) \<Rightarrow> (string \<Rightarrow> string) \<Rightarrow> (string \<Rightarrow> string) \<Rightarrow> string \<Rightarrow> string \<Rightarrow>
   (string \<Rightarrow> ('s, unit) proc) \<Rightarrow> ('s, unit) proc" where
  "read_file ends_with gunzip bunzip2 filename bytes reader =
     (if ends_with filename ''.gz'' then reader (gunzip bytes)
      else if ends_with filename ''.bz2'' then reader (bunzip2 bytes)
      else reader bytes)"

text \<open>\<open>while (std::getline(stream, line))\<close>: the lines, without their line ends; a last line may lack one.\<close>

definition end_of_line :: char where
  "end_of_line = CHR 0x0A"

function getlines :: "string \<Rightarrow> string list" where
  "getlines s = (if s = [] then []
     else takeWhile (\<lambda>c. c \<noteq> end_of_line) s # getlines (drop 1 (dropWhile (\<lambda>c. c \<noteq> end_of_line) s)))"
  by pat_completeness auto
termination
  by (relation "measure length") (auto simp: le_imp_less_Suc length_dropWhile_le intro: diff_less le_less_trans[OF diff_le_mono[OF length_dropWhile_le]])

declare getlines.simps [simp del]

lemma getlines_line: "end_of_line \<notin> set l \<Longrightarrow> getlines (l @ end_of_line # s) = l # getlines s"
  by (subst getlines.simps) (simp add: takeWhile_append2 dropWhile_append2 takeWhile_tail dropWhile_append)

lemma getlines_lines:
  "\<forall>l \<in> set ls. end_of_line \<notin> set l \<Longrightarrow> getlines (concat (map (\<lambda>l. l @ [end_of_line]) ls) @ s) = ls @ getlines s"
  by (induction ls) (simp_all add: getlines_line)

end
