(* ===== verification/Fixcat.thy ===== *)
theory Fixcat
  imports Message_Printing Order_Report Read_File
begin

text \<open>
  \<open>fixcat/main.cpp\<close>, \<open>fixcat/options.cpp\<close>: the tool that finds FIX messages in the lines of its
  input, prints them and keeps an order book of them. Standard output and standard error are the
  texts written so far. What \<open>boost::program_options\<close> makes of the command line is the record of
  variables; \<open>split\<close>, \<open>trim\<close> and \<open>to_lower\<close> stand for the string functions of \<open>boost\<close>, and \<open>dict\<close>,
  \<open>messages\<close> and \<open>field_with_tag\<close> for the generated dictionary.
\<close>

section \<open>Options\<close>

record fixcat_variables =
  v_help :: bool
  v_admin :: bool
  v_mix :: bool
  v_orders :: bool
  v_fields :: "string option"
  v_files :: "string list option"

record fixcat_options =
  fo_help :: bool
  fo_include_admin_messages :: bool
  fo_mix :: bool
  fo_track_orders :: bool
  fo_fields :: "orchestration_field list option"
  fo_input_files :: "string list"

definition default_fixcat_options :: fixcat_options where
  "default_fixcat_options = \<lparr> fo_help = False, fo_include_admin_messages = False, fo_mix = False,
     fo_track_orders = False, fo_fields = None, fo_input_files = [] \<rparr>"

text \<open>One round of the loop of \<open>parse_fields\<close>: a token is the name of a field or else its tag.\<close>

definition parse_field :: "orchestration_field_collection \<Rightarrow> string \<Rightarrow> exn + orchestration_field" where
  "parse_field dict token =
     (case field_named dict token of
        Inr f \<Rightarrow> Inr f
      | Inl (Out_of_range _) \<Rightarrow>
          (case (case stoi token of Inl e \<Rightarrow> Inl e | Inr tag \<Rightarrow> field_at dict (word_of_int tag)) of
             Inr f \<Rightarrow> Inr f
           | Inl _ \<Rightarrow> Inl (Out_of_range (''Unable to find a FIX field with name or tag = '' @ [CHR 0x27] @ token @ [CHR 0x27])))
      | Inl e \<Rightarrow> Inl e)"

fun parse_tokens :: "orchestration_field_collection \<Rightarrow> (string \<Rightarrow> string) \<Rightarrow> string list \<Rightarrow> exn + orchestration_field list" where
  "parse_tokens dict trim [] = Inr []"
| "parse_tokens dict trim (token # tokens) =
     (case parse_field dict (trim token) of
        Inl e \<Rightarrow> Inl e
      | Inr f \<Rightarrow> (case parse_tokens dict trim tokens of Inl e \<Rightarrow> Inl e | Inr fs \<Rightarrow> Inr (f # fs)))"

definition parse_fields ::
  "orchestration_field_collection \<Rightarrow> (string \<Rightarrow> string list) \<Rightarrow> (string \<Rightarrow> string) \<Rightarrow> string \<Rightarrow>
   (fixcat_options, unit) proc" where
  "parse_fields dict split trim input =
     bindP (liftP (parse_tokens dict trim (split input))) (\<lambda>fs. modifyP (\<lambda>opts. opts\<lparr> fo_fields := Some fs \<rparr>))"

text \<open>
  \<open>fields_env\<close> is the environment variable CROCOFIX_FIXCAT_FIELDS. The usage text that \<open>--help\<close> prints is
  not modelled.
\<close>

definition fixcat_parse ::
  "orchestration_field_collection \<Rightarrow> (string \<Rightarrow> string list) \<Rightarrow> (string \<Rightarrow> string) \<Rightarrow> fixcat_variables \<Rightarrow>
   string option \<Rightarrow> (fixcat_options, bool) proc" where
  "fixcat_parse dict split trim variables fields_env =
     (if v_help variables then seqP (modifyP (\<lambda>opts. opts\<lparr> fo_help := True \<rparr>)) (returnP True)
      else
        seqP (modifyP (\<lambda>opts. opts\<lparr> fo_include_admin_messages := v_admin variables, fo_mix := v_mix variables,
                                    fo_track_orders := v_orders variables \<rparr>))
        (seqP (case v_fields variables of
                 Some input \<Rightarrow> parse_fields dict split trim input
               | None \<Rightarrow> (case fields_env of Some input \<Rightarrow> parse_fields dict split trim input | None \<Rightarrow> returnP ()))
        (seqP (case v_files variables of
                 Some files \<Rightarrow> modifyP (\<lambda>opts. opts\<lparr> fo_input_files := files \<rparr>)
               | None \<Rightarrow> returnP ())
        (returnP True))))"

section \<open>Lines\<close>

record fixcat =
  fx_book :: order_book
  fx_report :: order_report
  fx_out :: string
  fx_err :: string

definition fix_message_prefix :: string where
  "fix_message_prefix = ''8=FIX''"

text \<open>\<open>line.substr(line.find(prefix))\<close>, where the prefix is found.\<close>

fun find_text :: "string \<Rightarrow> string \<Rightarrow> string option" where
  "find_text p s = (if take (length p) s = p then Some s else case s of [] \<Rightarrow> None | c # cs \<Rightarrow> find_text p cs)"

declare find_text.simps [simp del]

definition put_out :: "string \<Rightarrow> (fixcat, unit) proc" where
  "put_out t = modifyP (\<lambda>st. st\<lparr> fx_out := fx_out st @ t \<rparr>)"

definition decode_line :: "orchestration_field_collection \<Rightarrow> string \<Rightarrow> exn + message" where
  "decode_line dict t = (case message_decode dict t empty_message of (Inl e, _) \<Rightarrow> Inl e | (Inr _, m) \<Rightarrow> Inr m)"

definition is_filtered :: "fixcat_options \<Rightarrow> message \<Rightarrow> exn + bool" where
  "is_filtered opts m = (if fo_include_admin_messages opts then Inr False else message_is_admin m)"

definition track_order :: "fixcat_options \<Rightarrow> message \<Rightarrow> (fixcat, unit) proc" where
  "track_order opts m =
     whenP (fo_track_orders opts)
       (bindP (\<lambda>st. case order_book_process m (fx_book st) of (r, book) \<Rightarrow> (r, st\<lparr> fx_book := book \<rparr>)) (\<lambda>r.
          case r of
            Inl _ \<Rightarrow> returnP ()
          | Inr _ \<Rightarrow>
              seqP (\<lambda>st. case order_report_print (fx_book st) (fx_report st) of
                      (t, rep) \<Rightarrow> (Inr (), st\<lparr> fx_out := fx_out st @ t, fx_report := rep \<rparr>))
                   (put_out newline)))"

definition print_line ::
  "orchestration_field_collection \<Rightarrow> message_collection \<Rightarrow> fixcat_options \<Rightarrow> string \<Rightarrow> (fixcat, unit) proc" where
  "print_line dict messages opts line =
     (case find_text fix_message_prefix line of
        None \<Rightarrow> whenP (fo_mix opts) (put_out (line @ newline))
      | Some t \<Rightarrow>
          bindP (liftP (decode_line dict t)) (\<lambda>m.
          bindP (liftP (is_filtered opts m)) (\<lambda>filtered.
            if filtered then returnP ()
            else bindP (liftP (message_pretty_print dict messages m)) (\<lambda>p.
                 seqP (put_out (p @ newline)) (track_order opts m)))))"

text \<open>The handler of \<open>decode_and_print_line\<close> catches every exception; undefined behaviour is none.\<close>

definition decode_and_print_line ::
  "orchestration_field_collection \<Rightarrow> message_collection \<Rightarrow> fixcat_options \<Rightarrow> string \<Rightarrow> (fixcat, unit) proc" where
  "decode_and_print_line dict messages opts line = (\<lambda>st.
     (case print_line dict messages opts line st of
        (Inl e, st') \<Rightarrow> (if is_undefined e then (Inl e, st') else (Inr (), st'\<lparr> fx_err := fx_err st' @ what e @ newline \<rparr>))
      | (Inr _, st') \<Rightarrow> (Inr (), st')))"

fun process_lines ::
  "orchestration_field_collection \<Rightarrow> message_collection \<Rightarrow> fixcat_options \<Rightarrow> string list \<Rightarrow> (fixcat, unit) proc" where
  "process_lines dict messages opts [] = returnP ()"
| "process_lines dict messages opts (line # lines) =
     seqP (decode_and_print_line dict messages opts line) (process_lines dict messages opts lines)"

definition process_stream ::
  "orchestration_field_collection \<Rightarrow> message_collection \<Rightarrow> (string \<Rightarrow> string list) \<Rightarrow> (string \<Rightarrow> string) \<Rightarrow>
   (int \<Rightarrow> orchestration_field) \<Rightarrow> fixcat_options \<Rightarrow> string \<Rightarrow> (fixcat, unit) proc" where
  "process_stream dict messages split to_lower field_with_tag opts stream =
     seqP (modifyP (\<lambda>st. st\<lparr> fx_book := \<lparr> m_orders = [] \<rparr>,
             fx_report := make_order_report split to_lower
               (case fo_fields opts of Some fs \<Rightarrow> fs | None \<Rightarrow> default_fields field_with_tag) \<rparr>))
          (process_lines dict messages opts (getlines stream))"

section \<open>The book a stream leaves\<close>

text \<open>The message of a line that the order book gets to see.\<close>

definition line_message :: "orchestration_field_collection \<Rightarrow> fixcat_options \<Rightarrow> string \<Rightarrow> message option" where
  "line_message dict opts line =
     (case find_text fix_message_prefix line of
        None \<Rightarrow> None
      | Some t \<Rightarrow>
          (case decode_line dict t of
             Inl _ \<Rightarrow> None
           | Inr m \<Rightarrow> (case (is_filtered opts m, message_MsgType m) of (Inr False, Inr _) \<Rightarrow> Some m | _ \<Rightarrow> None)))"

definition book_after :: "message list \<Rightarrow> order_book \<Rightarrow> order_book" where
  "book_after ms book = foldl (\<lambda>b m. snd (order_book_process m b)) book ms"

lemma track_order_book:
  "fx_book (snd (track_order opts m st)) =
     (if fo_track_orders opts then snd (order_book_process m (fx_book st)) else fx_book st)"
  by (simp add: track_order_def put_out_def bindP_def seqP_def split: prod.splits sum.splits)

lemma decode_and_print_line_book:
  assumes "fo_track_orders opts"
  shows "fx_book (snd (decode_and_print_line dict messages opts line st)) =
    book_after (case line_message dict opts line of None \<Rightarrow> [] | Some m \<Rightarrow> [m]) (fx_book st)"
proof -
  have "fx_book (snd (decode_and_print_line dict messages opts line st)) = fx_book (snd (print_line dict messages opts line st))"
    by (simp add: decode_and_print_line_def split: prod.splits sum.splits)
  also have "\<dots> = book_after (case line_message dict opts line of None \<Rightarrow> [] | Some m \<Rightarrow> [m]) (fx_book st)"
  proof (cases "find_text fix_message_prefix line")
    case None
    then show ?thesis by (simp add: print_line_def line_message_def book_after_def put_out_def whenP_def)
  next
    case (Some t)
    then show ?thesis using assms
      by (auto simp: print_line_def line_message_def book_after_def bindP_def seqP_def put_out_def track_order_book
          message_pretty_print_Inl message_pretty_print_def Let_def split: sum.splits bool.splits)
  qed
  finally show ?thesis .
qed

section \<open>No line stops the stream\<close>

lemma fc_get_defined: "fc_get t fs = Inl e \<Longrightarrow> \<not> is_undefined e"
  by (auto simp: fc_get_def split: option.splits)

lemma message_MsgType_defined: "message_MsgType m = Inl e \<Longrightarrow> \<not> is_undefined e"
  by (auto simp: message_MsgType_def message_value_def split: option.splits)

lemma key_for_message_defined: "key_for_message m b = Inl e \<Longrightarrow> \<not> is_undefined e"
  by (auto simp: key_for_message_def dest: fc_get_defined split: sum.splits option.splits)

lemma order_update_defined: "order_update m ord = (Inl e, ord') \<Longrightarrow> \<not> is_undefined e"
  by (auto simp: order_update_def seqP_def bindP_def dest: message_MsgType_defined fc_get_defined
      split: sum.splits if_splits)

lemma order_replace_defined: "order_replace m ord = (Inl e, ord') \<Longrightarrow> \<not> is_undefined e"
  by (auto simp: order_replace_def Let_def dest: order_update_defined split: sum.splits prod.splits)

lemma on_order_defined:
  "on_order key f ord book = (Inl e, book') \<Longrightarrow> (\<And>ord'. f ord = (Inl e, ord') \<Longrightarrow> \<not> is_undefined e) \<Longrightarrow> \<not> is_undefined e"
  by (auto simp: on_order_def split: prod.splits)

lemma lookup_and_run_defined:
  assumes "lookup_and_run b missing f m book = (Inl e, book')" "\<And>ord ord'. f ord = (Inl e, ord') \<Longrightarrow> \<not> is_undefined e"
  shows "\<not> is_undefined e"
  using assms
  by (auto simp: lookup_and_run_apply on_order_def dest: key_for_message_defined
      split: sum.splits option.splits prod.splits)

lemma process_execution_report_defined: "process_execution_report m book = (Inl e, book') \<Longrightarrow> \<not> is_undefined e"
  by (auto simp: process_execution_report_def seqP_def bindP_def
      dest: key_for_message_defined on_order_defined[OF _ order_update_defined] on_order_defined[OF _ order_replace_defined]
      split: sum.splits option.splits prod.splits if_splits)

lemma order_book_process_defined:
  assumes "order_book_process m book = (Inl e, book')"
  shows "\<not> is_undefined e"
  using assms process_execution_report_defined[of m book e book']
    lookup_and_run_defined[of _ _ "order_update m" m book e book', OF _ order_update_defined]
    lookup_and_run_defined[of _ _ "modifyP order_rollback" m book e book']
  by (auto simp: order_book_process_def lookup_and_run_handlers process_order_single_def
      split: option.splits if_splits sum.splits prod.splits)

lemma print_line_defined:
  assumes "print_line dict messages opts line st = (Inl e, st')"
    and "\<And>t e. find_text fix_message_prefix line = Some t \<Longrightarrow> decode_line dict t = Inl e \<Longrightarrow> \<not> is_undefined e"
  shows "\<not> is_undefined e"
proof (cases "find_text fix_message_prefix line")
  case None
  with assms(1) show ?thesis by (simp add: print_line_def put_out_def whenP_def split: if_splits)
next
  case (Some t)
  have track: "track_order opts m st = (Inl e, st') \<Longrightarrow> \<not> is_undefined e" for m st
    by (auto simp: track_order_def whenP_def bindP_def seqP_def put_out_def dest: order_book_process_defined
        split: if_splits prod.splits sum.splits)
  from assms(1) Some show ?thesis
    by (auto simp: print_line_def bindP_def seqP_def put_out_def is_filtered_def message_is_admin_def message_pretty_print_Inl
        dest: assms(2)[OF Some] message_MsgType_defined track split: sum.splits if_splits)
qed

definition decodable :: "orchestration_field_collection \<Rightarrow> string \<Rightarrow> bool" where
  "decodable dict line =
     (case find_text fix_message_prefix line of
        None \<Rightarrow> True
      | Some t \<Rightarrow> (case decode_line dict t of Inl e \<Rightarrow> \<not> is_undefined e | Inr _ \<Rightarrow> True))"

lemma decode_and_print_line_returns:
  assumes "decodable dict line"
  shows "\<exists>st'. decode_and_print_line dict messages opts line st = (Inr (), st')"
proof -
  from assms have "find_text fix_message_prefix line = Some t \<Longrightarrow> decode_line dict t = Inl e \<Longrightarrow> \<not> is_undefined e" for t e
    by (simp add: decodable_def)
  with print_line_defined[of dict messages opts line st] show ?thesis
    by (cases "print_line dict messages opts line st"; cases "fst (print_line dict messages opts line st)")
       (auto simp: decode_and_print_line_def)
qed

lemma process_lines_book:
  assumes "\<forall>line \<in> set lines. decodable dict line" "fo_track_orders opts"
  shows "\<exists>st'. process_lines dict messages opts lines st = (Inr (), st') \<and>
    fx_book st' = book_after (List.map_filter (line_message dict opts) lines) (fx_book st)"
  using assms(1)
proof (induction lines arbitrary: st)
  case Nil
  show ?case by (simp add: book_after_def List.map_filter_def)
next
  case (Cons line lines)
  then obtain st1 where st1: "decode_and_print_line dict messages opts line st = (Inr (), st1)"
    using decode_and_print_line_returns[of dict line messages opts st] by auto
  from Cons obtain st' where st': "process_lines dict messages opts lines st1 = (Inr (), st')"
    "fx_book st' = book_after (List.map_filter (line_message dict opts) lines) (fx_book st1)" by fastforce
  have "fx_book st1 = book_after (case line_message dict opts line of None \<Rightarrow> [] | Some m \<Rightarrow> [m]) (fx_book st)"
    using decode_and_print_line_book[OF assms(2), of dict messages line st] st1 by simp
  with st1 st' show ?case
    by (simp add: book_after_def List.map_filter_def split: option.splits)
qed

lemma book_after_reachable: "book_reachable book \<Longrightarrow> book_reachable (book_after ms book)"
proof (induction ms arbitrary: book)
  case (Cons m ms)
  then show ?case using book_process[OF Cons.prems surjective_pairing, of m] by (simp add: book_after_def)
qed (simp add: book_after_def)

section \<open>The program\<close>

text \<open>
  What surrounds the program: the generated dictionary, the functions of \<open>boost\<close>, the files, standard
  input and the environment variable CROCOFIX_FIXCAT_FIELDS.
\<close>

record surroundings =
  su_dict :: orchestration_field_collection
  su_messages :: message_collection
  su_field_with_tag :: "int \<Rightarrow> orchestration_field"
  su_split_lines :: "string \<Rightarrow> string list"
  su_split_commas :: "string \<Rightarrow> string list"
  su_trim :: "string \<Rightarrow> string"
  su_to_lower :: "string \<Rightarrow> string"
  su_ends_with :: "string \<Rightarrow> string \<Rightarrow> bool"
  su_gunzip :: "string \<Rightarrow> string"
  su_bunzip2 :: "string \<Rightarrow> string"
  su_file :: "string \<Rightarrow> string"
  su_stdin :: string
  su_fields_variable :: "string option"

abbreviation process_input :: "surroundings \<Rightarrow> fixcat_options \<Rightarrow> string \<Rightarrow> (fixcat, unit) proc" where
  "process_input su \<equiv> process_stream (su_dict su) (su_messages su) (su_split_lines su) (su_to_lower su) (su_field_with_tag su)"

fun process_files :: "surroundings \<Rightarrow> fixcat_options \<Rightarrow> string list \<Rightarrow> (fixcat, unit) proc" where
  "process_files su opts [] = returnP ()"
| "process_files su opts (filename # filenames) =
     seqP (read_file (su_ends_with su) (su_gunzip su) (su_bunzip2 su) filename (su_file su filename) (process_input su opts))
       (process_files su opts filenames)"

text \<open>\<open>main\<close>; the result is the exit code.\<close>

definition fixcat_main :: "surroundings \<Rightarrow> fixcat_variables \<Rightarrow> (fixcat, int) proc" where
  "fixcat_main su variables = (\<lambda>st.
     (let (parsed, opts) = fixcat_parse (su_dict su) (su_split_commas su) (su_trim su) variables (su_fields_variable su)
             default_fixcat_options;
          (r, st') = (case parsed of
             Inl e \<Rightarrow> (Inl e, st)
           | Inr ok \<Rightarrow>
               (if \<not> ok \<or> fo_help opts then (Inr 1, st)
                else if fo_input_files opts = [] then seqP (process_input su opts (su_stdin su)) (returnP 0) st
                else seqP (process_files su opts (fo_input_files opts)) (returnP 0) st))
      in case r of
           Inr code \<Rightarrow> (Inr code, st')
         | Inl e \<Rightarrow> (if is_undefined e then (Inl e, st')
                    else (Inr 1, st'\<lparr> fx_err := fx_err st' @ what e @ newline \<rparr>))))"

lemma fixcat_main_help: "v_help variables \<Longrightarrow> fixcat_main su variables st = (Inr 1, st)"
  by (simp add: fixcat_main_def fixcat_parse_def)

lemma fixcat_main_stdin:
  assumes "fixcat_parse (su_dict su) (su_split_commas su) (su_trim su) variables (su_fields_variable su) default_fixcat_options = (Inr True, opts)"
    and "\<not> fo_help opts" "fo_input_files opts = []" "fo_track_orders opts"
    and "\<forall>line \<in> set (getlines (su_stdin su)). decodable (su_dict su) line"
  shows "\<exists>st'. fixcat_main su variables st = (Inr 0, st') \<and>
    fx_book st' = book_after (List.map_filter (line_message (su_dict su) opts) (getlines (su_stdin su))) \<lparr> m_orders = [] \<rparr>"
proof -
  let ?st = "st\<lparr> fx_book := \<lparr> m_orders = [] \<rparr>, fx_report := make_order_report (su_split_lines su) (su_to_lower su)
      (case fo_fields opts of Some fs \<Rightarrow> fs | None \<Rightarrow> default_fields (su_field_with_tag su)) \<rparr>"
  from process_lines_book[OF assms(5,4), of "su_messages su" ?st] assms(1-3) show ?thesis
    by (auto simp: fixcat_main_def process_stream_def)
qed

section \<open>Properties\<close>


section \<open>The fields option\<close>

definition token_field :: "orchestration_field_collection \<Rightarrow> string \<Rightarrow> orchestration_field option" where
  "token_field dict token =
     (case map_of (m_fields_by_name dict) token of
        Some f \<Rightarrow> Some f
      | None \<Rightarrow> (case stoi token of Inl _ \<Rightarrow> None | Inr tag \<Rightarrow> find_field dict (word_of_int tag)))"

lemma parse_field_token:
  "parse_field dict token = (case token_field dict token of
     Some f \<Rightarrow> Inr f
   | None \<Rightarrow> Inl (Out_of_range (''Unable to find a FIX field with name or tag = '' @ [CHR 0x27] @ token @ [CHR 0x27])))"
  by (simp add: parse_field_def token_field_def field_named_def field_at_def split: option.splits sum.splits)

lemma parse_tokens_all:
  "map (\<lambda>token. token_field dict (trim token)) tokens = map Some fs \<Longrightarrow> parse_tokens dict trim tokens = Inr fs"
  by (induction tokens arbitrary: fs) (auto simp: parse_field_token)

lemma parse_tokens_first_bad:
  "token_field dict (trim token) = None \<Longrightarrow> \<forall>t \<in> set pre. token_field dict (trim t) \<noteq> None \<Longrightarrow>
   parse_tokens dict trim (pre @ token # post) =
     Inl (Out_of_range (''Unable to find a FIX field with name or tag = '' @ [CHR 0x27] @ trim token @ [CHR 0x27]))"
  by (induction pre) (auto simp: parse_field_token)

text \<open>
  \<open>--fields\<close> yields one field per token, in their order, each the field of that name or, where
  there is no such name, the field whose tag the token spells; the first token that is neither is
  named in the error that refuses the option, and then nothing is set.
\<close>

theorem parse_fields_resolves_tokens:
  "(map (\<lambda>token. token_field dict (trim token)) (split input) = map Some fs \<longrightarrow>
      parse_fields dict split trim input opts = (Inr (), opts\<lparr> fo_fields := Some fs \<rparr>)) \<and>
   (split input = pre @ token # post \<and> token_field dict (trim token) = None \<and>
      (\<forall>t \<in> set pre. token_field dict (trim t) \<noteq> None) \<longrightarrow>
      parse_fields dict split trim input opts =
        (Inl (Out_of_range (''Unable to find a FIX field with name or tag = '' @ [CHR 0x27] @ trim token @ [CHR 0x27])), opts))"
  by (simp add: parse_fields_def parse_tokens_all parse_tokens_first_bad)

section \<open>The properties at a concrete input\<close>

definition sample_wide_dict :: orchestration_field_collection where
  "sample_wide_dict = \<lparr> m_field_offsets = replicate 60 0, m_of_fields = [sample_field False],
     m_fields_by_name = [(''Sample'', sample_field False)] \<rparr>"

text \<open>A line without a message, one with a new order, and one with a message that does not decode.\<close>

definition sample_stream :: string where
  "sample_stream = ''log'' @ newline @
     ''at 12:00 8=FIX'' @ soh @ ''35=D'' @ soh @ ''49=A'' @ soh @ ''56=B'' @ soh @ ''11=1'' @ soh @ newline @
     ''8=FIX'' @ soh @ ''x=1'' @ soh"

definition sample_fixcat_options :: fixcat_options where
  "sample_fixcat_options = default_fixcat_options\<lparr> fo_track_orders := True \<rparr>"

lemma sample_stream_messages:
  "list_all (decodable sample_wide_dict) (getlines sample_stream)"
  "map (\<lambda>m. map m_value (m_fields m)) (List.map_filter (line_message sample_wide_dict sample_fixcat_options) (getlines sample_stream)) =
     [[''FIX'', ''D'', ''A'', ''B'', ''1'']]"
  "map fst (m_orders (book_after (List.map_filter (line_message sample_wide_dict sample_fixcat_options) (getlines sample_stream))
     \<lparr> m_orders = [] \<rparr>)) = [''A-B-1'']"
  by code_simp+


theorem parse_fields_resolves_tokens_witness:
  "parse_fields sample_wide_dict (\<lambda>s. [s, ''Sample'']) id ''11'' default_fixcat_options =
     (Inr (), default_fixcat_options\<lparr> fo_fields := Some [sample_field False, sample_field False] \<rparr>) \<and>
   parse_fields sample_wide_dict (\<lambda>s. [s, ''99'']) id ''11'' default_fixcat_options =
     (Inl (Out_of_range (''Unable to find a FIX field with name or tag = '' @ [CHR 0x27] @ ''99'' @ [CHR 0x27])), default_fixcat_options)"
proof -
  have t: "token_field sample_wide_dict ''11'' = Some (sample_field False)"
    "token_field sample_wide_dict ''Sample'' = Some (sample_field False)" "token_field sample_wide_dict ''99'' = None"
    by code_simp+
  show ?thesis
    using parse_fields_resolves_tokens[of sample_wide_dict id "\<lambda>s. [s, ''Sample'']" "''11''" "[sample_field False, sample_field False]"
        default_fixcat_options]
      parse_fields_resolves_tokens[of sample_wide_dict id "\<lambda>s. [s, ''99'']" "''11''" "[]" default_fixcat_options "[''11'']" "''99''" "[]"] t
    by simp
qed

end
