(* ===== verification/Fixsed_Options.thy ===== *)
theory Fixsed_Options
  imports Message_Decoding
begin

text \<open>
  \<open>fixsed/options.hpp\<close>, \<open>options.cpp\<close>: the addresses, paths and log level of the proxy. What
  \<open>boost::program_options\<close> makes of the command line is the record of variables and the outcome of
  its \<open>notify\<close>; the file system is two predicates on paths, and the levels of \<open>spdlog\<close> (their type,
  \<open>info\<close>, \<open>off\<close> and \<open>from_str\<close>) are arguments. The ports have no initial value (\<open>None\<close>).
\<close>

section \<open>Data\<close>

record 'l fixsed_options =
  so_help :: bool
  so_pretty_print :: bool
  so_in_host :: "string option"
  so_in_port :: "int option"
  so_out_host :: string
  so_out_port :: "int option"
  so_bind_host :: "string option"
  so_bind_port :: "int option"
  so_script :: string
  so_log_level :: "'l option"
  so_log_path :: string

record fixsed_variables =
  sv_help :: bool
  sv_pretty :: bool
  sv_in :: string
  sv_out :: string
  sv_bind :: string
  sv_script_path :: string
  sv_script :: string
  sv_log_level :: string
  sv_log_path :: string

definition default_fixsed_options :: "'l fixsed_options" where
  "default_fixsed_options = \<lparr> so_help = False, so_pretty_print = False, so_in_host = None, so_in_port = None,
     so_out_host = [], so_out_port = None, so_bind_host = None, so_bind_port = None, so_script = [],
     so_log_level = None, so_log_path = [] \<rparr>"

text \<open>The values of the options that are not given: \<open>script_path\<close> and \<open>log_path\<close> are the current directory.\<close>

definition default_variables :: fixsed_variables where
  "default_variables = \<lparr> sv_help = False, sv_pretty = False, sv_in = [], sv_out = [], sv_bind = [], sv_script_path = ''.'',
     sv_script = [], sv_log_level = [], sv_log_path = ''.'' \<rparr>"

text \<open>\<open>std::filesystem::path::operator/\<close> on POSIX paths.\<close>

definition path_append :: "string \<Rightarrow> string \<Rightarrow> string" where
  "path_append p f =
     (if f \<noteq> [] \<and> hd f = CHR ''/'' then f
      else if p = [] \<or> last p = CHR ''/'' then p @ f
      else p @ ''/'' @ f)"

section \<open>Operations\<close>

abbreviation colon :: char where
  "colon \<equiv> CHR 0x3A"

definition process_in :: "string \<Rightarrow> ('l fixsed_options, unit) proc" where
  "process_in input =
     (case split_at colon input of
        None \<Rightarrow> bindP (liftP (stoi input)) (\<lambda>port. modifyP (\<lambda>opts. opts\<lparr> so_in_port := Some port \<rparr>))
      | Some (host, rest) \<Rightarrow>
          seqP (modifyP (\<lambda>opts. opts\<lparr> so_in_host := Some host \<rparr>))
               (bindP (liftP (stoi rest)) (\<lambda>port. modifyP (\<lambda>opts. opts\<lparr> so_in_port := Some port \<rparr>))))"

definition process_out :: "string \<Rightarrow> ('l fixsed_options, unit) proc" where
  "process_out out =
     (case split_at colon out of
        None \<Rightarrow> throwP (Runtime_error (''malformed value for --out, it must contain a host and port separated by a '' @ [colon]))
      | Some (host, rest) \<Rightarrow>
          seqP (modifyP (\<lambda>opts. opts\<lparr> so_out_host := host \<rparr>))
               (bindP (liftP (stoi rest)) (\<lambda>port. modifyP (\<lambda>opts. opts\<lparr> so_out_port := Some port \<rparr>))))"

definition process_bind :: "string \<Rightarrow> ('l fixsed_options, unit) proc" where
  "process_bind b =
     (if b = [] then returnP ()
      else case split_at colon b of
        None \<Rightarrow> bindP (liftP (stoi b)) (\<lambda>port. modifyP (\<lambda>opts. opts\<lparr> so_bind_port := Some port \<rparr>))
      | Some (host, rest) \<Rightarrow>
          seqP (modifyP (\<lambda>opts. opts\<lparr> so_bind_host := Some host \<rparr>))
               (bindP (liftP (stoi rest)) (\<lambda>port. modifyP (\<lambda>opts. opts\<lparr> so_bind_port := Some port \<rparr>))))"

definition process_script :: "(string \<Rightarrow> bool) \<Rightarrow> (string \<Rightarrow> bool) \<Rightarrow> string \<Rightarrow> string \<Rightarrow> ('l fixsed_options, unit) proc" where
  "process_script is_directory is_regular_file path file =
     (if \<not> is_directory path then
        throwP (Runtime_error (''--script-path '' @ path @ '' does not exist or is not a directory''))
      else
        seqP (modifyP (\<lambda>opts. opts\<lparr> so_script := path_append path file \<rparr>))
             (bindP (getP so_script) (\<lambda>script.
                if \<not> is_regular_file script then
                  throwP (Runtime_error (''--script '' @ file @
                    '' does not exist or is not a regular file in --script-path '' @ path))
                else returnP ())))"

definition process_log_level :: "(string \<Rightarrow> 'l) \<Rightarrow> 'l \<Rightarrow> 'l \<Rightarrow> string \<Rightarrow> ('l fixsed_options, unit) proc" where
  "process_log_level from_str info off level =
     (if level = [] then modifyP (\<lambda>opts. opts\<lparr> so_log_level := Some info \<rparr>)
      else seqP (modifyP (\<lambda>opts. opts\<lparr> so_log_level := Some (from_str level) \<rparr>))
             (if from_str level = off then
                throwP (Runtime_error (''--log-level '' @ level @
                  '' is not valid, must be trace|debug|info|warning|error|critical''))
              else returnP ()))"

definition process_log_path :: "(string \<Rightarrow> bool) \<Rightarrow> string \<Rightarrow> ('l fixsed_options, unit) proc" where
  "process_log_path is_directory path =
     (if \<not> is_directory path then
        throwP (Runtime_error (''--log-path '' @ path @ '' does not exist or is not a directory''))
      else modifyP (\<lambda>opts. opts\<lparr> so_log_path := path \<rparr>))"

text \<open>
  \<open>options::parse\<close> after the command line has been stored. \<open>notified\<close> is the outcome of
  \<open>po::notify\<close>, which throws where a required option is missing. The result is the return value and,
  where an option is refused, the text written to standard error. The usage text that \<open>--help\<close>
  prints is not modelled.
\<close>

definition fixsed_parse ::
  "(string \<Rightarrow> bool) \<Rightarrow> (string \<Rightarrow> bool) \<Rightarrow> (string \<Rightarrow> 'l) \<Rightarrow> 'l \<Rightarrow> 'l \<Rightarrow> fixsed_variables \<Rightarrow> exn + unit \<Rightarrow>
   ('l fixsed_options, bool \<times> string) proc" where
  "fixsed_parse is_directory is_regular_file from_str info off variables notified =
     (if sv_help variables then seqP (modifyP (\<lambda>opts. opts\<lparr> so_help := True \<rparr>)) (returnP (True, []))
      else
        seqP (modifyP (\<lambda>opts. opts\<lparr> so_pretty_print := sv_pretty variables \<rparr>))
        (seqP (liftP notified)
        (\<lambda>opts.
           case seqP (process_in (sv_in variables))
                (seqP (process_out (sv_out variables))
                (seqP (process_bind (sv_bind variables))
                (seqP (process_script is_directory is_regular_file (sv_script_path variables) (sv_script variables))
                (seqP (process_log_level from_str info off (sv_log_level variables))
                (process_log_path is_directory (sv_log_path variables)))))) opts of
             (Inl e, opts') \<Rightarrow> (Inr (False, what e @ [CHR 0x0A]), opts')
           | (Inr _, opts') \<Rightarrow> (Inr (True, []), opts'))))"

text \<open>\<open>tcp::endpoint(tcp::v4(), in_port())\<close> in \<open>pipeline::run\<close>: the \<open>int\<close> becomes an \<open>unsigned short\<close>.\<close>

definition listen_port :: "'l fixsed_options \<Rightarrow> u16 option" where
  "listen_port opts = map_option word_of_int (so_in_port opts)"

section \<open>Addresses\<close>

lemma stoi_port: "n < 2 ^ 31 \<Longrightarrow> stoi (nat_to_string n) = Inr (int n)"
  by (rule stoi_nat_to_string) simp

lemma no_colon: "colon \<notin> set (nat_to_string n)"
  using nat_to_string_digits[of n] by (auto simp: list_all_iff is_digit_def)

lemma split_at_colon: "colon \<notin> set host \<Longrightarrow> split_at colon (host @ colon # rest) = Some (host, rest)"
  by (rule split_at_eq)

text \<open>
  Addresses are read back as they are written. For a host without a colon and a port that an
  \<open>int\<close> can hold, \<open>host:port\<close> sets both, for the listening, the remote and the local address; a bare
  port sets the port alone where the host is optional, and is refused for the remote address.
\<close>

theorem addresses_are_read_back:
  assumes "colon \<notin> set host" "n < 2 ^ 31"
  shows "process_in (host @ [colon] @ nat_to_string n) opts = (Inr (), opts\<lparr> so_in_host := Some host, so_in_port := Some (int n) \<rparr>) \<and>
    process_out (host @ [colon] @ nat_to_string n) opts = (Inr (), opts\<lparr> so_out_host := host, so_out_port := Some (int n) \<rparr>) \<and>
    process_bind (host @ [colon] @ nat_to_string n) opts = (Inr (), opts\<lparr> so_bind_host := Some host, so_bind_port := Some (int n) \<rparr>) \<and>
    process_in (nat_to_string n) opts = (Inr (), opts\<lparr> so_in_port := Some (int n) \<rparr>) \<and>
    process_bind (nat_to_string n) opts = (Inr (), opts\<lparr> so_bind_port := Some (int n) \<rparr>) \<and>
    (\<exists>e. process_out (nat_to_string n) opts = (Inl (Runtime_error e), opts))"
  using assms no_colon[of n] nat_to_string_not_Nil[of n]
  by (simp add: process_in_def process_out_def process_bind_def split_at_colon stoi_port split_at_None[THEN iffD2])

text \<open>
  The listening port is not checked against the range of ports: every number that an \<open>int\<close> can
  hold is accepted, and the proxy listens on that number modulo 65536.
\<close>

theorem listen_port_wraps:
  assumes "n < 2 ^ 31"
  shows "\<exists>opts' port. process_in (nat_to_string n) opts = (Inr (), opts') \<and> listen_port opts' = Some port \<and> unat port = n mod 65536"
  using assms no_colon[of n]
  by (simp add: process_in_def stoi_port split_at_None[THEN iffD2] listen_port_def unsigned_of_nat take_bit_eq_mod)

theorem addresses_are_read_back_witness:
  "process_out (''localhost'' @ [colon] @ ''6666'') default_fixsed_options =
     (Inr (), default_fixsed_options\<lparr> so_out_host := ''localhost'', so_out_port := Some 6666 \<rparr>)"
proof -
  have t: "nat_to_string 6666 = ''6666''" by (simp add: nat_to_string.simps)
  have "colon \<notin> set ''localhost''" "(6666::nat) < 2 ^ 31" by simp_all
  from addresses_are_read_back[OF this, THEN conjunct2, THEN conjunct1] show ?thesis
    by (simp only: t of_nat_numeral)
qed

theorem listen_port_wraps_witness:
  "\<exists>opts' port. process_in ''70000'' default_fixsed_options = (Inr (), opts') \<and> listen_port opts' = Some port \<and> unat port = 4464"
proof -
  have t: "nat_to_string 70000 = ''70000''" by (simp add: nat_to_string.simps)
  have n: "(70000::nat) mod 65536 = 4464" "(70000::nat) < 2 ^ 31" by simp_all
  from listen_port_wraps[OF n(2)] show ?thesis by (simp only: t n(1))
qed

end
