(* ===== verification/Fixsed_Pipeline.thy ===== *)
theory Fixsed_Pipeline
  imports Fixsed_Options Message_Printing Socket_Writer
begin

text \<open>
  \<open>fixsed/pipeline.cpp\<close>: the proxy's handling of one message. A message read on one side is logged,
  given to the script function of that side, logged again and written to the other side, unless the
  function fails. The Lua functions are arguments: on a message and the state of the interpreter they
  yield what they log, whether the call succeeded (an error text if not), the message as they leave
  it and the new interpreter state. The accepting, connecting and resolving of sockets is not modelled.
\<close>

section \<open>State\<close>

datatype log_entry = Log_info string | Log_error string | Log_script string

type_synonym 'l script = "message \<Rightarrow> 'l \<Rightarrow> log_entry list \<times> (string + unit) \<times> message \<times> 'l"

record 'l pipeline =
  pl_log :: "log_entry list"
  pl_lua :: 'l
  acceptor_writer :: socket_writer
  initiator_writer :: socket_writer

datatype side = Initiator_side | Acceptor_side

section \<open>Operations\<close>

definition plain_text :: "message \<Rightarrow> string" where
  "plain_text m = concat (map (\<lambda>f. int_to_string (m_tag f) @ ''='' @ m_value f @ [CHR 0x01]) (m_fields m))"

definition add_log :: "log_entry list \<Rightarrow> ('l pipeline, unit) proc" where
  "add_log entries = modifyP (\<lambda>pl. pl\<lparr> pl_log := pl_log pl @ entries \<rparr>)"

definition log_message ::
  "orchestration_field_collection \<Rightarrow> message_collection \<Rightarrow> 'o fixsed_options \<Rightarrow> message \<Rightarrow> ('l pipeline, unit) proc" where
  "log_message dict messages opts m =
     bindP (liftP (if so_pretty_print opts then message_pretty_print dict messages m else Inr (plain_text m)))
       (\<lambda>t. add_log [Log_info t])"

text \<open>The arguments of the probes, which are evaluated only where a probe is enabled.\<close>

definition probe :: "bool \<Rightarrow> message \<Rightarrow> ('l pipeline, unit) proc" where
  "probe enabled m =
     whenP enabled
       (bindP (liftP (message_SenderCompID m)) (\<lambda>_.
        bindP (liftP (message_TargetCompID m)) (\<lambda>_.
        bindP (liftP (message_MsgType m)) (\<lambda>_. returnP ()))))"

definition call_script :: "'l script \<Rightarrow> message \<Rightarrow> ('l pipeline, (string + unit) \<times> message) proc" where
  "call_script function m = (\<lambda>pl.
     (case function m (pl_lua pl) of
        (entries, result, m', lua) \<Rightarrow> (Inr (result, m'), pl\<lparr> pl_log := pl_log pl @ entries, pl_lua := lua \<rparr>)))"

text \<open>The destination is the writer of the other side.\<close>

fun destination_write :: "side \<Rightarrow> message \<Rightarrow> ('l pipeline, message) proc" where
  "destination_write Initiator_side m = (\<lambda>pl.
     (case socket_writer_write m encode_standard (acceptor_writer pl) of (r, sw) \<Rightarrow> (r, pl\<lparr> acceptor_writer := sw \<rparr>)))"
| "destination_write Acceptor_side m = (\<lambda>pl.
     (case socket_writer_write m encode_standard (initiator_writer pl) of (r, sw) \<Rightarrow> (r, pl\<lparr> initiator_writer := sw \<rparr>)))"

definition process_message ::
  "orchestration_field_collection \<Rightarrow> message_collection \<Rightarrow> 'o fixsed_options \<Rightarrow> bool \<Rightarrow> bool \<Rightarrow> 'l script \<Rightarrow> side \<Rightarrow> message \<Rightarrow>
   ('l pipeline, unit) proc" where
  "process_message dict messages opts call_enabled return_enabled function source m =
     seqP (log_message dict messages opts m)
     (seqP (probe call_enabled m)
     (bindP (call_script function m) (\<lambda>(result, m').
        seqP (probe return_enabled m')
          (case result of
             Inl err \<Rightarrow> add_log [Log_error err]
           | Inr _ \<Rightarrow> seqP (log_message dict messages opts m')
                       (seqP (destination_write source m') (returnP ()))))))"

section \<open>What a message becomes\<close>

text \<open>Neither the log nor the probes throw on such a message.\<close>

definition loggable :: "'o fixsed_options \<Rightarrow> bool \<Rightarrow> message \<Rightarrow> bool" where
  "loggable opts probes m \<longleftrightarrow>
     (so_pretty_print opts \<or> probes \<longrightarrow> fc_try_get MsgType_Tag (m_fields m) \<noteq> None) \<and>
     (probes \<longrightarrow> fc_try_get SenderCompID_Tag (m_fields m) \<noteq> None \<and> fc_try_get TargetCompID_Tag (m_fields m) \<noteq> None)"

lemma message_value_present: "fc_try_get t (m_fields m) \<noteq> None \<Longrightarrow> \<exists>v. message_value name t m = Inr v"
  by (auto simp: message_value_def fc_try_get_def)

lemma log_message_returns:
  assumes "loggable opts probes m"
  shows "\<exists>t. \<forall>pl. log_message dict messages opts m pl = (Inr (), pl\<lparr> pl_log := pl_log pl @ [Log_info t] \<rparr>)"
proof (cases "so_pretty_print opts")
  case True
  with assms obtain t where "message_MsgType m = Inr t"
    using message_value_present[of MsgType_Tag m "''MsgType''"] by (auto simp: loggable_def message_MsgType_def)
  from message_pretty_print_Inr[OF this, of dict messages] obtain out where "message_pretty_print dict messages m = Inr out" by blast
  with True show ?thesis by (auto simp: log_message_def add_log_def)
qed (auto simp: log_message_def add_log_def)

lemma probe_returns: "loggable opts probes m \<Longrightarrow> (p \<Longrightarrow> probes) \<Longrightarrow> probe p m pl = (Inr (), pl)"
  using message_value_present[of SenderCompID_Tag m "''SenderCompID''"] message_value_present[of TargetCompID_Tag m "''TargetCompID''"]
    message_value_present[of MsgType_Tag m "''MsgType''"]
  by (cases p) (auto simp: probe_def loggable_def message_SenderCompID_def message_TargetCompID_def message_MsgType_def)

text \<open>
  A script that leaves messages alone makes the proxy transparent. If the text of a message that
  some engine encoded arrives on the initiator's side and is decoded there, and the script accepts
  it unchanged, then exactly that text is appended to what goes to the acceptor, checksum and body
  length included, and nothing is written back to the initiator.
\<close>

theorem identity_script_is_transparent:
  assumes fields: "m_fields m = pre @ [cs]" "m_tag cs = CheckSum_Tag" "CheckSum_Tag \<notin> set (tags pre)"
    and enc: "message_encode cap encode_standard m = (Inr (n, out), m')" "n \<noteq> 0"
    and read: "wire_ok dict [] (m_fields m')" "message_decode dict out empty_message = (r, d)"
    and script: "function d (pl_lua pl) = (entries, Inr (), d, lua)" "loggable opts (p \<or> q) d"
    and room: "writer_ok (acceptor_writer pl)" "sock_open (m_socket (acceptor_writer pl))"
      "n \<le> buffer_size - length (m_pending_buffer (acceptor_writer pl))"
  shows "\<exists>pl'. process_message dict messages opts p q function Initiator_side d pl = (Inr (), pl') \<and>
    taken (acceptor_writer pl') = taken (acceptor_writer pl) @ out \<and> initiator_writer pl' = initiator_writer pl"
proof -
  have opt: "encode_standard AND set_checksum \<noteq> 0"
    by (simp add: encode_standard_def set_checksum_def set_body_length_def set_begin_string_def set_msg_seq_num_def)
  have d: "m_fields d = m_fields m'" using decode_encoded[OF fields opt enc read(1), of "[]"] read(2) by auto
  obtain t where t: "\<And>pl :: 'a pipeline. log_message dict messages opts d pl = (Inr (), pl\<lparr> pl_log := pl_log pl @ [Log_info t] \<rparr>)"
    using log_message_returns[OF script(2)] by blast
  let ?sw = "acceptor_writer pl"
  obtain sw' where sw': "socket_writer_write d encode_standard ?sw = (Inr d, sw')" "taken sw' = taken ?sw @ out"
    using write_returns[OF room(1,2) encode_again[OF fields opt enc d room(3)] enc(2)] by blast
  show ?thesis
    using script(1) sw' by (simp add: process_message_def t probe_returns[OF script(2) disjI1] probe_returns[OF script(2) disjI2] call_script_def)
qed

text \<open>
  A message whose script function fails is not forwarded: nothing is written to either side, the
  error is logged after the message and what the script logged, and the proxy goes on.
\<close>

theorem failed_script_drops_message:
  assumes "function m (pl_lua pl) = (entries, Inl err, m', lua)" "loggable opts (p \<or> q) m" "loggable opts (p \<or> q) m'"
  shows "\<exists>t. process_message dict messages opts p q function source m pl =
    (Inr (), pl\<lparr> pl_lua := lua, pl_log := pl_log pl @ [Log_info t] @ entries @ [Log_error err] \<rparr>)"
proof -
  obtain t where t: "\<And>pl :: 'a pipeline. log_message dict messages opts m pl = (Inr (), pl\<lparr> pl_log := pl_log pl @ [Log_info t] \<rparr>)"
    using log_message_returns[OF assms(2)] by blast
  show ?thesis
    using assms(1)
    by (intro exI[of _ t]) (simp add: process_message_def t probe_returns[OF assms(2) disjI1] probe_returns[OF assms(3) disjI2] call_script_def add_log_def)
qed

section \<open>The properties at a concrete message\<close>

definition sample_pipeline :: "unit pipeline" where
  "sample_pipeline = \<lparr> pl_log = [], pl_lua = (), acceptor_writer = sample_writer, initiator_writer = sample_writer \<rparr>"

theorem identity_script_is_transparent_witness:
  "\<exists>pl'. process_message sample_dict (make_message_collection []) default_fixsed_options False False (\<lambda>m lua. ([], Inr (), m, lua))
       Initiator_side (snd (message_decode sample_dict (''8=F'' @ soh @ ''10=188'' @ soh) empty_message)) sample_pipeline = (Inr (), pl') \<and>
     taken (acceptor_writer pl') = ''8=F'' @ soh @ ''10=188'' @ soh"
proof -
  let ?m = "empty_message\<lparr> m_fields := [field_string 8 ''F'', field_string 10 []] \<rparr>"
  let ?out = "''8=F'' @ soh @ ''10=188'' @ soh"
  have enc: "message_encode 20 encode_standard ?m =
      (Inr (11, ?out), empty_message\<lparr> m_fields := [field_string 8 ''F'', field_string 10 ''188''] \<rparr>)"
    by code_simp
  have ok: "wire_ok sample_dict [] (m_fields (empty_message\<lparr> m_fields := [field_string 8 ''F'', field_string 10 ''188''] \<rparr>))"
    by code_simp
  have w: "writer_ok (acceptor_writer sample_pipeline)" "sock_open (m_socket (acceptor_writer sample_pipeline))"
    "taken (acceptor_writer sample_pipeline) = []" "m_pending_buffer (acceptor_writer sample_pipeline) = []"
    by code_simp+
  have room: "11 \<le> buffer_size - length (m_pending_buffer (acceptor_writer sample_pipeline))"
    by (simp add: w(4) buffer_size_def)
  have log: "loggable default_fixsed_options (False \<or> False) m" for m by (simp add: loggable_def default_fixsed_options_def)
  have fs: "m_fields ?m = [field_string 8 ''F''] @ [field_string 10 []]" "m_tag (field_string 10 []) = CheckSum_Tag"
    "CheckSum_Tag \<notin> set (tags [field_string 8 ''F''])" "(11::nat) \<noteq> 0" by simp_all
  define d where "d = snd (message_decode sample_dict ?out empty_message)"
  have d: "message_decode sample_dict ?out empty_message = (fst (message_decode sample_dict ?out empty_message), d)"
    by (simp add: d_def)
  have "\<exists>pl'. process_message sample_dict (make_message_collection []) default_fixsed_options False False (\<lambda>m lua. ([], Inr (), m, lua))
       Initiator_side d sample_pipeline = (Inr (), pl') \<and>
     taken (acceptor_writer pl') = taken (acceptor_writer sample_pipeline) @ ?out \<and>
     initiator_writer pl' = initiator_writer sample_pipeline"
    by (rule identity_script_is_transparent[OF fs(1-3) enc fs(4) ok d _ log w(1,2) room]) simp
  then show ?thesis unfolding d_def w(3) append_Nil by blast
qed

theorem failed_script_drops_message_witness:
  "\<exists>t. process_message sample_dict (make_message_collection []) default_fixsed_options False False (\<lambda>m lua. ([], Inl ''nil'', m, lua))
     Acceptor_side empty_message sample_pipeline =
   (Inr (), sample_pipeline\<lparr> pl_lua := (), pl_log := [Log_info t, Log_error ''nil''] \<rparr>)"
proof -
  have "loggable default_fixsed_options (False \<or> False) empty_message" by (simp add: loggable_def default_fixsed_options_def)
  then show ?thesis
    using failed_script_drops_message[of "\<lambda>m lua. ([], Inl ''nil'', m, lua)" empty_message sample_pipeline "[]" "''nil''"
        empty_message "()" default_fixsed_options False False sample_dict "make_message_collection []" Acceptor_side]
    by (simp add: sample_pipeline_def)
qed

end
