(* ===== verification/Fixsed_Proxy.thy ===== *)
theory Fixsed_Proxy
  imports Fixsed_Pipeline Reader_Progress
begin

text \<open>
  \<open>fixsed/pipeline.cpp\<close>, \<open>pipeline::run\<close>, and \<open>fixsed/main.cpp\<close>: the proxy accepts an initiator, connects to the
  acceptor, loads the script and passes on what it reads on either side until a handler throws. The
  network, the resolver and the Lua interpreter are arguments. The io_context takes the completions of
  reads and writes on both sockets in any order.
\<close>

section \<open>Setting up\<close>

record ('l, 'ep) proxy_environment =
  listen_on :: "int option \<Rightarrow> exn + unit"
  accept_initiator :: "exn + string \<times> string"
  resolve :: "string \<Rightarrow> string \<Rightarrow> exn + 'ep"
  connect_acceptor :: "'ep \<Rightarrow> exn + string \<times> string"
  safe_script_file :: "string \<Rightarrow> exn + 'l"
  lua_function :: "'l \<Rightarrow> string \<Rightarrow> 'l script option"

definition port_text :: "int option \<Rightarrow> string" where
  "port_text port = (case port of None \<Rightarrow> [] | Some n \<Rightarrow> int_to_string n)"

definition address_text :: "string \<Rightarrow> string \<Rightarrow> string" where
  "address_text host port = ''['' @ host @ [colon] @ port @ '']''"

definition log_info :: "string \<Rightarrow> (log_entry list, unit) proc" where
  "log_info t = modifyP (\<lambda>log. log @ [Log_info t])"

definition find_function :: "('l, 'ep) proxy_environment \<Rightarrow> 'o fixsed_options \<Rightarrow> 'l \<Rightarrow> string \<Rightarrow> (log_entry list, 'l script) proc" where
  "find_function env opts lua name =
     (case lua_function env lua name of
        None \<Rightarrow> throwP (Runtime_error (''could not load '' @ name @ ''() function from script '' @ so_script opts))
      | Some f \<Rightarrow> returnP f)"

text \<open>The part of \<open>run\<close> before the connections to \<open>message_read\<close>: the interpreter and its two functions.\<close>

definition open_pipeline :: "('l, 'ep) proxy_environment \<Rightarrow> 'o fixsed_options \<Rightarrow> (log_entry list, 'l \<times> 'l script \<times> 'l script) proc" where
  "open_pipeline env opts =
     seqP (liftP (listen_on env (so_in_port opts)))
     (seqP (log_info (''waiting for initiator '' @
        address_text (case so_in_host opts of None \<Rightarrow> ''*'' | Some h \<Rightarrow> h) (port_text (so_in_port opts))))
     (bindP (liftP (accept_initiator env)) (\<lambda>(host, port).
      seqP (log_info (''accepted initiator '' @ address_text host port))
     (seqP (log_info (''resolving acceptor '' @ address_text (so_out_host opts) (port_text (so_out_port opts))))
     (bindP (liftP (resolve env (so_out_host opts) (port_text (so_out_port opts)))) (\<lambda>endpoints.
      seqP (log_info (''connecting to acceptor '' @ address_text (so_out_host opts) (port_text (so_out_port opts))))
     (bindP (liftP (connect_acceptor env endpoints)) (\<lambda>(host, port).
      seqP (log_info (''connected to acceptor '' @ address_text host port))
     (bindP (liftP (safe_script_file env (so_script opts))) (\<lambda>lua.
      bindP (find_function env opts lua ''initiator_read'') (\<lambda>initiator_read.
      bindP (find_function env opts lua ''acceptor_read'') (\<lambda>acceptor_read.
        returnP (lua, initiator_read, acceptor_read)))))))))))))"

section \<open>Passing on\<close>

record 'l proxy =
  the_pipeline :: "'l pipeline"
  initiator_reader :: socket_reader
  acceptor_reader :: socket_reader

fun reader_of :: "side \<Rightarrow> 'l proxy \<Rightarrow> socket_reader" where
  "reader_of Initiator_side x = initiator_reader x"
| "reader_of Acceptor_side x = acceptor_reader x"

fun set_reader :: "side \<Rightarrow> socket_reader \<Rightarrow> 'l proxy \<Rightarrow> 'l proxy" where
  "set_reader Initiator_side sr x = x\<lparr> initiator_reader := sr \<rparr>"
| "set_reader Acceptor_side sr x = x\<lparr> acceptor_reader := sr \<rparr>"

definition new_proxy :: "log_entry list \<Rightarrow> 'l \<Rightarrow> 'l proxy" where
  "new_proxy log lua = \<lparr> the_pipeline = \<lparr> pl_log = log, pl_lua = lua,
       acceptor_writer = make_socket_writer \<lparr> sock_open = True, sock_sent = [] \<rparr>,
       initiator_writer = make_socket_writer \<lparr> sock_open = True, sock_sent = [] \<rparr> \<rparr>,
     initiator_reader = make_socket_reader, acceptor_reader = make_socket_reader \<rparr>"

text \<open>The messages one read has dispatched, handed to \<open>process_message\<close> one by one.\<close>

fun process_messages :: "(message \<Rightarrow> ('l pipeline, unit) proc) \<Rightarrow> message list \<Rightarrow> ('l pipeline, unit) proc" where
  "process_messages process [] = returnP ()"
| "process_messages process (m # ms) = seqP (process m) (process_messages process ms)"

datatype proxy_event = Bytes_read side string | Write_completed side

text \<open>
  The handlers the io_context runs. \<open>process\<close> is \<open>process_message\<close> with the function of the script for
  the side a message came from. Where it throws, the reader's handler ends there.
\<close>

fun handle_proxy_event ::
  "orchestration_field_collection \<Rightarrow> (side \<Rightarrow> message \<Rightarrow> ('l pipeline, unit) proc) \<Rightarrow> proxy_event \<Rightarrow> ('l proxy, unit) proc" where
  "handle_proxy_event dict process (Bytes_read side bytes) = (\<lambda>x.
     (case on_read dict bytes (reader_of side x) of
        (r, sr) \<Rightarrow>
          (case process_messages (process side) (drop (length (dispatched (reader_of side x))) (dispatched sr)) (the_pipeline x) of
             (Inl e, pl) \<Rightarrow> (Inl e, set_reader side sr (x\<lparr> the_pipeline := pl \<rparr>))
           | (Inr _, pl) \<Rightarrow> (r, set_reader side sr (x\<lparr> the_pipeline := pl \<rparr>)))))"
| "handle_proxy_event dict process (Write_completed side) = (\<lambda>x.
     (let pl = the_pipeline x
      in case side of
           Acceptor_side \<Rightarrow>
             (if m_active_buffer (acceptor_writer pl) = [] then (Inr (), x)
              else case on_write_complete (acceptor_writer pl) of
                (r, sw) \<Rightarrow> (r, x\<lparr> the_pipeline := pl\<lparr> acceptor_writer := sw \<rparr> \<rparr>))
         | Initiator_side \<Rightarrow>
             (if m_active_buffer (initiator_writer pl) = [] then (Inr (), x)
              else case on_write_complete (initiator_writer pl) of
                (r, sw) \<Rightarrow> (r, x\<lparr> the_pipeline := pl\<lparr> initiator_writer := sw \<rparr> \<rparr>))))"

fun run_io :: "orchestration_field_collection \<Rightarrow> (side \<Rightarrow> message \<Rightarrow> ('l pipeline, unit) proc) \<Rightarrow> proxy_event list \<Rightarrow> ('l proxy, unit) proc" where
  "run_io dict process [] = returnP ()"
| "run_io dict process (ev # evs) = seqP (handle_proxy_event dict process ev) (run_io dict process evs)"

text \<open>\<open>process_message\<close> as the two connections to \<open>message_read\<close> call it.\<close>

fun process_from ::
  "orchestration_field_collection \<Rightarrow> message_collection \<Rightarrow> 'o fixsed_options \<Rightarrow> bool \<Rightarrow> bool \<Rightarrow> 'l script \<Rightarrow> 'l script \<Rightarrow>
   side \<Rightarrow> message \<Rightarrow> ('l pipeline, unit) proc" where
  "process_from dict messages opts p q initiator_read acceptor_read Initiator_side m =
     process_message dict messages opts p q initiator_read Initiator_side m"
| "process_from dict messages opts p q initiator_read acceptor_read Acceptor_side m =
     process_message dict messages opts p q acceptor_read Acceptor_side m"

text \<open>
  \<open>run\<close> on the events of the connection it makes: the log it leaves, and the proxy where the loop
  was entered. What a step throws is logged, undefined behaviour apart.
\<close>

definition pipeline_run ::
  "orchestration_field_collection \<Rightarrow> message_collection \<Rightarrow> ('l, 'ep) proxy_environment \<Rightarrow> 'o fixsed_options \<Rightarrow> bool \<Rightarrow> bool \<Rightarrow>
   proxy_event list \<Rightarrow> log_entry list \<times> 'l proxy option" where
  "pipeline_run dict messages env opts p q evs =
     (case open_pipeline env opts [] of
        (Inl e, log) \<Rightarrow> (log @ [Log_error (''error: '' @ what e)], None)
      | (Inr (lua, initiator_read, acceptor_read), log) \<Rightarrow>
          (case run_io dict (process_from dict messages opts p q initiator_read acceptor_read) evs (new_proxy log lua) of
             (Inl e, x) \<Rightarrow> (pl_log (the_pipeline x) @ [Log_error (''error: '' @ what e)], Some x)
           | (Inr _, x) \<Rightarrow> (pl_log (the_pipeline x), Some x)))"

section \<open>A script that changes nothing\<close>

definition identity_script :: "'l script \<Rightarrow> bool" where
  "identity_script f \<longleftrightarrow> (\<forall>m lua. \<exists>entries lua'. f m lua = (entries, Inr (), m, lua'))"

text \<open>The writer that messages from a side go to, and the other side.\<close>

fun destination :: "side \<Rightarrow> 'l pipeline \<Rightarrow> socket_writer" where
  "destination Initiator_side pl = acceptor_writer pl"
| "destination Acceptor_side pl = initiator_writer pl"

fun other_side :: "side \<Rightarrow> side" where
  "other_side Initiator_side = Acceptor_side"
| "other_side Acceptor_side = Initiator_side"

lemma other_side [simp]: "other_side (other_side s) = s" "other_side s \<noteq> s" "s \<noteq> other_side s"
  by (cases s; simp)+

lemma all_sides: "(\<forall>s. P s) \<longleftrightarrow> P s0 \<and> P (other_side s0)"
  by (metis other_side.simps side.exhaust)

lemma destination_write_returns:
  assumes "socket_writer_write m encode_standard (destination s pl) = (Inr m', sw)"
  obtains pl' where "destination_write s m pl = (Inr m', pl')" "destination s pl' = sw" "destination (other_side s) pl' = destination (other_side s) pl"
    "pl_lua pl' = pl_lua pl"
  using assms by (cases s) auto

definition can_log :: "'o fixsed_options \<Rightarrow> bool \<Rightarrow> field_collection \<Rightarrow> bool" where
  "can_log opts probes fs \<longleftrightarrow> loggable opts probes (empty_message\<lparr> m_fields := fs \<rparr>)"

text \<open>The writer is open and has room for a message of 692 bytes.\<close>

definition has_room :: "socket_writer \<Rightarrow> bool" where
  "has_room sw \<longleftrightarrow> writer_ok sw \<and> sock_open (m_socket sw)"

text \<open>A message that the script of its side accepts, and what then follows the bytes taken by the other side's writer.\<close>

lemma message_forwarded:
  assumes script: "f d (pl_lua pl) = (entries, Inr (), d', lua)" and log: "loggable opts (p \<or> q) d" "loggable opts (p \<or> q) d'"
    and enc: "message_encode (buffer_size - length (m_pending_buffer (destination s pl))) encode_standard d' = (Inr (n, out), m')" "n \<noteq> 0"
    and room: "has_room (destination s pl)"
  obtains pl' where "process_message dict messages opts p q f s d pl = (Inr (), pl')"
    "taken (destination s pl') = taken (destination s pl) @ out" "has_room (destination s pl')"
    "destination (other_side s) pl' = destination (other_side s) pl"
proof -
  obtain t where t: "\<And>pl :: 'a pipeline. log_message dict messages opts d pl = (Inr (), pl\<lparr> pl_log := pl_log pl @ [Log_info t] \<rparr>)"
    using log_message_returns[OF log(1)] by blast
  obtain t' where t': "\<And>pl :: 'a pipeline. log_message dict messages opts d' pl = (Inr (), pl\<lparr> pl_log := pl_log pl @ [Log_info t'] \<rparr>)"
    using log_message_returns[OF log(2)] by blast
  let ?pl = "pl\<lparr> pl_lua := lua, pl_log := pl_log pl @ Log_info t # entries @ [Log_info t'] \<rparr>"
  have d: "destination s ?pl = destination s pl" "destination (other_side s) ?pl = destination (other_side s) pl" by (cases s; simp)+
  let ?sw = "destination s pl"
  obtain sw where sw: "socket_writer_write d' encode_standard ?sw = (Inr m', sw)" "taken sw = taken ?sw @ out" "has_room sw"
    using write_returns[OF _ _ enc] room by (auto simp: has_room_def)
  from sw(1) obtain pl' where "destination_write s d' ?pl = (Inr m', pl')" "destination s pl' = sw"
    "destination (other_side s) pl' = destination (other_side s) pl"
    using destination_write_returns[of d' s ?pl m' sw] d by auto
  with script sw(2,3) show thesis
    by (intro that[of pl']) (simp_all add: process_message_def t t' probe_returns[OF log(1) disjI1] probe_returns[OF log(2) disjI2] call_script_def)
qed

lemma room_for: "has_room sw \<Longrightarrow> n \<le> 692 \<Longrightarrow> n \<le> buffer_size - length (m_pending_buffer sw)"
  by (auto simp: has_room_def writer_ok_def buffer_high_water_mark_def buffer_size_def)

lemma message_passed_on:
  assumes f: "identity_script f" "can_log opts (p \<or> q) (m_fields d)"
    and out: "encoded_text dict' encode_standard out (m_fields d)" "length out \<le> 692" "has_room (destination s pl)"
  obtains pl' where "process_message dict messages opts p q f s d pl = (Inr (), pl')"
    "taken (destination s pl') = taken (destination s pl) @ out" "has_room (destination s pl')"
    "destination (other_side s) pl' = destination (other_side s) pl"
proof -
  have l: "loggable opts (p \<or> q) d" using f(2) by (simp add: can_log_def loggable_def)
  obtain entries lua where e: "f d (pl_lua pl) = (entries, Inr (), d, lua)" using f(1) unfolding identity_script_def by blast
  note again = encoded_text_again[OF out(1) refl room_for[OF out(3,2)]]
  have "length out \<noteq> 0" using again(2) by simp
  from message_forwarded[where f = f and s = s, OF e l l again(1) this out(3)] that show thesis by blast
qed

section \<open>One direction\<close>

text \<open>
  What has still to come from a side: the messages \<open>outs\<close>, of whose bytes those in \<open>r\<close> have not been
  read yet.
\<close>

definition lane :: "orchestration_field_collection \<Rightarrow> (field_collection \<Rightarrow> bool) \<Rightarrow> string list \<Rightarrow> field_collection list \<Rightarrow> string \<Rightarrow> socket_reader \<Rightarrow> bool" where
  "lane dict ok outs fss r sr \<longleftrightarrow> list_all2 (encoded_text dict encode_standard) outs fss \<and> (\<forall>out \<in> set outs. length out \<le> 692) \<and>
     (\<forall>fs \<in> set fss. ok fs) \<and> reader_awaits dict fss r sr \<and> starved fss sr"

lemma messages_passed_on:
  assumes "identity_script f" "list_all2 (encoded_text dict' encode_standard) outs (map m_fields ds)" "\<forall>out \<in> set outs. length out \<le> 692"
    and "\<forall>d \<in> set ds. can_log opts (p \<or> q) (m_fields d)" "has_room (destination s pl)"
  shows "\<exists>pl'. process_messages (process_message dict messages opts p q f s) ds pl = (Inr (), pl') \<and>
    taken (destination s pl') = taken (destination s pl) @ concat outs \<and> has_room (destination s pl') \<and>
    destination (other_side s) pl' = destination (other_side s) pl"
  using assms(2-5)
proof (induction ds arbitrary: outs pl)
  case (Cons d ds)
  then obtain out outs' where o: "outs = out # outs'" "encoded_text dict' encode_standard out (m_fields d)"
    "list_all2 (encoded_text dict' encode_standard) outs' (map m_fields ds)" by (auto simp: list_all2_Cons2)
  have "can_log opts (p \<or> q) (m_fields d)" "length out \<le> 692" using Cons.prems(2,3) o(1) by simp_all
  then obtain pl1 where 1: "process_message dict messages opts p q f s d pl = (Inr (), pl1)"
    "taken (destination s pl1) = taken (destination s pl) @ out" "has_room (destination s pl1)"
    "destination (other_side s) pl1 = destination (other_side s) pl"
    using message_passed_on[OF assms(1) _ o(2) _ Cons.prems(4)] by metis
  from Cons.IH[OF o(3) _ _ 1(3)] Cons.prems(2,3) o(1) obtain pl' where
    "process_messages (process_message dict messages opts p q f s) ds pl1 = (Inr (), pl')"
    "taken (destination s pl') = taken (destination s pl1) @ concat outs'" "has_room (destination s pl')"
    "destination (other_side s) pl' = destination (other_side s) pl1" by auto
  with 1 o(1) show ?case by (intro exI[of _ pl']) (simp add: seqP_def bindP_def)
qed simp

text \<open>Both directions, with what has been read from each side still to be accounted for.\<close>

definition proxy_ok ::
  "orchestration_field_collection \<Rightarrow> (field_collection \<Rightarrow> bool) \<Rightarrow> (side \<Rightarrow> string list) \<Rightarrow> (side \<Rightarrow> field_collection list) \<Rightarrow> (side \<Rightarrow> string) \<Rightarrow> 'l proxy \<Rightarrow> bool" where
  "proxy_ok dict ok outs fss r x \<longleftrightarrow> (\<forall>s. lane dict ok (outs s) (fss s) (r s) (reader_of s x) \<and> has_room (destination s (the_pipeline x)))"

lemma reader_of_set [simp]:
  "reader_of s (set_reader s' sr x) = (if s = s' then sr else reader_of s x)" "the_pipeline (set_reader s' sr x) = the_pipeline x"
  "reader_of s (x\<lparr> the_pipeline := pl \<rparr>) = reader_of s x"
  by (cases s; cases s'; simp)+

lemma bytes_read_ok:
  assumes x: "proxy_ok dict (can_log opts (p \<or> q)) outs fss r x" "r s = bytes @ r'" and f: "identity_script fi" "identity_script fa"
  obtains now later fnow flater x' where
    "handle_proxy_event dict (process_from dict messages opts p q fi fa) (Bytes_read s bytes) x = (Inr (), x')"
    "outs s = now @ later" "fss s = fnow @ flater" "length fnow = length now"
    "taken (destination s (the_pipeline x')) = taken (destination s (the_pipeline x)) @ concat now"
    "taken (destination (other_side s) (the_pipeline x')) = taken (destination (other_side s) (the_pipeline x))"
    "proxy_ok dict (can_log opts (p \<or> q)) (outs(s := later)) (fss(s := flater)) (r(s := r')) x'"
proof -
  let ?f = "case s of Initiator_side \<Rightarrow> fi | Acceptor_side \<Rightarrow> fa"
  have id: "identity_script ?f" using f by (cases s) simp_all
  have pf: "process_from dict messages opts p q fi fa s = process_message dict messages opts p q ?f s" by (cases s) (auto simp: fun_eq_iff)
  have l: "lane dict (can_log opts (p \<or> q)) (outs s) (fss s) (bytes @ r') (reader_of s x)" and room: "has_room (destination s (the_pipeline x))"
    using x by (simp_all add: proxy_ok_def, metis)
  from l obtain sr ds flater where sr: "on_read dict bytes (reader_of s x) = (Inr (), sr)" "dispatched sr = dispatched (reader_of s x) @ ds"
    "fss s = map m_fields ds @ flater" "reader_awaits dict flater r' sr" "starved flater sr"
    unfolding lane_def by (elim conjE) (rule on_read_piece)
  from l sr(3) obtain now later where o: "outs s = now @ later" "list_all2 (encoded_text dict encode_standard) now (map m_fields ds)"
    "list_all2 (encoded_text dict encode_standard) later flater" by (auto simp: lane_def list_all2_append2)
  have "\<forall>out \<in> set now. length out \<le> 692" "\<forall>d \<in> set ds. can_log opts (p \<or> q) (m_fields d)"
    using l o(1) sr(3) by (simp_all add: lane_def)
  from messages_passed_on[OF id o(2) this room] obtain pl where
    pl: "process_messages (process_from dict messages opts p q fi fa s) ds (the_pipeline x) = (Inr (), pl)"
    "taken (destination s pl) = taken (destination s (the_pipeline x)) @ concat now" "has_room (destination s pl)"
    "destination (other_side s) pl = destination (other_side s) (the_pipeline x)"
    unfolding pf by metis
  let ?x = "set_reader s sr (x\<lparr> the_pipeline := pl \<rparr>)"
  have "handle_proxy_event dict (process_from dict messages opts p q fi fa) (Bytes_read s bytes) x = (Inr (), ?x)"
    using sr(1,2) pl(1) by simp
  moreover have "proxy_ok dict (can_log opts (p \<or> q)) (outs(s := later)) (fss(s := flater)) (r(s := r')) ?x"
    using x(1) l o(1,3) sr(3-5) pl(3,4) unfolding proxy_ok_def all_sides[of _ s] by (simp add: lane_def)
  ultimately show thesis
    using o(1,2) sr(3) pl(2,4) by (intro that[of _ now later "map m_fields ds" flater]) (auto dest: list_all2_lengthD)
qed

lemma write_completed_ok:
  assumes "proxy_ok dict ok outs fss r x"
  obtains x' where "handle_proxy_event dict process (Write_completed s) x = (Inr (), x')" "proxy_ok dict ok outs fss r x'"
    "\<And>s. taken (destination s (the_pipeline x')) = taken (destination s (the_pipeline x))"
proof -
  have step: "\<exists>sw'. on_write_complete sw = (Inr (), sw') \<and> has_room sw' \<and> taken sw' = taken sw" if "has_room sw" for sw
  proof -
    have "\<exists>sw'. on_write_complete sw = (Inr (), sw')" using that by (simp add: has_room_def on_write_complete_def Let_def)
    then obtain sw' where sw': "on_write_complete sw = (Inr (), sw')" by blast
    moreover have "has_room sw'"
      using that sw' by (auto simp: has_room_def on_write_complete_def Let_def writer_ok_def flush_pending_writes_def
        buffer_size_def buffer_high_water_mark_def split: if_splits)
    ultimately show ?thesis using taken_complete[OF sw'] by blast
  qed
  let ?pl = "the_pipeline x"
  have room: "has_room (acceptor_writer ?pl)" "has_room (initiator_writer ?pl)"
    using assms by (simp_all add: proxy_ok_def) (metis destination.simps)+
  have readers: "reader_of s' (x\<lparr> the_pipeline := pl \<rparr>) = reader_of s' x" for s' pl by simp
  show thesis
  proof (cases "(case s of Acceptor_side \<Rightarrow> m_active_buffer (acceptor_writer ?pl) | Initiator_side \<Rightarrow> m_active_buffer (initiator_writer ?pl)) = []")
    case True
    then show thesis using assms by (intro that[of x]) (cases s; simp)+
  next
    case False
    show thesis
    proof (cases s)
      case Acceptor_side
      obtain sw where sw: "on_write_complete (acceptor_writer ?pl) = (Inr (), sw)" "has_room sw" "taken sw = taken (acceptor_writer ?pl)"
        using step[OF room(1)] by blast
      show thesis
      proof (rule that[of "x\<lparr> the_pipeline := ?pl\<lparr> acceptor_writer := sw \<rparr> \<rparr>"])
        show "taken (destination s' (the_pipeline (x\<lparr> the_pipeline := ?pl\<lparr> acceptor_writer := sw \<rparr> \<rparr>))) = taken (destination s' ?pl)" for s'
          using sw(3) by (cases s') simp_all
        show "proxy_ok dict ok outs fss r (x\<lparr> the_pipeline := ?pl\<lparr> acceptor_writer := sw \<rparr> \<rparr>)"
          using assms sw(2) room unfolding proxy_ok_def all_sides[of _ Initiator_side] by simp
      qed (use sw(1) False Acceptor_side in simp)
    next
      case Initiator_side
      obtain sw where sw: "on_write_complete (initiator_writer ?pl) = (Inr (), sw)" "has_room sw" "taken sw = taken (initiator_writer ?pl)"
        using step[OF room(2)] by blast
      show thesis
      proof (rule that[of "x\<lparr> the_pipeline := ?pl\<lparr> initiator_writer := sw \<rparr> \<rparr>"])
        show "taken (destination s' (the_pipeline (x\<lparr> the_pipeline := ?pl\<lparr> initiator_writer := sw \<rparr> \<rparr>))) = taken (destination s' ?pl)" for s'
          using sw(3) by (cases s') simp_all
        show "proxy_ok dict ok outs fss r (x\<lparr> the_pipeline := ?pl\<lparr> initiator_writer := sw \<rparr> \<rparr>)"
          using assms sw(2) room unfolding proxy_ok_def all_sides[of _ Initiator_side] by simp
      qed (use sw(1) False Initiator_side in simp)
    qed
  qed
qed

text \<open>The bytes read from a side in a run.\<close>

fun bytes_from :: "side \<Rightarrow> proxy_event list \<Rightarrow> string" where
  "bytes_from s [] = []"
| "bytes_from s (Bytes_read s' bytes # evs) = (if s' = s then bytes else []) @ bytes_from s evs"
| "bytes_from s (Write_completed s' # evs) = bytes_from s evs"

lemma run_io_ok:
  assumes "proxy_ok dict (can_log opts (p \<or> q)) outs fss r x" "\<And>s. r s = bytes_from s evs @ r' s"
    and "identity_script fi" "identity_script fa"
  shows "\<exists>x' now later fnow flater. run_io dict (process_from dict messages opts p q fi fa) evs x = (Inr (), x') \<and>
    (\<forall>s. outs s = now s @ later s \<and> fss s = fnow s @ flater s \<and> length (fnow s) = length (now s) \<and>
       taken (destination s (the_pipeline x')) = taken (destination s (the_pipeline x)) @ concat (now s)) \<and>
    proxy_ok dict (can_log opts (p \<or> q)) later flater r' x'"
  using assms(1,2)
proof (induction evs arbitrary: outs fss r x)
  case Nil
  have "r = r'" using Nil.prems(2) by auto
  with Nil.prems(1) show ?case
    by (intro exI[of _ x] exI[of _ "\<lambda>_. []"] exI[of _ outs] exI[of _ "\<lambda>_. []"] exI[of _ fss]) simp
next
  case (Cons ev evs)
  let ?process = "process_from dict messages opts p q fi fa"
  show ?case
  proof (cases ev)
    case (Write_completed s)
    obtain x1 where x1: "handle_proxy_event dict ?process ev x = (Inr (), x1)" "proxy_ok dict (can_log opts (p \<or> q)) outs fss r x1"
      "\<And>s. taken (destination s (the_pipeline x1)) = taken (destination s (the_pipeline x))"
      using write_completed_ok[OF Cons.prems(1), of ?process s] unfolding Write_completed by metis
    have "\<And>s. r s = bytes_from s evs @ r' s" using Cons.prems(2) by (simp add: Write_completed)
    from Cons.IH[OF x1(2) this] x1(1,3) show ?thesis
      by (simp add: seqP_def bindP_def)
  next
    case (Bytes_read s bytes)
    have "r s = bytes @ (bytes_from s evs @ r' s)" using Cons.prems(2)[of s] by (simp add: Bytes_read)
    from bytes_read_ok[OF Cons.prems(1) this assms(3,4)] obtain now later fnow flater x1 where
      x1: "handle_proxy_event dict ?process ev x = (Inr (), x1)" "outs s = now @ later" "fss s = fnow @ flater" "length fnow = length now"
      "taken (destination s (the_pipeline x1)) = taken (destination s (the_pipeline x)) @ concat now"
      "taken (destination (other_side s) (the_pipeline x1)) = taken (destination (other_side s) (the_pipeline x))"
      "proxy_ok dict (can_log opts (p \<or> q)) (outs(s := later)) (fss(s := flater)) (r(s := bytes_from s evs @ r' s)) x1"
      unfolding Bytes_read by metis
    have "\<And>s'. (r(s := bytes_from s evs @ r' s)) s' = bytes_from s' evs @ r' s'"
      using Cons.prems(2) by (auto simp: Bytes_read)
    from Cons.IH[OF x1(7) this] obtain x' now' later' fnow' flater' where
      i: "run_io dict ?process evs x1 = (Inr (), x')"
      "\<And>t. (outs(s := later)) t = now' t @ later' t \<and> (fss(s := flater)) t = fnow' t @ flater' t \<and> length (fnow' t) = length (now' t) \<and>
         taken (destination t (the_pipeline x')) = taken (destination t (the_pipeline x1)) @ concat (now' t)"
      "proxy_ok dict (can_log opts (p \<or> q)) later' flater' r' x'" by blast
    have "\<forall>t. outs t = (now'(s := now @ now' s)) t @ later' t \<and> fss t = (fnow'(s := fnow @ fnow' s)) t @ flater' t \<and>
        length ((fnow'(s := fnow @ fnow' s)) t) = length ((now'(s := now @ now' s)) t) \<and>
        taken (destination t (the_pipeline x')) = taken (destination t (the_pipeline x)) @ concat ((now'(s := now @ now' s)) t)"
      unfolding all_sides[of _ s] using i(2)[of s] i(2)[of "other_side s"] x1(2-6) by simp
    with x1(1) i(1,3) show ?thesis
      by (intro exI[of _ x'] exI[of _ "now'(s := now @ now' s)"] exI[of _ later'] exI[of _ "fnow'(s := fnow @ fnow' s)"] exI[of _ flater'])
         (simp add: seqP_def bindP_def)
  qed
qed

lemma new_proxy_ok:
  assumes "\<And>s. list_all2 (encoded_text dict encode_standard) (outs s) (fss s)" "\<And>s. \<forall>out \<in> set (outs s). length out \<le> 692"
    and "\<And>s. \<forall>fs \<in> set (fss s). ok fs"
  shows "proxy_ok dict ok outs fss (\<lambda>s. concat (outs s)) (new_proxy log lua)" "taken (destination s (the_pipeline (new_proxy log lua))) = []"
proof -
  have lane: "lane dict ok (outs s) (fss s) (concat (outs s)) make_socket_reader" for s
  proof -
    have "outs s = map wire_text (fss s) \<and> (\<forall>fs \<in> set (fss s). wire_ok dict [] fs \<and> ends_message fs)"
      using assms(1)[of s] by (induction rule: list_all2_induct) (use encoded_text_wire in fastforce)+
    then show ?thesis using assms[of s] reader_awaits_start[of "fss s" dict] by (simp add: lane_def)
  qed
  have "reader_of s (new_proxy log lua) = make_socket_reader" "has_room (destination s (the_pipeline (new_proxy log lua)))" for s
    by (cases s; simp add: new_proxy_def has_room_def writer_ok_def make_socket_writer_def)+
  with lane show "proxy_ok dict ok outs fss (\<lambda>s. concat (outs s)) (new_proxy log lua)" by (simp add: proxy_ok_def)
  show "taken (destination s (the_pipeline (new_proxy log lua))) = []"
    by (cases s) (simp_all add: new_proxy_def taken_def make_socket_writer_def)
qed


text \<open>A script without one of the two functions ends \<open>run\<close> with an error in the log, before any message is read.\<close>

lemma missing_function_ends_run:
  assumes "listen_on env (so_in_port opts) = Inr ()" "accept_initiator env = Inr a"
    and "resolve env (so_out_host opts) (port_text (so_out_port opts)) = Inr eps" "connect_acceptor env eps = Inr b"
    and "safe_script_file env (so_script opts) = Inr lua" "lua_function env lua ''initiator_read'' = None"
  shows "\<exists>log. pipeline_run dict messages env opts p q evs =
    (log @ [Log_error (''error: could not load initiator_read() function from script '' @ so_script opts)], None)"
  using assms
  by (cases a, cases b) (simp add: pipeline_run_def open_pipeline_def find_function_def log_info_def seqP_def bindP_def)

section \<open>The main loop\<close>

text \<open>
  \<open>main\<close> of \<open>fixsed/main.cpp\<close>: it parses its options, sets up the log and then runs one pipeline after
  the other, without end. \<open>parsed\<close> is what \<open>options.parse\<close> yields and \<open>logging\<close> the outcome of
  \<open>initialise_logging\<close>; the result is the exit code, or the environments of the connections whose pipelines ran.
\<close>

definition fixsed_main ::
  "orchestration_field_collection \<Rightarrow> message_collection \<Rightarrow> exn + bool \<times> 'o fixsed_options \<Rightarrow> exn + unit \<Rightarrow> bool \<Rightarrow> bool \<Rightarrow>
   (('l, 'ep) proxy_environment \<times> proxy_event list) list \<Rightarrow> int + (log_entry list \<times> 'l proxy option) list" where
  "fixsed_main dict messages parsed logging p q connections =
     (case parsed of
        Inl e \<Rightarrow> Inl 1
      | Inr (ok, opts) \<Rightarrow>
          (if \<not> ok \<or> so_help opts then Inl 1
           else case logging of
             Inl e \<Rightarrow> Inl 1
           | Inr _ \<Rightarrow> Inr (map (\<lambda>(env, evs). pipeline_run dict messages env opts p q evs) connections)))"

section \<open>The properties at concrete messages\<close>

definition sample_environment :: "(unit, unit) proxy_environment" where
  "sample_environment = \<lparr> listen_on = (\<lambda>_. Inr ()), accept_initiator = Inr (''10.0.0.1'', ''5001''), resolve = (\<lambda>_ _. Inr ()),
     connect_acceptor = (\<lambda>_. Inr (''10.0.0.2'', ''8089'')), safe_script_file = (\<lambda>_. Inr ()), lua_function = (\<lambda>_ _. Some (\<lambda>m lua. ([], Inr (), m, lua))) \<rparr>"

abbreviation sample_text :: string where
  "sample_text \<equiv> ''8=F'' @ soh @ ''10=188'' @ soh"

lemma sample_encoded_standard: "encoded_text sample_dict encode_standard sample_text [field_string 8 ''F'', field_string 10 ''188'']"
proof -
  have enc: "message_encode 20 encode_standard (empty_message\<lparr> m_fields := [field_string 8 ''F''] @ [field_string 10 []] \<rparr>) =
      (Inr (11, sample_text), empty_message\<lparr> m_fields := [field_string 8 ''F'', field_string 10 ''188''] \<rparr>)" by code_simp
  have "wire_ok sample_dict [] [field_string 8 ''F'', field_string 10 ''188'']" by code_simp
  with enc show ?thesis
    unfolding encoded_text_def
    by (intro exI[of _ "empty_message\<lparr> m_fields := [field_string 8 ''F''] @ [field_string 10 []] \<rparr>"] exI[of _ "[field_string 8 ''F'']"]
        exI[of _ "field_string 10 []"] exI[of _ 20] exI[of _ 11] exI[of _ "empty_message\<lparr> m_fields := [field_string 8 ''F'', field_string 10 ''188''] \<rparr>"])
       (simp add: encode_standard_def set_checksum_def set_body_length_def set_begin_string_def set_msg_seq_num_def)
qed


end
