(* ===== verification/Dictionary_Api.thy ===== *)
theory Dictionary_Api
  imports Dictionary_Lookup Std_Stream
begin

text \<open>
  \<open>examples/dictionary_api/main.cpp\<close>: the tour of the dictionary's interface. What the generated dictionary
  provides (the class \<open>Side\<close> and its value \<open>Buy\<close>, the collections \<open>fields()\<close> and \<open>messages()\<close>) is a record of
  arguments; the standard output accepts what is printed.
\<close>

record generated_dictionary =
  Side_Buy :: field_value
  Side :: orchestration_field
  FIX_fields :: orchestration_field_collection
  FIX_messages :: message_collection

record console =
  cout :: string
  cerr :: string

definition bool_text :: "bool \<Rightarrow> string" where
  "bool_text b = (if b then ''true'' else ''false'')"

definition println :: "string \<Rightarrow> (console, unit) proc" where
  "println t = modifyP (\<lambda>c. c\<lparr> cout := cout c @ t @ newline \<rparr>)"

fun printlns :: "string list \<Rightarrow> (console, unit) proc" where
  "printlns [] = returnP ()"
| "printlns (t # ts) = seqP (println t) (printlns ts)"

definition print_field_value :: "field_value \<Rightarrow> (console, unit) proc" where
  "print_field_value buy = printlns [
     ''Reference an enumerated field value directly'',
     fv_name buy @ '' = '' @ fv_value buy]"

definition print_field :: "orchestration_field \<Rightarrow> (console, unit) proc" where
  "print_field side = printlns [
     ''Display a field'' @ [CHR 0x27] @ ''s properties'',
     of_name side,
     ''{'',
     ''    Tag      = '' @ int_to_string (of_tag side),
     ''    Type     = '' @ of_type side,
     ''    Added    = '' @ added (of_pedigree side),
     ''    Synopsis = '' @ of_synopsis side,
     ''}'' @ newline]"

definition print_field_values :: "orchestration_field \<Rightarrow> (console, unit) proc" where
  "print_field_values side = printlns (
     [''Iterate over all enumerated values for a field'' @ newline, of_name side, ''{''] @
     map (\<lambda>v. ''    '' @ fv_value v @ '' - '' @ fv_name v) (of_values side) @
     [''}'' @ newline])"

definition print_lookups :: "orchestration_field_collection \<Rightarrow> (console, unit) proc" where
  "print_lookups fs =
     seqP (bindP (liftP (field_at fs 0)) (\<lambda>f. println (''Is 0 a valid field tag? '' @ bool_text (orchestration_field_is_valid f))))
    (seqP (bindP (liftP (field_at fs 54)) (\<lambda>f. println (''Is 54 a valid field tag? '' @ bool_text (orchestration_field_is_valid f))))
    (seqP (printlns [
       ''What is the name of field with tag 100? '' @ name_of_field fs 100,
       ''What is the name of field with tag 99999? '' @ name_of_field fs 99999,
       ''What is the name of enumerated field value G for field tag 18? '' @ name_of_value fs 18 ''G'',
       ''What is the name of enumerated field value 1 for field tag 99999? '' @ name_of_value fs 999999 ''1''])
     (bindP (liftP (field_named fs ''OrdStatus'')) (\<lambda>f.
       println (''tag of field with name '' @ [CHR 0x27] @ ''OrdStatus'' @ [CHR 0x27] @ '' is '' @ int_to_string (of_tag f))))))"

definition print_message :: "dictionary_message \<Rightarrow> (console, unit) proc" where
  "print_message m = printlns [
     dm_name m,
     ''{'',
     ''    MsgType  = '' @ dm_msg_type m,
     ''    Category = '' @ dm_category m,
     ''    Added    = '' @ added (dm_pedigree m),
     ''    Synopsis = '' @ dm_synopsis m,
     ''}'' @ newline]"

text \<open>\<open>operator[]\<close> with an index is the unchecked one of the vector.\<close>

definition message_at :: "message_collection \<Rightarrow> nat \<Rightarrow> exn + dictionary_message" where
  "message_at ms i =
     (if i < length (m_messages ms) then Inr (m_messages ms ! i) else Inl (Undefined_behaviour ''index beyond the end of a vector''))"

definition print_message_fields :: "dictionary_message \<Rightarrow> (console, unit) proc" where
  "print_message_fields m = printlns (
     [dm_name m @ '' has '' @ nat_to_string (length (dm_fields m)) @ '' fields defined'' @ newline,
      dm_name m @ '' Fields'' @ newline @ ''{''] @
     map (\<lambda>f. ''     '' @ of_name (mf_field f)) (dm_fields m) @
     [''}'' @ newline])"

definition print_messages :: "message_collection \<Rightarrow> (console, unit) proc" where
  "print_messages ms = printlns (
     [''FIX 5.0 SP2 Messages'', ''{''] @
     map (\<lambda>m. ''     '' @ dm_msg_type m @ '' - '' @ dm_name m) (m_messages ms) @
     [''}'' @ newline])"

definition print_dictionary :: "generated_dictionary \<Rightarrow> (console, unit) proc" where
  "print_dictionary d =
     seqP (print_field_value (Side_Buy d))
    (seqP (print_field (Side d))
    (seqP (print_field_values (Side d))
    (seqP (print_lookups (FIX_fields d))
    (seqP (printlns [
       ''FIX_5_0SP2 has '' @ nat_to_string (length (m_messages (FIX_messages d))) @ '' messages defined'' @ newline,
       ''Lookup a message by index in the messages() collection'' @ newline])
    (bindP (liftP (message_at (FIX_messages d) 0)) (\<lambda>heartbeat.
     seqP (print_message heartbeat)
    (seqP (println (''Lookup a message by MsgType in the messages() collection'' @ newline))
    (bindP (liftP (message_of_type (FIX_messages d) ''8'')) (\<lambda>executionReport.
     seqP (print_message executionReport)
    (seqP (print_message_fields heartbeat)
    (seqP (println (''Lookup the name of a message via it'' @ [CHR 0x27] @ ''s MsgType A = '' @ name_of_message (FIX_messages d) ''A'' @ newline))
          (print_messages (FIX_messages d)))))))))))))"

text \<open>\<open>main\<close>; the result is the exit code.\<close>

definition dictionary_api_main :: "generated_dictionary \<Rightarrow> (console, int) proc" where
  "dictionary_api_main d = (\<lambda>c.
     (case print_dictionary d c of
        (Inr _, c') \<Rightarrow> (Inr 0, c')
      | (Inl e, c') \<Rightarrow> (if is_undefined e then (Inl e, c') else (Inr 1, c'\<lparr> cerr := cerr c' @ what e @ newline \<rparr>))))"

section \<open>What the tour prints\<close>

lemma println_apply [simp]: "println t c = (Inr (), c\<lparr> cout := cout c @ t @ newline \<rparr>)"
  by (simp add: println_def)

definition printed :: "string list \<Rightarrow> string" where
  "printed ts = concat (map (\<lambda>t. t @ newline) ts)"

lemma printed_simps [simp]: "printed [] = []" "printed (t # ts) = t @ newline @ printed ts" "printed (ts @ us) = printed ts @ printed us"
  by (simp_all add: printed_def)

lemma printlns_apply [simp]: "printlns ts c = (Inr (), c\<lparr> cout := cout c @ printed ts \<rparr>)"
  by (induction ts arbitrary: c) simp_all

lemmas tour_parts = print_field_value_def print_field_def print_field_values_def print_message_def print_message_fields_def print_messages_def

text \<open>What is looked up by number, tag and name.\<close>

definition lookup_lines :: "orchestration_field_collection \<Rightarrow> orchestration_field \<Rightarrow> orchestration_field \<Rightarrow> orchestration_field \<Rightarrow> string list" where
  "lookup_lines fs zero side ord_status =
     [''Is 0 a valid field tag? '' @ bool_text (orchestration_field_is_valid zero),
      ''Is 54 a valid field tag? '' @ bool_text (orchestration_field_is_valid side),
      ''What is the name of field with tag 100? '' @ name_of_field fs 100,
      ''What is the name of field with tag 99999? '' @ name_of_field fs 99999,
      ''What is the name of enumerated field value G for field tag 18? '' @ name_of_value fs 18 ''G'',
      ''What is the name of enumerated field value 1 for field tag 99999? '' @ name_of_value fs 999999 ''1'',
      ''tag of field with name '' @ [CHR 0x27] @ ''OrdStatus'' @ [CHR 0x27] @ '' is '' @ int_to_string (of_tag ord_status)]"

lemma print_lookups_succeeds:
  assumes "field_at fs 0 = Inr zero" "field_at fs 54 = Inr side" "field_named fs ''OrdStatus'' = Inr ord_status"
  shows "print_lookups fs c = (Inr (), c\<lparr> cout := cout c @ printed (lookup_lines fs zero side ord_status) \<rparr>)"
  using assms by (simp add: print_lookups_def lookup_lines_def)

lemma print_lookups_fails:
  assumes "field_at fs 0 = Inr zero" "field_at fs 54 = Inr side" "field_named fs ''OrdStatus'' = Inl e"
  shows "\<exists>c'. print_lookups fs c = (Inl e, c') \<and> cerr c' = cerr c"
  using assms by (simp add: print_lookups_def)

text \<open>\<open>m\<close> prints \<open>t\<close> and nothing else happens.\<close>

definition prints :: "(console, unit) proc \<Rightarrow> string \<Rightarrow> bool" where
  "prints m t \<longleftrightarrow> (\<forall>c. m c = (Inr (), c\<lparr> cout := cout c @ t \<rparr>))"

lemma prints_seq: "prints m s \<Longrightarrow> prints n t \<Longrightarrow> prints (seqP m n) (s @ t)"
  by (simp add: prints_def)

lemma prints_bind: "x = Inr y \<Longrightarrow> prints (f y) t \<Longrightarrow> prints (bindP (liftP x) f) t"
  by (simp add: prints_def)

lemma prints_line: "prints (println t) (t @ newline)"
  by (simp add: prints_def)

lemma prints_lines: "prints (printlns ts) (printed ts)"
  by (simp add: prints_def)

lemmas prints_intros = prints_seq prints_line prints_lines

lemma print_dictionary_succeeds:
  assumes "field_at (FIX_fields d) 0 = Inr zero" "field_at (FIX_fields d) 54 = Inr side"
    and "field_named (FIX_fields d) ''OrdStatus'' = Inr ord_status"
    and "m_messages (FIX_messages d) = heartbeat # ms" "message_of_type (FIX_messages d) ''8'' = Inr executionReport"
  shows "\<exists>before after. prints (print_dictionary d)
    (before @ printed (lookup_lines (FIX_fields d) zero side ord_status) @ after)"
proof -
  have "prints (print_lookups (FIX_fields d)) (printed (lookup_lines (FIX_fields d) zero side ord_status))"
    using print_lookups_succeeds[OF assms(1-3)] by (simp add: prints_def)
  moreover have "message_at (FIX_messages d) 0 = Inr heartbeat" using assms(4) by (simp add: message_at_def)
  ultimately have "\<exists>a b c e. prints (print_dictionary d) (a @ b @ c @ printed (lookup_lines (FIX_fields d) zero side ord_status) @ e)"
    unfolding print_dictionary_def tour_parts by (intro exI) (rule prints_intros prints_bind assms(5) | assumption)+
  then show ?thesis by (metis append.assoc)
qed

text \<open>A generated table: the entry 0 is the dummy, a name leads to the first field that has it.\<close>

lemma map_of_emplace_all: "map_of (emplace_all m kvs) k = (case map_of m k of None \<Rightarrow> map_of kvs k | Some v \<Rightarrow> Some v)"
  by (induction m kvs rule: emplace_all.induct) (auto simp: map_add_def split: option.splits)

lemma generated_field_named:
  assumes "f \<in> set (dummy # take field_limit fs)"
  shows "\<exists>g. field_named (generated_fields dummy fs) (of_name f) = Inr g \<and> of_name g = of_name f"
proof -
  have "\<exists>h. map_of (map (\<lambda>f. (of_name f, f)) gs) (of_name g) = Some h \<and> of_name h = of_name g" if "g \<in> set gs" for g gs
    using that by (induction gs) auto
  from this[OF assms] obtain g where "map_of (map (\<lambda>f. (of_name f, f)) (dummy # take field_limit fs)) (of_name f) = Some g" "of_name g = of_name f"
    by blast
  then have "field_named (generated_fields dummy fs) (of_name f) = Inr g"
    by (simp only: field_named_def generated_fields_def generate_field_list_def map_of_emplace_all orchestration_field_collection.select_convs map_of.simps(1) option.case)
  with \<open>of_name g = of_name f\<close> show ?thesis by blast
qed

lemma message_of_type_present:
  assumes "\<exists>m \<in> set ms. dm_msg_type m = t"
  shows "\<exists>m. message_of_type (make_message_collection ms) t = Inr m"
proof -
  have "foldl (\<lambda>t m. t(dm_msg_type m \<mapsto> m)) tab ms t \<noteq> None" if "tab t \<noteq> None \<or> (\<exists>m \<in> set ms. dm_msg_type m = t)" for tab
    using that by (induction ms arbitrary: tab) auto
  from this[of "\<lambda>_. None"] show ?thesis
    using assms by (auto simp: message_of_type_def make_message_collection_def)
qed

text \<open>
  On a generated dictionary the tour comes to its end. When the fields are in ascending tag order and
  \<open>Side\<close> and \<open>OrdStatus\<close> are among the first 3001, and the messages include one of type 8, the program returns 0
  and reports nothing as an error; it prints that 0 is not the tag of a field, that 54 is, no name for the tag
  99999, and a tag for \<open>OrdStatus\<close>.
\<close>

theorem dictionary_tour_completes:
  assumes asc: "sorted_wrt (<) (map of_tag fs)" "\<forall>f \<in> set fs. 0 < of_tag f \<and> of_tag f \<le> 65535" "length fs < 65536"
    and gen: "FIX_fields d = generated_fields dummy fs" "of_tag dummy = 0"
    and side: "f \<in> set (take field_limit fs)" "of_tag f = 54" and ord: "g \<in> set (take field_limit fs)" "of_name g = ''OrdStatus''"
    and ms: "FIX_messages d = make_message_collection ms" "\<exists>m \<in> set ms. dm_msg_type m = ''8''"
  shows "\<exists>before after ord_status. of_name ord_status = ''OrdStatus'' \<and>
    dictionary_api_main d c = (Inr 0, c\<lparr> cout := cout c @ before @ printed (lookup_lines (FIX_fields d) dummy f ord_status) @ after \<rparr>) \<and>
    lookup_lines (FIX_fields d) dummy f ord_status ! 0 = ''Is 0 a valid field tag? false'' \<and>
    lookup_lines (FIX_fields d) dummy f ord_status ! 1 = ''Is 54 a valid field tag? true'' \<and>
    lookup_lines (FIX_fields d) dummy f ord_status ! 3 = ''What is the name of field with tag 99999? ''"
proof -
  note len = generated_offsets_length[OF asc(1,2)]
  obtain i where i: "i < length fs" "i < field_limit" "f = fs ! i" using side(1) by (auto simp: in_set_conv_nth)
  then have f: "find_field (FIX_fields d) 54 = Some f"
    using generated_field_found[OF asc i(1), of dummy] gen(1) side(2) by simp
  have "fs \<noteq> []" using i by auto
  note len = len[OF this]
  have "0 \<notin> of_tag ` set fs" using asc(2) by force
  then have z: "find_field (FIX_fields d) 0 = Some dummy"
    using generated_tag_unused[OF asc(1,2), of 0 dummy] \<open>fs \<noteq> []\<close> len gen(1) by simp
  have "\<not> 99998 < nat (of_tag (last fs))" using len(2) by simp
  then have "find_field (FIX_fields d) 99999 = None" using len(1) gen(1) by (simp add: find_field_def)
  note z = z this
  from f z have fa: "field_at (FIX_fields d) 0 = Inr dummy" "field_at (FIX_fields d) 54 = Inr f" and n: "name_of_field (FIX_fields d) 99999 = []"
    by (simp_all add: field_at_def name_of_field_def)
  obtain os where os: "field_named (FIX_fields d) ''OrdStatus'' = Inr os" "of_name os = ''OrdStatus''"
    using generated_field_named[of g dummy fs] ord gen(1) by auto
  obtain m0 ms' where m0: "m_messages (FIX_messages d) = m0 # ms'" using ms by (cases ms) (auto simp: make_message_collection_def)
  obtain er where er: "message_of_type (FIX_messages d) ''8'' = Inr er"
    using ms message_of_type_present[of ms "''8''"] by auto
  from print_dictionary_succeeds[OF fa os(1) m0 er] obtain before after
    where "prints (print_dictionary d) (before @ printed (lookup_lines (FIX_fields d) dummy f os) @ after)" by blast
  then show ?thesis
    using os(2) side(2) gen(2) n
    by (intro exI[of _ before] exI[of _ after] exI[of _ os])
       (simp add: dictionary_api_main_def prints_def lookup_lines_def orchestration_field_is_valid_def bool_text_def)
qed

text \<open>A small dictionary.\<close>

definition sample_message :: dictionary_message where
  "sample_message = \<lparr> dm_name = ''ExecutionReport'', dm_msg_type = ''8'', dm_category = ''SingleGeneralOrderHandling'', dm_synopsis = [],
     dm_pedigree = of_pedigree (tagged_field 54), dm_fields = [] \<rparr>"

definition sample_generated :: generated_dictionary where
  "sample_generated =
     \<lparr> Side_Buy = \<lparr> fv_name = ''Buy'', fv_value = ''1'' \<rparr>, Side = tagged_field 54,
       FIX_fields = generated_fields (tagged_field 0) [(tagged_field 39)\<lparr> of_name := ''OrdStatus'' \<rparr>, tagged_field 54],
       FIX_messages = make_message_collection [sample_message] \<rparr>"

theorem dictionary_tour_completes_witness:
  "\<exists>t. dictionary_api_main sample_generated \<lparr> cout = [], cerr = [] \<rparr> = (Inr 0, \<lparr> cout = t, cerr = [] \<rparr>)"
proof -
  have "of_tag (tagged_field t) = t" for t by (simp add: tagged_field_def)
  then show ?thesis
    using dictionary_tour_completes[where d = sample_generated and dummy = "tagged_field 0" and f = "tagged_field 54" and
        fs = "[(tagged_field 39)\<lparr> of_name := ''OrdStatus'' \<rparr>, tagged_field 54]" and g = "(tagged_field 39)\<lparr> of_name := ''OrdStatus'' \<rparr>" and
        ms = "[sample_message]" and c = "\<lparr> cout = [], cerr = [] \<rparr>"]
    by (auto simp: sample_generated_def sample_message_def field_limit_def)
qed

end
