(* ===== verification/Python_Binding.thy ===== *)
theory Python_Binding
  imports Socket_Session
begin

text \<open>
  \<open>libcrocofixpython\<close>: what the binding adds to the classes it declares to Python. \<open>encode\<close> of
  \<open>message.cpp\<close> encodes into a buffer that grows until the text fits; \<open>session_proxy\<close> of \<open>session.cpp\<close> and
  \<open>Reader\<close> of \<open>reader.hpp\<close> pass the signals on to functions a Python program may set; \<open>Writer\<close>,
  \<open>Scheduler\<close> and \<open>Reader\<close> call methods a Python class may define. The declarations themselves have no
  logic.
\<close>

section \<open>Encoding without a bound\<close>

text \<open>The buffer is as large as memory allows, so a call that would need more and more of it does not return: \<open>None\<close>.\<close>

partial_function (option) encode_growing :: "nat \<Rightarrow> int \<Rightarrow> message \<Rightarrow> ((exn + string) \<times> message) option" where
  "encode_growing room options m =
     (case message_encode room options m of
        (Inl e, m') \<Rightarrow> Some (Inl e, m')
      | (Inr (result, text), m') \<Rightarrow>
          (if result = 0 then encode_growing (room + room div 2) options m' else Some (Inr text, m')))"

definition python_encode :: "int \<Rightarrow> message \<Rightarrow> ((exn + string) \<times> message) option" where
  "python_encode options m = encode_growing 1024 options m"

definition python_repr :: "message \<Rightarrow> ((exn + string) \<times> message) option" where
  "python_repr m = python_encode encode_none m"

text \<open>An attempt with a buffer that is too small leaves a message that is encoded to the same text.\<close>

lemma encode_too_small:
  assumes fields: "with_body_length options m = pre @ [cs]" "m_tag cs = CheckSum_Tag" "CheckSum_Tag \<notin> set (tags pre)"
    and opt: "options AND set_checksum \<noteq> 0"
    and ascii: "\<forall>c \<in> set (wire_text pre). (of_char c :: nat) < 128"
    and small: "cap < length (wire_text pre) + 7"
  obtains c where "message_encode cap options m = (Inr (0, []), m\<lparr> m_fields := pre @ [c] \<rparr>)" "m_tag c = CheckSum_Tag"
    "with_body_length options (m\<lparr> m_fields := pre @ [c] \<rparr>) = pre @ [c]"
proof -
  let ?t = "zero_pad 3 (nat_to_string (byte_sum (wire_text pre) mod 256))"
  have fmt: "format_checksum (calculate_checksum (wire_text pre)) = Inr ?t"
    using ascii_signed_sum[OF ascii] by (simp add: calculate_checksum_nonneg format_checksum_small)
  have len: "length (field_text (field_string CheckSum_Tag ?t)) = 7" by (rule checksum_text_length)
  have pre: "\<not> (\<exists>x \<in> set pre. m_tag x = CheckSum_Tag)" using fields(3) by auto
  have rep: "fc_replace (field_string CheckSum_Tag v) (pre @ [cs]) = pre @ [field_string CheckSum_Tag v]" for v
    using pre fields(2) by (simp add: fc_set_Replace_first_conv replace_first_snoc)
  have settled: "with_body_length options (m\<lparr> m_fields := pre @ [field_string CheckSum_Tag v] \<rparr>) = pre @ [field_string CheckSum_Tag v]" for v
    using body_length_settled[of "m\<lparr> m_fields := pre @ [field_string CheckSum_Tag v] \<rparr>" v options m] rep fields(1) by simp
  have cs: "cs = field_string CheckSum_Tag (m_value cs)" using fields(2) by (simp add: field_string_def)
  show thesis
  proof (cases "length (wire_text pre) \<le> cap")
    case True
    then have "encode_loop cap options (pre @ [cs]) [] (pre @ [cs]) = (Inr None, pre @ [field_string CheckSum_Tag ?t])"
      using encode_loop_checksum[OF fields(3,2) opt, of "pre @ [cs]" cap "[]"] fields(2) fmt len rep small by (simp add: encode_field_conv)
    then show thesis
      using fields(1) settled by (intro that[of "field_string CheckSum_Tag ?t"]) (simp_all add: message_encode_def)
  next
    case False
    then have "encode_loop cap options (pre @ [cs]) [] (pre @ [cs]) = (Inr None, pre @ [cs])"
      using encode_loop_checksum[OF fields(3,2) opt, of "pre @ [cs]" cap "[]"] fields(2) by simp
    then show thesis
      using fields(1,2) settled[of "m_value cs", folded cs] by (intro that[of cs]) (simp_all add: message_encode_def)
  qed
qed

lemma encode_growing_returns:
  assumes "with_body_length options m = pre @ [cs]" "m_tag cs = CheckSum_Tag" "CheckSum_Tag \<notin> set (tags pre)"
    and "options AND set_checksum \<noteq> 0" "\<forall>c \<in> set (wire_text pre). (of_char c :: nat) < 128" "2 \<le> room"
  shows "let cf = field_string CheckSum_Tag (zero_pad 3 (nat_to_string (byte_sum (wire_text pre) mod 256)))
         in encode_growing room options m = Some (Inr (wire_text (pre @ [cf])), m\<lparr> m_fields := pre @ [cf] \<rparr>)"
  using assms
proof (induction "length (wire_text pre) + 7 - room" arbitrary: room m cs rule: less_induct)
  case less
  show ?case
  proof (cases "length (wire_text pre) + 7 \<le> room")
    case True
    from encode_succeeds[OF less.prems(1-5) this] show ?thesis
      by (subst encode_growing.simps) (auto simp: Let_def)
  next
    case False
    then have "room < length (wire_text pre) + 7" by simp
    from encode_too_small[OF less.prems(1-5) this] obtain c where
      c: "message_encode room options m = (Inr (0, []), m\<lparr> m_fields := pre @ [c] \<rparr>)" "m_tag c = CheckSum_Tag"
        "with_body_length options (m\<lparr> m_fields := pre @ [c] \<rparr>) = pre @ [c]" by blast
    have g: "2 \<le> room + room div 2" "length (wire_text pre) + 7 - (room + room div 2) < length (wire_text pre) + 7 - room"
      using less.prems(6) False by simp_all
    from less.hyps[OF g(2) c(3,2) less.prems(3-5) g(1)] show ?thesis
      using c(1) by (subst encode_growing.simps) (simp add: Let_def)
  qed
qed

lemma encode_growing_plain:
  assumes "m_fields m \<noteq> []" "2 \<le> room"
  shows "encode_growing room encode_none m = Some (Inr (wire_text (m_fields m)), m)"
  using assms
proof (induction "length (wire_text (m_fields m)) - room" arbitrary: room rule: less_induct)
  case less
  have "encode_loop room encode_none (m_fields m) [] (m_fields m) =
      (if length (wire_text (m_fields m)) \<le> room then (Inr (Some (wire_text (m_fields m))), m_fields m) else (Inr None, m_fields m))"
    using encode_loop_plain[of "m_fields m" encode_none "[]" room "[]" "m_fields m"] by (simp add: encode_none_def)
  then have e: "message_encode room encode_none m =
      (if length (wire_text (m_fields m)) \<le> room then (Inr (length (wire_text (m_fields m)), wire_text (m_fields m)), m) else (Inr (0, []), m))"
    by (simp add: message_encode_def encode_none_def Let_def)
  show ?case
  proof (cases "length (wire_text (m_fields m)) \<le> room")
    case True
    have "wire_text (m_fields m) \<noteq> []" using less.prems(1) by (cases "m_fields m") simp_all
    then show ?thesis using e True by (subst encode_growing.simps) simp
  next
    case False
    with less.hyps[of "room + room div 2"] less.prems e show ?thesis by (subst encode_growing.simps) auto
  qed
qed


text \<open>
  A message without fields has no text, which \<open>encode\<close> of the binding takes for a buffer that is too
  small: neither \<open>encode\<close> nor \<open>repr\<close> of a new message ever returns.
\<close>

theorem empty_message_never_encoded: "m_fields m = [] \<Longrightarrow> python_encode options m = None"
proof -
  have "m_fields m \<noteq> []" if "encode_growing room options m = Some r" for room options m r
  proof (rule encode_growing.raw_induct[where P = "\<lambda>room options m r. m_fields m \<noteq> []", OF _ that], goal_cases)
    case (1 encode room options m r)
    show ?case
    proof
      assume e: "m_fields m = []"
      then have "message_encode room options m = (Inr (0, []), m)" by (simp add: message_encode_def fc_set_u32_def fc_set_string_def fc_set_def)
      with 1(2) have "encode (room + room div 2) options m = Some r" by simp
      from 1(1)[OF this] e show False by simp
    qed
  qed
  then show "m_fields m = [] \<Longrightarrow> python_encode options m = None" unfolding python_encode_def by (meson not_None_eq)
qed


section \<open>A session of a Python program\<close>

text \<open>
  The functions a program may set on a session and on a reader, on the state \<open>'p\<close> of the program. They
  return, and do not call the session.
\<close>

record 'p callbacks =
  information_callback :: "(string \<Rightarrow> 'p \<Rightarrow> 'p) option"
  warning_callback :: "(string \<Rightarrow> 'p \<Rightarrow> 'p) option"
  error_callback :: "(string \<Rightarrow> 'p \<Rightarrow> 'p) option"
  state_changed_callback :: "(session_state \<Rightarrow> session_state \<Rightarrow> 'p \<Rightarrow> 'p) option"
  message_sent_callback :: "(message \<Rightarrow> 'p \<Rightarrow> 'p) option"
  message_received_callback :: "(message \<Rightarrow> 'p \<Rightarrow> 'p) option"

definition if_set :: "'f option \<Rightarrow> ('f \<Rightarrow> 'p \<Rightarrow> 'p) \<Rightarrow> 'p \<Rightarrow> 'p" where
  "if_set callback call = (case callback of None \<Rightarrow> id | Some f \<Rightarrow> call f)"

text \<open>The functions \<open>session_proxy\<close> connects to the signals.\<close>

fun session_proxy :: "'p callbacks \<Rightarrow> signal \<Rightarrow> 'p \<Rightarrow> 'p" where
  "session_proxy cb (Information t) = if_set (information_callback cb) (\<lambda>f. f t)"
| "session_proxy cb (Warning t) = if_set (warning_callback cb) (\<lambda>f. f t)"
| "session_proxy cb (Error t) = if_set (error_callback cb) (\<lambda>f. f t)"
| "session_proxy cb (State_changed previous current) = if_set (state_changed_callback cb) (\<lambda>f. f previous current)"
| "session_proxy cb (Message_sent m) = if_set (message_sent_callback cb) (\<lambda>f. f m)"
| "session_proxy cb (Message_received m) = if_set (message_received_callback cb) (\<lambda>f. f m)"

text \<open>A method of the session, called from Python.\<close>

definition proxied :: "'p callbacks \<Rightarrow> ('e, 'a) action \<Rightarrow> ('e world \<times> 'p, 'a) proc" where
  "proxied cb act = (\<lambda>(w, p).
     (case act w of (r, w') \<Rightarrow> (r, w', fold (session_proxy cb) (drop (length (emitted w)) (emitted w')) p)))"

text \<open>
  \<open>dispatch_message_read\<close> of a \<open>Reader\<close>: the functions connected to \<open>message_read\<close> are called in the order in
  which they were connected, that of the reader first and that of the session then.
\<close>

definition python_dispatch_message_read ::
  "(message \<Rightarrow> 'p \<Rightarrow> message \<times> 'p) option \<Rightarrow> 'p callbacks \<Rightarrow> 'e links \<Rightarrow> message \<Rightarrow> ('e world \<times> 'p, unit) proc" where
  "python_dispatch_message_read message_read_callback cb io m = (\<lambda>(w, p).
     (case (case message_read_callback of None \<Rightarrow> (m, p) | Some f \<Rightarrow> f m p) of
        (m', p') \<Rightarrow> proxied cb (on_message_read io m') (w, p')))"

text \<open>
  The methods of the Python classes. Calling one that the class does not define throws:
  that is what \<open>PYBIND11_OVERRIDE_PURE\<close> does.
\<close>

definition override_pure :: "string \<Rightarrow> ('e \<Rightarrow> (exn + 'a) \<times> 'c) option \<Rightarrow> ('e \<Rightarrow> 'c) \<Rightarrow> 'e \<Rightarrow> (exn + 'a) \<times> 'c" where
  "override_pure name f untouched e =
     (case f of
        None \<Rightarrow> (Inl (Runtime_error (''Tried to call pure virtual function '' @ [CHR 0x22] @ name @ [CHR 0x22])), untouched e)
      | Some g \<Rightarrow> g e)"

record 'e python_classes =
  Reader_open :: "('e, unit) call option"
  Reader_close :: "('e, unit) call option"
  Writer_write :: "(message \<Rightarrow> int \<Rightarrow> ('e, message) call) option"
  Writer_close :: "('e, unit) call option"
  Scheduler_schedule_relative_callback :: "(nat \<Rightarrow> session_callback \<Rightarrow> ('e, u64) quiet_call) option"
  Scheduler_schedule_repeating_callback :: "(nat \<Rightarrow> session_callback \<Rightarrow> ('e, u64) quiet_call) option"
  Scheduler_cancel_callback :: "(u64 \<Rightarrow> ('e, unit) quiet_call) option"

definition python_links :: "'e python_classes \<Rightarrow> ('e \<Rightarrow> utc_time \<times> 'e) \<Rightarrow> orchestration \<Rightarrow> 'e links" where
  "python_links py now orch =
     \<lparr> reader_open = override_pure ''Reader::open'' (Reader_open py) (\<lambda>e. (False, e)),
       reader_close = override_pure ''Reader::close'' (Reader_close py) (\<lambda>e. (False, e)),
       writer_write = (\<lambda>m options. override_pure ''crocofix::writer::write'' (map_option (\<lambda>f. f m options) (Writer_write py)) (\<lambda>e. (False, e))),
       writer_close = override_pure ''crocofix::writer::close'' (Writer_close py) (\<lambda>e. (False, e)),
       schedule_relative_callback = (\<lambda>n cb. override_pure ''crocofix::scheduler::schedule_relative_callback''
         (map_option (\<lambda>f. f n cb) (Scheduler_schedule_relative_callback py)) id),
       schedule_repeating_callback = (\<lambda>n cb. override_pure ''crocofix::scheduler::schedule_repeating_callback''
         (map_option (\<lambda>f. f n cb) (Scheduler_schedule_repeating_callback py)) id),
       cancel_callback = (\<lambda>token. override_pure ''crocofix::scheduler::cancel_callback'' (map_option (\<lambda>f. f token) (Scheduler_cancel_callback py)) id),
       system_clock_now = now,
       m_orchestration = orch \<rparr>"

text \<open>A program that keeps what its callback \<open>state_changed\<close> is told.\<close>

definition state_recorder :: "(session_state \<times> session_state) list callbacks" where
  "state_recorder = \<lparr> information_callback = None, warning_callback = None, error_callback = None,
     state_changed_callback = Some (\<lambda>previous current seen. seen @ [(previous, current)]),
     message_sent_callback = None, message_received_callback = None \<rparr>"

fun state_changes :: "signal list \<Rightarrow> (session_state \<times> session_state) list" where
  "state_changes [] = []"
| "state_changes (State_changed a b # sigs) = (a, b) # state_changes sigs"
| "state_changes (sig # sigs) = state_changes sigs"

lemma state_recorder_sees: "fold (session_proxy state_recorder) sigs seen = seen @ state_changes sigs"
proof (induction sigs arbitrary: seen)
  case (Cons sig sigs)
  then show ?case by (cases sig) (simp_all add: state_recorder_def if_set_def)
qed simp

text \<open>A program calls methods of the session, feeds it messages and lets its timers fire; it goes on after an exception.\<close>

fun python_events :: "'p callbacks \<Rightarrow> 'e links \<Rightarrow> session_event list \<Rightarrow> 'e world \<times> 'p \<Rightarrow> 'e world \<times> 'p" where
  "python_events cb io [] x = x"
| "python_events cb io (ev # evs) x = python_events cb io evs (snd (proxied cb (handle_event io ev) x))"

lemma event_history: "handle_event io ev w = (r, w') \<Longrightarrow> state_history w w'"
  using sh.se.run_kept[OF run_event[OF run_nil[of io False w], of ev r w']] sh.keeps_session_send[of io] by simp

lemma state_path_changes: "state_path a sigs c \<longleftrightarrow> state_path a (map (\<lambda>(x, y). State_changed x y) (state_changes sigs)) c"
  by (induction a sigs c rule: state_path.induct) auto

text \<open>
  C33: a Python program is told of every change of state. Whatever it does with its session, what its
  \<open>state_changed\<close> is called with is a gapless path of the state machine, from the state the session had to
  the state it has.
\<close>

theorem python_sees_every_state:
  assumes "python_events state_recorder io evs (w, []) = (w', seen)"
  shows "state_path (m_state (sess w)) (map (\<lambda>(x, y). State_changed x y) seen) (m_state (sess w'))"
proof -
  have "state_path a (map (\<lambda>(x, y). State_changed x y) seen') (m_state (sess w')) \<and> seen' = seen"
    if "python_events state_recorder io evs (w, seen0) = (w', seen')" "state_path a (map (\<lambda>(x, y). State_changed x y) seen0) (m_state (sess w))"
      "seen' = seen" for a w seen0 seen'
    using that
  proof (induction evs arbitrary: w seen0)
    case (Cons ev evs)
    obtain r v where h: "handle_event io ev w = (r, v)" by fastforce
    obtain sigs where s: "emitted v = emitted w @ sigs" "state_path (m_state (sess w)) sigs (m_state (sess v))"
      using event_history[OF h] by (auto simp: state_history_def)
    then have "proxied state_recorder (handle_event io ev) (w, seen0) = (r, v, seen0 @ state_changes sigs)"
      using h by (simp add: proxied_def state_recorder_sees)
    moreover have "state_path a (map (\<lambda>(x, y). State_changed x y) (seen0 @ state_changes sigs)) (m_state (sess v))"
      using Cons.prems(2) s(2) state_path_changes[of _ sigs] by (auto simp: state_path_append)
    ultimately show ?case using Cons.IH[of v] Cons.prems(1,3) by simp
  qed simp
  from this[of w "[]" seen "m_state (sess w)"] assms show ?thesis by simp
qed

text \<open>
  C34: a send that fails uses up its number. When the writer throws, as the one of a Python class without a
  \<open>write\<close> does, the exception reaches the caller and nothing is reported as sent, but the outgoing sequence
  number has moved on: the next message that is sent leaves a gap.
\<close>

theorem failed_send_uses_up_number:
  assumes "message_MsgType m = Inr type" "type \<noteq> Logon_MsgType" "options AND set_msg_seq_num \<noteq> 0"
    and "\<And>m' e. writer_write io m' options e = (Inl x, False, e)"
  shows "\<exists>w'. session_send io m options w = (Inl x, w') \<and> emitted w' = emitted w \<and>
    sess w' = (sess w)\<lparr> m_outgoing_msg_seq_num := m_outgoing_msg_seq_num (sess w) + 1 \<rparr>"
  using assms
  by (auto simp: session_send_def the_session_def on_session_def allocate_outgoing_msg_seq_num_def quiet_def external_apply seqP_def bindP_def
      split: prod.split)

section \<open>The properties at concrete programs\<close>


theorem empty_message_never_encoded_witness: "python_repr empty_message = None"
  unfolding python_repr_def by (rule empty_message_never_encoded) (simp add: empty_message_def)

definition bare_python :: "unit python_classes" where
  "bare_python = \<lparr> Reader_open = Some (\<lambda>e. (Inr (), False, e)), Reader_close = Some (\<lambda>e. (Inr (), False, e)), Writer_write = None,
     Writer_close = None, Scheduler_schedule_relative_callback = None, Scheduler_schedule_repeating_callback = None,
     Scheduler_cancel_callback = None \<rparr>"

definition bare_world :: "unit world" where
  "bare_world = \<lparr> sess = initial_session, outside = (), emitted = [] \<rparr>"

theorem failed_send_uses_up_number_witness:
  "\<exists>x w'. session_send (python_links bare_python (\<lambda>e. (\<lparr> tm_year = 2024, tm_mon = 1, tm_mday = 2, tm_hour = 3, tm_min = 4, tm_sec = 5,
      tm_millis = 6 \<rparr>, e)) sample_orchestration) (empty_message\<lparr> m_fields := [field_string 35 ''D''] \<rparr>) encode_standard bare_world = (Inl x, w') \<and>
    m_outgoing_msg_seq_num (sess w') = m_outgoing_msg_seq_num (sess bare_world) + 1"
proof -
  let ?m = "empty_message\<lparr> m_fields := [field_string 35 ''D''] \<rparr>"
  let ?io = "python_links bare_python (\<lambda>e. (\<lparr> tm_year = 2024, tm_mon = 1, tm_mday = 2, tm_hour = 3, tm_min = 4, tm_sec = 5, tm_millis = 6 \<rparr>, e))
    sample_orchestration"
  have m: "message_MsgType ?m = Inr ''D''" by code_simp
  have o: "encode_standard AND set_msg_seq_num \<noteq> 0" by code_simp
  have "\<exists>x. \<forall>m' e. writer_write ?io m' encode_standard e = (Inl x, False, e)"
    by (simp add: python_links_def bare_python_def override_pure_def)
  then obtain x where x: "\<And>m' e. writer_write ?io m' encode_standard e = (Inl x, False, e)" by blast
  from failed_send_uses_up_number[OF m _ o x, of bare_world] show ?thesis by auto
qed

theorem python_sees_every_state_witness:
  "\<exists>w' seen. python_events state_recorder recording_links [Open_session, Close_session] (sample_world connected, []) = (w', seen) \<and>
     state_path connected (map (\<lambda>(x, y). State_changed x y) seen) (m_state (sess w'))"
proof -
  obtain w' seen where r: "python_events state_recorder recording_links [Open_session, Close_session] (sample_world connected, []) = (w', seen)"
    by fastforce
  from python_sees_every_state[OF r] r show ?thesis by auto
qed

end
