(* ===== verification/Session_Properties.thy ===== *)
theory Session_Properties
  imports Session
begin

text \<open>
  The accessors of \<open>libcrocofix/session.cpp\<close>: what each getter returns, and, once for all options in the
  locales \<open>option_access\<close> and \<open>two_options\<close>, that an option that was set is read back and others are untouched.
\<close>

section \<open>Getters\<close>

definition get_state :: "session \<Rightarrow> session_state" where
  "get_state s = m_state s"

definition get_logon_behaviour :: "session \<Rightarrow> behaviour" where
  "get_logon_behaviour s = m_logon_behaviour (m_options s)"

definition get_begin_string :: "session \<Rightarrow> string" where
  "get_begin_string s = m_begin_string (m_options s)"

definition get_sender_comp_id :: "session \<Rightarrow> string" where
  "get_sender_comp_id s = m_sender_comp_id (m_options s)"

definition get_target_comp_id :: "session \<Rightarrow> string" where
  "get_target_comp_id s = m_target_comp_id (m_options s)"

definition get_heartbeat_interval :: "session \<Rightarrow> u32" where
  "get_heartbeat_interval s = m_heartbeat_interval (m_options s)"

definition get_test_request_delay :: "session \<Rightarrow> u32" where
  "get_test_request_delay s = m_test_request_delay (m_options s)"

definition get_timestamp_format :: "session \<Rightarrow> timestamp_format" where
  "get_timestamp_format s = m_timestamp_format (m_options s)"

definition get_incoming_msg_seq_num :: "session \<Rightarrow> u32" where
  "get_incoming_msg_seq_num s = m_incoming_msg_seq_num s"

definition get_outgoing_msg_seq_num :: "session \<Rightarrow> u32" where
  "get_outgoing_msg_seq_num s = m_outgoing_msg_seq_num s"

definition get_use_next_expected_msg_seq_num :: "session \<Rightarrow> bool" where
  "get_use_next_expected_msg_seq_num s = m_use_next_expected_msg_seq_num (m_options s)"

lemmas getter_defs = get_state_def get_logon_behaviour_def get_begin_string_def get_sender_comp_id_def get_target_comp_id_def
  get_heartbeat_interval_def get_test_request_delay_def get_timestamp_format_def get_incoming_msg_seq_num_def
  get_outgoing_msg_seq_num_def get_use_next_expected_msg_seq_num_def

section \<open>An option\<close>

text \<open>
  \<open>read\<close> is the getter of an option, \<open>put\<close> its assignment. The setter of a session assigns it at once, or only
  while the session is connected and not logging on.
\<close>

definition assign :: "bool \<Rightarrow> ('a \<Rightarrow> session_options \<Rightarrow> session_options) \<Rightarrow> 'a \<Rightarrow> ('e, unit) action" where
  "assign guarded put v = (if guarded then seqP ensure_options_are_mutable (on_options (put v)) else on_options (put v))"

definition immutable_error :: "session_state \<Rightarrow> exn" where
  "immutable_error st = Logic_error (''session configuration cannot be changed while state = '' @ session_state_to_string st)"

lemma assign_conv:
  "assign guarded put v w =
     (if guarded \<and> m_state (sess w) \<noteq> connected then (Inl (immutable_error (m_state (sess w))), w)
      else (Inr (), w\<lparr> sess := (sess w)\<lparr> m_options := put v (m_options (sess w)) \<rparr> \<rparr>))"
  by (simp add: assign_def ensure_options_are_mutable_def on_options_def on_session_def the_session_def immutable_error_def seqP_def bindP_def)

locale option_access =
  fixes read :: "session_options \<Rightarrow> 'a" and put :: "'a \<Rightarrow> session_options \<Rightarrow> session_options"
  assumes read_put: "read (put v opt) = v"
    and put_read: "put (read opt) opt = opt"
    and put_put: "put v (put u opt) = put v opt"
begin

lemma assign_read_back:
  "assign guarded put v w = (Inr (), w') \<Longrightarrow> read (m_options (sess w')) = v \<and> outside w' = outside w \<and> emitted w' = emitted w"
  by (auto simp: assign_conv read_put split: if_splits)

lemma assign_own_value: "assign guarded put (read (m_options (sess w))) w = (r, w') \<Longrightarrow> w' = w"
  by (auto simp: assign_conv put_read split: if_splits)

lemma assign_last_wins:
  "assign guarded put u w = (r, w') \<Longrightarrow> assign guarded put v w' = (r', w'') \<Longrightarrow> w'' = snd (assign guarded put v w)"
  by (auto simp: assign_conv put_put split: if_splits)

end

locale two_options = o1: option_access read1 put1 + o2: option_access read2 put2
  for read1 :: "session_options \<Rightarrow> 'a" and put1 and read2 :: "session_options \<Rightarrow> 'b" and put2 +
  assumes put_elsewhere: "read1 (put2 v opt) = read1 opt" "read2 (put1 u opt) = read2 opt"
begin

lemma assign_elsewhere:
  "assign guarded put1 u w = (r, w') \<Longrightarrow> read2 (m_options (sess w')) = read2 (m_options (sess w))"
  by (auto simp: assign_conv put_elsewhere split: if_splits)

end

interpretation behaviour_option: option_access m_logon_behaviour "\<lambda>v opt. opt\<lparr> m_logon_behaviour := v \<rparr>"
  by unfold_locales simp_all

interpretation begin_string_option: option_access m_begin_string "\<lambda>v opt. opt\<lparr> m_begin_string := v \<rparr>"
  by unfold_locales simp_all

interpretation sender_option: option_access m_sender_comp_id "\<lambda>v opt. opt\<lparr> m_sender_comp_id := v \<rparr>"
  by unfold_locales simp_all

interpretation target_option: option_access m_target_comp_id "\<lambda>v opt. opt\<lparr> m_target_comp_id := v \<rparr>"
  by unfold_locales simp_all

interpretation heartbeat_option: option_access m_heartbeat_interval "\<lambda>v opt. opt\<lparr> m_heartbeat_interval := v \<rparr>"
  by unfold_locales simp_all

interpretation delay_option: option_access m_test_request_delay "\<lambda>v opt. opt\<lparr> m_test_request_delay := v \<rparr>"
  by unfold_locales simp_all

interpretation format_option: option_access m_timestamp_format "\<lambda>v opt. opt\<lparr> m_timestamp_format := v \<rparr>"
  by unfold_locales simp_all

interpretation next_expected_option: option_access m_use_next_expected_msg_seq_num "\<lambda>v opt. opt\<lparr> m_use_next_expected_msg_seq_num := v \<rparr>"
  by unfold_locales simp_all

interpretation comp_ids: two_options m_sender_comp_id "\<lambda>v opt. opt\<lparr> m_sender_comp_id := v \<rparr>"
  m_target_comp_id "\<lambda>v opt. opt\<lparr> m_target_comp_id := v \<rparr>"
  by unfold_locales simp_all

text \<open>The setters of the session are such assignments.\<close>

lemma setters_assign:
  "set_logon_behaviour b = assign True (\<lambda>v opt. opt\<lparr> m_logon_behaviour := v \<rparr>) b"
  "set_begin_string_option t = assign True (\<lambda>v opt. opt\<lparr> m_begin_string := v \<rparr>) t"
  "set_sender_comp_id t = assign True (\<lambda>v opt. opt\<lparr> m_sender_comp_id := v \<rparr>) t"
  "set_target_comp_id t = assign True (\<lambda>v opt. opt\<lparr> m_target_comp_id := v \<rparr>) t"
  "set_test_request_delay n = assign True (\<lambda>v opt. opt\<lparr> m_test_request_delay := v \<rparr>) n"
  "set_heartbeat_interval n = assign False (\<lambda>v opt. opt\<lparr> m_heartbeat_interval := v \<rparr>) n"
  "set_timestamp_format f = assign False (\<lambda>v opt. opt\<lparr> m_timestamp_format := v \<rparr>) f"
  "set_use_next_expected_msg_seq_num x = assign False (\<lambda>v opt. opt\<lparr> m_use_next_expected_msg_seq_num := v \<rparr>) x"
  by (simp_all add: assign_def set_logon_behaviour_def set_begin_string_option_def set_sender_comp_id_def set_target_comp_id_def
      set_test_request_delay_def set_heartbeat_interval_def set_timestamp_format_def set_use_next_expected_msg_seq_num_def)

end
