(* ===== verification/Python_Properties.thy ===== *)
theory Python_Properties
  imports Python_Binding Session_Properties Message_Printing
begin

text \<open>
  \<open>libcrocofixpython\<close>: the properties of \<open>_Session\<close> with the types Python may assign, the enumerations the
  module exports, and the classes \<open>_Field\<close>, \<open>_FieldCollection\<close> and \<open>_Message\<close>. The overloads for \<open>float\<close> are left
  out. An \<open>int\<close> is taken for a \<open>uint32_t\<close> or an \<open>int64_t\<close> when it is in the range of that type.
\<close>

section \<open>Enumerations\<close>

definition python_Behaviour :: "(string \<times> behaviour) list" where
  "python_Behaviour = [(''INITIATOR'', initiator), (''ACCEPTOR'', acceptor)]"

definition python_SessionState :: "(string \<times> session_state) list" where
  "python_SessionState =
     [(''DISCONNECTED'', disconnected), (''CONNECTED'', connected), (''LOGGING_ON'', logging_on), (''RESENDING'', resending),
      (''LOGGED_ON'', logged_on), (''RESETTING'', resetting)]"

definition python_TimestampFormat :: "(string \<times> timestamp_format) list" where
  "python_TimestampFormat = [(''SECONDS'', Seconds), (''MILLISECONDS'', Milliseconds)]"

definition python_SetOperation :: "(string \<times> set_operation) list" where
  "python_SetOperation =
     [(''REPLACE_FIRST'', Replace_first), (''REPLACE_FIRST_OR_APPEND'', Replace_first_or_append), (''APPEND'', Append)]"

definition python_RemoveOperation :: "(string \<times> remove_operation) list" where
  "python_RemoveOperation = [(''REMOVE_FIRST'', Remove_first), (''REMOVE_ALL'', Remove_all)]"

definition python_EncodeOptions :: "(string \<times> int) list" where
  "python_EncodeOptions =
     [(''NONE'', encode_none), (''SET_CHECKSUM'', set_checksum), (''SET_BODY_LENGTH'', set_body_length),
      (''SET_BEGIN_STRING'', set_begin_string), (''SET_MSG_SEQ_NUM'', set_msg_seq_num), (''STANDARD'', encode_standard)]"

text \<open>Every enumerator is exported, under one name.\<close>

definition exports :: "(string \<times> 'a) list \<Rightarrow> bool" where
  "exports table \<longleftrightarrow> distinct (map fst table) \<and> distinct (map snd table) \<and> (\<forall>x. x \<in> snd ` set table)"

lemma enumerations_exported:
  "exports python_Behaviour" "exports python_SessionState" "exports python_TimestampFormat" "exports python_SetOperation" "exports python_RemoveOperation"
proof -
  show "exports python_Behaviour" unfolding exports_def by (auto simp: python_Behaviour_def intro: behaviour.exhaust)
  show "exports python_SessionState" unfolding exports_def by (auto simp: python_SessionState_def intro: session_state.exhaust)
  show "exports python_TimestampFormat" unfolding exports_def by (auto simp: python_TimestampFormat_def intro: timestamp_format.exhaust)
  show "exports python_SetOperation" unfolding exports_def by (auto simp: python_SetOperation_def intro: set_operation.exhaust)
  show "exports python_RemoveOperation" unfolding exports_def by (auto simp: python_RemoveOperation_def intro: remove_operation.exhaust)
qed

section \<open>The properties of a session\<close>

datatype python_value = Py_int int | Py_str string | Py_behaviour behaviour

datatype python_error = Attribute_error | Type_error | Cpp_exception exn

datatype session_property = Test_request_delay | Heartbeat_interval | LogonBehaviour | BeginString | SenderCompID | TargetCompID

definition session_properties :: "(string \<times> session_property) list" where
  "session_properties =
     [(''test_request_delay'', Test_request_delay), (''heartbeat_interval'', Heartbeat_interval), (''LogonBehaviour'', LogonBehaviour),
      (''BeginString'', BeginString), (''SenderCompID'', SenderCompID), (''TargetCompID'', TargetCompID)]"

fun property_get :: "session_property \<Rightarrow> session \<Rightarrow> python_value" where
  "property_get Test_request_delay s = Py_int (uint (get_test_request_delay s))"
| "property_get Heartbeat_interval s = Py_int (uint (get_heartbeat_interval s))"
| "property_get LogonBehaviour s = Py_behaviour (get_logon_behaviour s)"
| "property_get BeginString s = Py_str (get_begin_string s)"
| "property_get SenderCompID s = Py_str (get_sender_comp_id s)"
| "property_get TargetCompID s = Py_str (get_target_comp_id s)"

text \<open>The setter a value is passed to, if it can be converted to what the setter takes.\<close>

definition to_uint32 :: "int \<Rightarrow> u32 option" where
  "to_uint32 n = (if 0 \<le> n \<and> n < 2 ^ 32 then Some (word_of_int n) else None)"

fun property_set :: "session_property \<Rightarrow> python_value \<Rightarrow> ('e, unit) action option" where
  "property_set Test_request_delay (Py_int n) = map_option set_test_request_delay (to_uint32 n)"
| "property_set Heartbeat_interval (Py_int n) = map_option set_heartbeat_interval (to_uint32 n)"
| "property_set LogonBehaviour (Py_behaviour b) = Some (set_logon_behaviour b)"
| "property_set BeginString (Py_str t) = Some (set_begin_string_option t)"
| "property_set SenderCompID (Py_str t) = Some (set_sender_comp_id t)"
| "property_set TargetCompID (Py_str t) = Some (set_target_comp_id t)"
| "property_set _ _ = None"

definition python_getattr :: "string \<Rightarrow> 'e world \<Rightarrow> python_error + python_value" where
  "python_getattr name w =
     (case map_of session_properties name of None \<Rightarrow> Inl Attribute_error | Some p \<Rightarrow> Inr (property_get p (sess w)))"

definition python_setattr :: "string \<Rightarrow> python_value \<Rightarrow> 'e world \<Rightarrow> (python_error + unit) \<times> 'e world" where
  "python_setattr name v w =
     (case map_of session_properties name of
        None \<Rightarrow> (Inl Attribute_error, w)
      | Some p \<Rightarrow>
          (case property_set p v of
             None \<Rightarrow> (Inl Type_error, w)
           | Some setter \<Rightarrow> (case setter w of (Inl e, w') \<Rightarrow> (Inl (Cpp_exception e), w') | (Inr _, w') \<Rightarrow> (Inr (), w'))))"

text \<open>The type of a property: the values its setter takes.\<close>

inductive has_type :: "python_value \<Rightarrow> session_property \<Rightarrow> bool" where
  "0 \<le> n \<Longrightarrow> n < 2 ^ 32 \<Longrightarrow> p \<in> {Test_request_delay, Heartbeat_interval} \<Longrightarrow> has_type (Py_int n) p"
| "has_type (Py_behaviour b) LogonBehaviour"
| "p \<in> {BeginString, SenderCompID, TargetCompID} \<Longrightarrow> has_type (Py_str t) p"

inductive_simps has_type_simps [simp]: "has_type (Py_int n) p" "has_type (Py_behaviour b) p" "has_type (Py_str t) p"

lemma property_get_typed: "has_type (property_get p s) p"
  using unsigned_less[where 'a = int and 'b = 32] by (cases p) auto

lemma property_set_typed: "property_set p v = (None :: ('e, unit) action option) \<longleftrightarrow> \<not> has_type v p"
  by (cases p; cases v) (auto simp: to_uint32_def)

text \<open>What a setter does with a value of its type.\<close>

lemma property_set_effect:
  assumes "property_set p v = Some setter"
  shows "setter w = (if p \<noteq> Heartbeat_interval \<and> m_state (sess w) \<noteq> connected then (Inl (immutable_error (m_state (sess w))), w)
      else (Inr (), w\<lparr> sess := (sess w)\<lparr> m_options := m_options (sess (snd (setter w))) \<rparr> \<rparr>))" (is ?effect)
    and "p = Heartbeat_interval \<or> m_state (sess w) = connected \<Longrightarrow>
      property_get q (sess (snd (setter w))) = (if q = p then v else property_get q (sess w))"
proof -
  have "?effect \<and> (p = Heartbeat_interval \<or> m_state (sess w) = connected \<longrightarrow>
      property_get q (sess (snd (setter w))) = (if q = p then v else property_get q (sess w)))"
  proof (cases v)
    case (Py_int n)
    with assms show ?thesis
      by (cases p; cases q) (auto simp: to_uint32_def setters_assign assign_conv getter_defs unsigned_of_int take_bit_int_eq_self split: if_splits)
  next
    case (Py_str t)
    with assms show ?thesis by (cases p; cases q) (auto simp: setters_assign assign_conv getter_defs)
  next
    case (Py_behaviour b)
    with assms show ?thesis by (cases p; cases q) (auto simp: setters_assign assign_conv getter_defs)
  qed
  then show ?effect and "p = Heartbeat_interval \<or> m_state (sess w) = connected \<Longrightarrow>
      property_get q (sess (snd (setter w))) = (if q = p then v else property_get q (sess w))" by simp_all
qed

lemma session_property_names: "map_of session_properties name = Some p \<Longrightarrow> map_of session_properties other = Some p \<Longrightarrow> other = name"
  by (auto simp: session_properties_def split: if_splits)


section \<open>Fields and messages\<close>

datatype python_field_value = Str_value string | Bool_value bool | Int_value int

fun python_Field :: "int \<Rightarrow> python_field_value \<Rightarrow> field" where
  "python_Field tag (Str_value t) = field_string tag t"
| "python_Field tag (Bool_value b) = field_bool tag b"
| "python_Field tag (Int_value n) = field_int tag n"

text \<open>\<open>_FieldCollection.set\<close>: a \<open>bool\<close> is a value of its own, not an \<open>int\<close>.\<close>

fun python_set :: "int \<Rightarrow> python_field_value \<Rightarrow> set_operation \<Rightarrow> field_collection \<Rightarrow> bool \<times> field_collection" where
  "python_set tag (Str_value t) operation = fc_set_string tag t operation"
| "python_set tag (Bool_value b) operation = fc_set_bool tag b operation"
| "python_set tag (Int_value n) operation = fc_set_i64 tag n operation"

definition python_set_field :: "field \<Rightarrow> set_operation \<Rightarrow> field_collection \<Rightarrow> bool \<times> field_collection" where
  "python_set_field f operation = fc_set f operation"

definition python_get :: "int \<Rightarrow> field_collection \<Rightarrow> exn + field" where
  "python_get tag fs = fc_get tag fs"

definition python_remove :: "int \<Rightarrow> remove_operation \<Rightarrow> field_collection \<Rightarrow> bool \<times> field_collection" where
  "python_remove tag operation fs = fc_remove tag operation fs"

definition python_clear :: "field_collection \<Rightarrow> field_collection" where
  "python_clear fs = []"

definition python_len :: "field_collection \<Rightarrow> nat" where
  "python_len fs = length fs"

definition python_iter :: "field_collection \<Rightarrow> field list" where
  "python_iter fs = fs"

text \<open>A value set under a tag is set as the field of that tag and value.\<close>

lemma python_set_is_field: "python_set tag v operation = python_set_field (python_Field tag v) operation"
  by (cases v) (simp_all add: fun_eq_iff python_set_field_def fc_set_string_def fc_set_bool_def fc_set_i64_def field_bool_def field_int_def)

datatype python_object = Str_object string | Int_object int | Bool_object bool | Fields_object field_collection

definition as_str :: "exn + string \<Rightarrow> exn + python_object" where
  "as_str r = map_sum id Str_object r"

definition as_bool :: "exn + bool \<Rightarrow> exn + python_object" where
  "as_bool r = map_sum id Bool_object r"

definition message_properties :: "(string \<times> (message \<Rightarrow> exn + python_object)) list" where
  "message_properties =
     [(''BeginString'', \<lambda>m. as_str (message_BeginString m)),
      (''SenderCompID'', \<lambda>m. as_str (message_SenderCompID m)),
      (''TargetCompID'', \<lambda>m. as_str (message_TargetCompID m)),
      (''MsgType'', \<lambda>m. as_str (message_MsgType m)),
      (''MsgSeqNum'', \<lambda>m. map_sum id (\<lambda>n. Int_object (uint n)) (message_MsgSeqNum m)),
      (''PossDupFlag'', \<lambda>m. as_bool (message_PossDupFlag m)),
      (''GapFillFlag'', \<lambda>m. as_bool (message_GapFillFlag m)),
      (''ResetSeqNumFlag'', \<lambda>m. as_bool (message_ResetSeqNumFlag m)),
      (''is_admin'', \<lambda>m. as_bool (message_is_admin m)),
      (''fields'', \<lambda>m. Inr (Fields_object (m_fields m)))]"

definition python_message_getattr :: "string \<Rightarrow> message \<Rightarrow> python_error + python_object" where
  "python_message_getattr name m =
     (case map_of message_properties name of
        None \<Rightarrow> Inl Attribute_error
      | Some get \<Rightarrow> (case get m of Inl e \<Rightarrow> Inl (Cpp_exception e) | Inr x \<Rightarrow> Inr x))"

definition python_str :: "orchestration_field_collection \<Rightarrow> message_collection \<Rightarrow> message \<Rightarrow> exn + string" where
  "python_str dict messages m = message_pretty_print dict messages m"

section \<open>The properties at a concrete session\<close>


end
