(* ===== verification/Lua_Binding.thy ===== *)
theory Lua_Binding
  imports Fixsed_Proxy Python_Binding Logon_Handshake
begin

text \<open>
  \<open>libcrocofixlua/types.cpp\<close>: the enumerations, methods and types a script sees; \<open>libcrocofixlua_tests/lua_fixture.hpp\<close>:
  how its tests turn texts into messages and back; \<open>fixsed/junction.lua\<close>, the proxy's script that directs
  orders to a destination. A script has one reference to the message it is given, and \<open>fields()\<close> refers
  to the fields of that message.
\<close>

section \<open>What a script sees\<close>

datatype lua_value =
    Lua_nil
  | Boolean bool
  | Integer int
  | Text string
  | Field_object field
  | Set_op set_operation
  | Remove_op remove_operation

definition lua_enumerations :: "(string \<times> (string \<times> lua_value) list) list" where
  "lua_enumerations =
     [(''set_operation'',
        [(''replace_first'', Set_op Replace_first), (''replace_first_or_append'', Set_op Replace_first_or_append), (''append'', Set_op Append)]),
      (''remove_operation'',
        [(''remove_first'', Remove_op Remove_first), (''remove_all'', Remove_op Remove_all)])]"

definition enumerator :: "string \<Rightarrow> string \<Rightarrow> lua_value" where
  "enumerator enum name =
     (case map_of lua_enumerations enum of
        None \<Rightarrow> Lua_nil
      | Some table \<Rightarrow> (case map_of table name of None \<Rightarrow> Lua_nil | Some v \<Rightarrow> v))"

text \<open>
  A method on its arguments and the message it changes. The kinds of the arguments are not checked in
  this build; a call with others than declared has no defined outcome.
\<close>

type_synonym lua_method = "lua_value list \<Rightarrow> (message, lua_value) proc"

definition bad_call :: "(message, lua_value) proc" where
  "bad_call = throwP (Undefined_behaviour ''arguments of a Lua call'')"

definition change_fields :: "(field_collection \<Rightarrow> bool \<times> field_collection) \<Rightarrow> (message, lua_value) proc" where
  "change_fields f = (\<lambda>m. (case f (m_fields m) of (b, fs) \<Rightarrow> (Inr (Boolean b), m\<lparr> m_fields := fs \<rparr>)))"

definition field_collection_type :: "(string \<times> lua_method) list" where
  "field_collection_type =
     [(''size'', \<lambda>args. (case args of [] \<Rightarrow> getP (\<lambda>m. Integer (int (length (m_fields m)))) | _ \<Rightarrow> bad_call)),
      (''try_get'', \<lambda>args. (case args of
          [Integer tag] \<Rightarrow> getP (\<lambda>m. (case fc_try_get tag (m_fields m) of None \<Rightarrow> Lua_nil | Some f \<Rightarrow> Field_object f))
        | _ \<Rightarrow> bad_call)),
      (''set'', \<lambda>args. (case args of
          [Integer tag, Text v, Set_op operation] \<Rightarrow> change_fields (fc_set_string tag v operation)
        | _ \<Rightarrow> bad_call)),
      (''remove'', \<lambda>args. (case args of
          [Integer tag, Remove_op operation] \<Rightarrow> change_fields (fc_remove tag operation)
        | _ \<Rightarrow> bad_call))]"

text \<open>The getters of a message, which may throw.\<close>

definition getter :: "(message \<Rightarrow> exn + 'a) \<Rightarrow> ('a \<Rightarrow> lua_value) \<Rightarrow> lua_method" where
  "getter get result = (\<lambda>args. (case args of
      [] \<Rightarrow> (\<lambda>m. (case get m of Inl e \<Rightarrow> (Inl e, m) | Inr x \<Rightarrow> (Inr (result x), m)))
    | _ \<Rightarrow> bad_call))"

definition message_type :: "(string \<times> lua_method) list" where
  "message_type =
     [(''reset'', \<lambda>args. (case args of [] \<Rightarrow> (\<lambda>m. (Inr Lua_nil, message_reset m)) | _ \<Rightarrow> bad_call)),
      (''MsgType'', getter message_MsgType Text),
      (''MsgSeqNum'', getter message_MsgSeqNum (\<lambda>n. Integer (uint n))),
      (''PossDupFlag'', getter message_PossDupFlag Boolean),
      (''GapFillFlag'', getter message_GapFillFlag Boolean),
      (''ResetSeqNumFlag'', getter message_ResetSeqNumFlag Boolean),
      (''is_admin'', getter message_is_admin Boolean)]"

text \<open>\<open>message:name(...)\<close> and \<open>message:fields():name(...)\<close>.\<close>

definition call_method :: "(string \<times> lua_method) list \<Rightarrow> string \<Rightarrow> lua_method" where
  "call_method table name args =
     (case map_of table name of
        None \<Rightarrow> throwP (Runtime_error (''attempt to call a nil value (method '' @ [CHR 0x27] @ name @ [CHR 0x27] @ '')''))
      | Some f \<Rightarrow> f args)"

abbreviation call_message :: "string \<Rightarrow> lua_method" where
  "call_message \<equiv> call_method message_type"

abbreviation call_fields :: "string \<Rightarrow> lua_method" where
  "call_fields \<equiv> call_method field_collection_type"

section \<open>The fixture of the tests\<close>

text \<open>\<open>parse\<close>; a \<open>REQUIRE\<close> that fails, or an exception, ends the test: \<open>None\<close>.\<close>

definition lua_parse :: "orchestration_field_collection \<Rightarrow> string \<Rightarrow> message option" where
  "lua_parse dict text =
     (case message_decode dict text empty_message of
        (Inr result, m) \<Rightarrow> (if complete result then Some m else None)
      | (Inl _, _) \<Rightarrow> None)"

text \<open>\<open>to_string\<close>: CheckSum is taken out and put at the end again before the message is encoded.\<close>

definition lua_to_string :: "int \<Rightarrow> message \<Rightarrow> ((exn + string) \<times> message) option" where
  "lua_to_string options m =
     (if m_fields m = [] then Some (Inr [], m)
      else encode_growing 1024 options
             (m\<lparr> m_fields := snd (fc_set_string CheckSum_Tag [] Replace_first_or_append
                                (snd (fc_remove CheckSum_Tag Remove_first (m_fields m)))) \<rparr>))"

section \<open>The script junction.lua\<close>

definition ExDestination_Tag :: int where
  "ExDestination_Tag = 100"

definition junction_initiator_read :: "'l script" where
  "junction_initiator_read m lua =
     (case call_message ''MsgType'' [] m of
        (Inr (Text MsgType), m1) \<Rightarrow>
          (let entries = [Log_script (''initiator read '' @ MsgType)]
           in if MsgType = ''D'' then
                (case call_fields ''set'' [Integer ExDestination_Tag, Text ''DARK'', enumerator ''set_operation'' ''replace_first''] m1 of
                   (Inl e, m2) \<Rightarrow> (entries, Inl (what e), m2, lua)
                 | (Inr _, m2) \<Rightarrow> (entries, Inr (), m2, lua))
              else (entries, Inr (), m1, lua))
      | (Inr _, m1) \<Rightarrow> ([], Inl ''attempt to concatenate'', m1, lua)
      | (Inl e, m1) \<Rightarrow> ([], Inl (what e), m1, lua))"

definition junction_acceptor_read :: "'l script" where
  "junction_acceptor_read m lua =
     (case call_message ''MsgType'' [] m of
        (Inr (Text msgtype), m1) \<Rightarrow> ([Log_script (''initiator read '' @ msgtype)], Inr (), m1, lua)
      | (Inr _, m1) \<Rightarrow> ([], Inl ''attempt to concatenate'', m1, lua)
      | (Inl e, m1) \<Rightarrow> ([], Inl (what e), m1, lua))"

section \<open>Texts with their lengths and sums renewed\<close>

text \<open>A field of ASCII text under a tag the dictionary knows.\<close>

definition text_field :: "orchestration_field_collection \<Rightarrow> field \<Rightarrow> bool" where
  "text_field dict f \<longleftrightarrow> 0 \<le> m_tag f \<and> m_tag f < 2 ^ 31 \<and>
     (case field_at dict (word_of_int (m_tag f)) of Inl _ \<Rightarrow> False | Inr d \<Rightarrow> \<not> of_is_data d) \<and>
     (\<forall>c \<in> set (m_value f). (of_char c :: nat) < 128 \<and> c \<noteq> field_separator)"

text \<open>The fields of a message that ends in CheckSum, as \<open>encode\<close> leaves them.\<close>

definition resealed :: "field_collection \<Rightarrow> field_collection" where
  "resealed fs = (let pre = butlast (with_body_length encode_standard (empty_message\<lparr> m_fields := fs \<rparr>))
     in pre @ [field_string CheckSum_Tag (zero_pad 3 (nat_to_string (byte_sum (wire_text pre) mod 256)))])"

lemma standard_options: "encode_standard AND set_checksum \<noteq> 0" "encode_standard AND set_body_length \<noteq> 0"
  by (simp_all add: encode_standard_def set_checksum_def set_body_length_def set_begin_string_def set_msg_seq_num_def)

lemma text_field_ascii: "text_field dict f \<Longrightarrow> \<forall>c \<in> set (field_text f). (of_char c :: nat) < 128"
  using nat_to_string_set digit_ascii by (fastforce simp: text_field_def field_text_def int_to_string_def)

lemma text_fields_ascii: "\<forall>f \<in> set fs. text_field dict f \<Longrightarrow> \<forall>c \<in> set (wire_text fs). (of_char c :: nat) < 128"
  by (induction fs) (use text_field_ascii in fastforce)+

lemma text_fields_wire_ok: "\<forall>f \<in> set fs. text_field dict f \<Longrightarrow> wire_ok dict prevs fs"
  by (induction fs arbitrary: prevs) (auto simp: text_field_def wire_field_ok_def int32_range_def split: sum.splits)

lemma fc_replace_subset: "set (fc_replace f fs) \<subseteq> insert f (set fs)"
  using set_replace_first[of "has_tag (m_tag f)" f fs] by (simp add: fc_set_Replace_first_conv)

lemma text_fields_replace:
  assumes "\<forall>f \<in> set fs. text_field dict f" "m_tag g \<in> set (tags fs) \<Longrightarrow> text_field dict g"
  shows "\<forall>f \<in> set (fc_replace g fs). text_field dict f"
proof (cases "m_tag g \<in> set (tags fs)")
  case True
  with assms fc_replace_subset[of g fs] show ?thesis by blast
next
  case False
  then have "List.find (has_tag (m_tag g)) fs = None" by (auto simp: find_None_not image_iff)
  then have "fc_replace g fs = fs" using replace_first_id by (simp add: fc_set_Replace_first_conv)
  with assms(1) show ?thesis by simp
qed

lemma text_field_short: "\<forall>f \<in> set fs. text_field dict f \<Longrightarrow> t \<in> set (tags fs) \<Longrightarrow> short_text v \<Longrightarrow> text_field dict (field_string t v)"
  by (auto simp: text_field_def short_text_def)

lemma with_body_length_conv:
  "with_body_length encode_standard m = fc_replace (field_string BodyLength_Tag (u32_to_string (calculate_body_length m))) (m_fields m)"
  using standard_options(2) by (simp add: fc_set_u32_def fc_set_string_def)

lemma text_fields_sealed:
  assumes "\<forall>f \<in> set fs. text_field dict f" "CheckSum_Tag \<in> set (tags fs)"
  shows "\<forall>f \<in> set (resealed fs). text_field dict f"
proof -
  let ?fs = "with_body_length encode_standard (empty_message\<lparr> m_fields := fs \<rparr>)"
  have "\<forall>f \<in> set (fc_replace (field_string BodyLength_Tag (u32_to_string v)) fs). text_field dict f" for v
    by (rule text_fields_replace[OF assms(1)], rule text_field_short[OF assms(1) _ short_u32]) simp
  moreover have "m_fields (empty_message\<lparr> m_fields := fs \<rparr>) = fs" by simp
  ultimately have "\<forall>f \<in> set ?fs. text_field dict f" unfolding with_body_length_conv by metis
  moreover have "text_field dict (field_string CheckSum_Tag (zero_pad 3 (nat_to_string (n mod 256))))" for n
    by (rule text_field_short[OF assms short_checksum])
  ultimately show ?thesis unfolding resealed_def Let_def by (metis Un_iff empty_iff in_set_butlastD insert_iff list.set set_append)
qed

text \<open>The parts of such a message.\<close>

lemma sealed_parts:
  assumes "ends_message fs"
  obtains pre cs where "fc_replace (field_string BodyLength_Tag (u32_to_string (calculate_body_length (empty_message\<lparr> m_fields := fs \<rparr>)))) fs = pre @ [cs]"
    "m_tag cs = CheckSum_Tag" "CheckSum_Tag \<notin> set (tags pre)" "tags pre = butlast (tags fs)"
    "resealed fs = pre @ [field_string CheckSum_Tag (zero_pad 3 (nat_to_string (byte_sum (wire_text pre) mod 256)))]"
proof -
  define ws where "ws = fc_replace (field_string BodyLength_Tag (u32_to_string (calculate_body_length (empty_message\<lparr> m_fields := fs \<rparr>)))) fs"
  have t: "tags ws = tags fs" by (simp add: ws_def tags_fc_replace)
  obtain as a where fs: "fs = as @ [a]" using assms by (cases fs rule: rev_cases) (auto simp: ends_message_def)
  with t obtain pre cs where ws: "ws = pre @ [cs]" by (cases ws rule: rev_cases) auto
  with t fs have "tags pre = tags as" "m_tag cs = m_tag a" by simp_all
  with assms fs ws ws_def show thesis
    by (intro that[of pre cs]) (simp_all add: ends_message_def resealed_def with_body_length_conv Let_def)
qed

lemma tags_resealed:
  assumes "ends_message fs"
  shows "tags (resealed fs) = tags fs"
proof -
  from assms obtain as a where "fs = as @ [a]" "m_tag a = CheckSum_Tag" by (cases fs rule: rev_cases) (auto simp: ends_message_def)
  moreover from assms obtain pre ck where "tags pre = butlast (tags fs)" "resealed fs = pre @ [field_string CheckSum_Tag ck]"
    by (rule sealed_parts) blast
  ultimately show ?thesis by simp
qed

lemma nth_replace_first: "i < length xs \<Longrightarrow> \<not> P (xs ! i) \<Longrightarrow> replace_first P y xs ! i = xs ! i"
  by (induction xs arbitrary: i) (auto simp: nth_Cons split: nat.splits)

lemma resealed_elsewhere:
  assumes "ends_message fs" "i < length fs" "m_tag (fs ! i) \<noteq> BodyLength_Tag" "m_tag (fs ! i) \<noteq> CheckSum_Tag"
  shows "resealed fs ! i = fs ! i"
proof -
  from assms(1) obtain pre cs where p: "fc_replace (field_string BodyLength_Tag (u32_to_string (calculate_body_length (empty_message\<lparr> m_fields := fs \<rparr>)))) fs = pre @ [cs]"
    "tags pre = butlast (tags fs)" "resealed fs = pre @ [field_string CheckSum_Tag (zero_pad 3 (nat_to_string (byte_sum (wire_text pre) mod 256)))]"
    by (rule sealed_parts)
  have "i \<noteq> length fs - 1" using assms by (auto simp: ends_message_def last_conv_nth)
  moreover have "length pre = length fs - 1" using p(2) by (metis length_butlast length_map)
  ultimately have "i < length pre" using assms(2) by simp
  then have "resealed fs ! i = (pre @ [cs]) ! i" using p(3) by (simp add: nth_append)
  also have "\<dots> = fs ! i" unfolding p(1)[symmetric] using assms(2,3) by (simp add: fc_set_Replace_first_conv nth_replace_first)
  finally show ?thesis .
qed

lemma resealed_encode_parts:
  assumes "ends_message (m_fields m)" "\<forall>f \<in> set (m_fields m). text_field dict f"
  obtains pre cs where "with_body_length encode_standard m = pre @ [cs]" "m_tag cs = CheckSum_Tag" "CheckSum_Tag \<notin> set (tags pre)"
    "\<forall>c \<in> set (wire_text pre). (of_char c :: nat) < 128"
    "resealed (m_fields m) = pre @ [field_string CheckSum_Tag (zero_pad 3 (nat_to_string (byte_sum (wire_text pre) mod 256)))]"
proof -
  from assms(1) obtain pre cs where p: "fc_replace (field_string BodyLength_Tag (u32_to_string (calculate_body_length (empty_message\<lparr> m_fields := m_fields m \<rparr>)))) (m_fields m) = pre @ [cs]"
    "m_tag cs = CheckSum_Tag" "CheckSum_Tag \<notin> set (tags pre)"
    "resealed (m_fields m) = pre @ [field_string CheckSum_Tag (zero_pad 3 (nat_to_string (byte_sum (wire_text pre) mod 256)))]"
    by (rule sealed_parts)
  have w: "with_body_length encode_standard m = pre @ [cs]"
    unfolding with_body_length_conv p(1)[symmetric] by (simp add: calculate_body_length_def)
  have "CheckSum_Tag \<in> set (tags (m_fields m))" using assms(1) by (auto simp: ends_message_def)
  from text_fields_sealed[OF assms(2) this] have "\<forall>c \<in> set (wire_text pre). (of_char c :: nat) < 128"
    using text_fields_ascii[of pre dict] p(4) by simp
  from that[OF w p(2,3) this p(4)] show thesis .
qed

lemma encode_resealed:
  assumes "ends_message (m_fields m)" "\<forall>f \<in> set (m_fields m). text_field dict f" "length (wire_text (resealed (m_fields m))) \<le> cap"
  shows "message_encode cap encode_standard m = (Inr (length (wire_text (resealed (m_fields m))), wire_text (resealed (m_fields m))),
    m\<lparr> m_fields := resealed (m_fields m) \<rparr>)"
proof -
  from assms(1,2) obtain pre cs where p: "with_body_length encode_standard m = pre @ [cs]" "m_tag cs = CheckSum_Tag" "CheckSum_Tag \<notin> set (tags pre)"
    "\<forall>c \<in> set (wire_text pre). (of_char c :: nat) < 128"
    "resealed (m_fields m) = pre @ [field_string CheckSum_Tag (zero_pad 3 (nat_to_string (byte_sum (wire_text pre) mod 256)))]"
    by (rule resealed_encode_parts)
  have "length (wire_text pre) + 7 \<le> cap" using assms(3) unfolding p(5) by (simp add: checksum_text_length)
  with encode_succeeds[OF p(1-3) standard_options(1) p(4)] p(5) show ?thesis by (simp add: Let_def)
qed

lemma encode_growing_resealed:
  assumes "ends_message (m_fields m)" "\<forall>f \<in> set (m_fields m). text_field dict f"
  shows "encode_growing 1024 encode_standard m = Some (Inr (wire_text (resealed (m_fields m))), m\<lparr> m_fields := resealed (m_fields m) \<rparr>)"
proof -
  from assms obtain pre cs where p: "with_body_length encode_standard m = pre @ [cs]" "m_tag cs = CheckSum_Tag" "CheckSum_Tag \<notin> set (tags pre)"
    "\<forall>c \<in> set (wire_text pre). (of_char c :: nat) < 128"
    "resealed (m_fields m) = pre @ [field_string CheckSum_Tag (zero_pad 3 (nat_to_string (byte_sum (wire_text pre) mod 256)))]"
    by (rule resealed_encode_parts)
  from encode_growing_returns[OF p(1-3) standard_options(1) p(4), of 1024] p(5) show ?thesis by (simp add: Let_def)
qed

text \<open>What is read back from the text.\<close>

lemma decode_resealed:
  assumes "ends_message fs" "\<forall>f \<in> set fs. text_field dict f"
  shows "\<exists>d c. message_decode dict (wire_text (resealed fs) @ rest) empty_message =
      (Inr \<lparr> consumed = length (wire_text (resealed fs)), complete = True \<rparr>, d) \<and> m_fields d = resealed fs \<and>
    calculate_decode_checksum d = Inr c \<and> format_checksum c = Inr (m_value (last (resealed fs)))"
proof -
  let ?m = "empty_message\<lparr> m_fields := fs \<rparr>"
  obtain pre cs where f: "fs = pre @ [cs]" "m_tag cs = CheckSum_Tag" "CheckSum_Tag \<notin> set (tags pre)"
    using assms(1) by (cases fs rule: rev_cases) (auto simp: ends_message_def)
  have e: "message_encode (length (wire_text (resealed fs))) encode_standard ?m =
      (Inr (length (wire_text (resealed fs)), wire_text (resealed fs)), ?m\<lparr> m_fields := resealed fs \<rparr>)"
    using encode_resealed[of ?m dict "length (wire_text (resealed fs))"] assms by simp
  have "resealed fs \<noteq> []" by (simp add: resealed_def Let_def)
  then have n: "length (wire_text (resealed fs)) \<noteq> 0" by (cases "resealed fs") simp_all
  have "wire_ok dict [] (resealed fs)" using text_fields_sealed[OF assms(2)] f by (intro text_fields_wire_ok) simp
  with decode_encoded[of ?m pre cs, OF _ f(2,3) standard_options(1) e n, of dict rest] f(1) show ?thesis by simp
qed

text \<open>A text that was encoded already is left as it is.\<close>

lemma resealed_encoded:
  assumes "encoded_text dict' encode_standard out fs" "\<forall>f \<in> set fs. text_field dict f"
  shows "resealed fs = fs" "out = wire_text fs"
proof -
  let ?m = "empty_message\<lparr> m_fields := fs \<rparr>"
  note w = encoded_text_wire[OF assms(1)]
  have "message_encode (length out + length (wire_text (resealed fs))) encode_standard ?m = (Inr (length out, out), ?m)"
    using encoded_text_again(1)[OF assms(1), of ?m] by simp
  with encode_resealed[of ?m dict "length out + length (wire_text (resealed fs))"] w(3) assms(2) show "resealed fs = fs" "out = wire_text fs"
    by (auto simp: w(1) empty_message_def)
qed

text \<open>Replacing a value by a short one makes the text little longer.\<close>

lemma length_wire_replace: "length (wire_text (fc_replace g fs)) \<le> length (wire_text fs) + length (m_value g)"
proof -
  have "length (wire_text (replace_first (has_tag (m_tag g)) g fs)) \<le> length (wire_text fs) + length (m_value g)"
    by (induction fs) (auto simp: field_text_def)
  then show ?thesis by (simp add: fc_set_Replace_first_conv)
qed

lemma length_resealed:
  assumes "ends_message fs"
  shows "length (wire_text (resealed fs)) \<le> length (wire_text fs) + 17"
proof -
  define v where "v = u32_to_string (calculate_body_length (empty_message\<lparr> m_fields := fs \<rparr>))"
  from assms obtain pre cs where p: "fc_replace (field_string BodyLength_Tag v) fs = pre @ [cs]"
    "resealed fs = pre @ [field_string CheckSum_Tag (zero_pad 3 (nat_to_string (byte_sum (wire_text pre) mod 256)))]"
    unfolding v_def by (rule sealed_parts)
  have "length v \<le> 10"
    using length_nat_to_string_le[of 10] unsigned_less[of "calculate_body_length (empty_message\<lparr> m_fields := fs \<rparr>)", where 'a = nat]
    by (simp add: v_def u32_to_string_def)
  then have "length (wire_text (pre @ [cs])) \<le> length (wire_text fs) + 10"
    using length_wire_replace[of "field_string BodyLength_Tag v" fs] p(1) by simp
  then show ?thesis unfolding p(2) by (simp add: checksum_text_length)
qed

section \<open>The fixture and the script\<close>

lemma body_length_snoc:
  "CheckSum_Tag \<notin> set (tags pre) \<Longrightarrow> m_tag cs = CheckSum_Tag \<Longrightarrow> body_length_loop (pre @ [cs]) passed n = body_length_loop pre passed n"
  by (induction pre arbitrary: passed n) auto

lemma replace_first_last: "\<not> P c \<Longrightarrow> replace_first P y (xs @ [c]) = replace_first P y xs @ [c]"
  by (induction xs) auto

lemma resealed_checksum:
  assumes "CheckSum_Tag \<notin> set (tags pre)" "m_tag cs = CheckSum_Tag" "m_tag cs' = CheckSum_Tag"
  shows "resealed (pre @ [cs]) = resealed (pre @ [cs'])"
proof -
  have b: "calculate_body_length (empty_message\<lparr> m_fields := pre @ [cs] \<rparr>) = calculate_body_length (empty_message\<lparr> m_fields := pre @ [cs'] \<rparr>)"
    using assms by (simp add: calculate_body_length_def body_length_snoc)
  have "butlast (fc_replace g (pre @ [c])) = replace_first (has_tag BodyLength_Tag) g pre" if "m_tag g = BodyLength_Tag" "m_tag c = CheckSum_Tag" for g c
    using that by (simp add: fc_set_Replace_first_conv replace_first_last)
  with assms(2,3) b show ?thesis by (simp add: resealed_def with_body_length_conv)
qed

text \<open>
  The fixture of the Lua tests compares texts: \<open>parse\<close> of the text of an encoded message yields its
  fields, and \<open>to_string\<close> of a message encodes it with body length and checksum renewed, however long it is;
  so an untouched message is turned back into the text it was parsed from.
\<close>

theorem lua_fixture_roundtrip:
  assumes "encoded_text dict encode_standard out fs" "\<forall>f \<in> set fs. text_field dict f"
  shows "\<exists>m. lua_parse dict out = Some m \<and> m_fields m = fs \<and> lua_to_string encode_standard m = Some (Inr out, m)"
proof -
  note w = encoded_text_wire[OF assms(1)] and r = resealed_encoded[OF assms]
  obtain m where m: "lua_parse dict out = Some m" "m_fields m = fs"
    using decode_resealed[OF w(3) assms(2), of "[]"] r by (auto simp: lua_parse_def)
  obtain pre cs where f: "fs = pre @ [cs]" "m_tag cs = CheckSum_Tag" "CheckSum_Tag \<notin> set (tags pre)"
    using w(3) by (cases fs rule: rev_cases) (auto simp: ends_message_def)
  have e: "erase_first (has_tag CheckSum_Tag) (pre @ [cs]) = pre" using f(2,3) by (induction pre) auto
  have nf: "List.find (has_tag CheckSum_Tag) pre = None" using f(3) by (auto simp: find_None_not image_iff)
  let ?gs = "pre @ [field_string CheckSum_Tag []]"
  have gs: "snd (fc_set_string CheckSum_Tag [] Replace_first_or_append (snd (fc_remove CheckSum_Tag Remove_first fs))) = ?gs"
    using f nf by (simp add: fc_set_string_def fc_set_def fc_remove_def e find_append split: option.splits)
  have t: "\<forall>f \<in> set ?gs. text_field dict f" using assms(2) f by (auto simp: text_field_def)
  have "resealed ?gs = fs" using resealed_checksum[OF f(3,2), of "field_string CheckSum_Tag []"] r(1) f(1) by simp
  with encode_growing_resealed[of "m\<lparr> m_fields := ?gs \<rparr>" dict] t f(3)
  have "encode_growing 1024 encode_standard (m\<lparr> m_fields := ?gs \<rparr>) = Some (Inr (wire_text fs), m\<lparr> m_fields := fs \<rparr>)"
    by (simp add: ends_message_def)
  moreover have "m\<lparr> m_fields := fs \<rparr> = m" "fs \<noteq> []" using m(2) f(1) by auto
  ultimately have "lua_to_string encode_standard m = Some (Inr out, m)"
    unfolding lua_to_string_def m(2) gs r(2) by simp
  with m show ?thesis by blast
qed

lemma junction_initiator_read_result:
  assumes "message_MsgType m = Inr type"
  shows "junction_initiator_read m lua = ([Log_script (''initiator read '' @ type)], Inr (),
    if type = ''D'' then m\<lparr> m_fields := fc_replace (field_string ExDestination_Tag ''DARK'') (m_fields m) \<rparr> else m, lua)"
proof -
  have "enumerator ''set_operation'' ''replace_first'' = Set_op Replace_first" by (simp add: enumerator_def lua_enumerations_def)
  with assms show ?thesis
    by (simp add: junction_initiator_read_def call_method_def message_type_def getter_def field_collection_type_def change_fields_def
        fc_set_string_def split: prod.split)
qed

lemma ends_message_tags: "ends_message fs \<Longrightarrow> tags gs = tags fs \<Longrightarrow> ends_message gs"
  by (cases fs rule: rev_cases; cases gs rule: rev_cases) (auto simp: ends_message_def)

text \<open>What the script makes of the fields of a message.\<close>

definition directed :: "string \<Rightarrow> field_collection \<Rightarrow> field_collection" where
  "directed type fs = (if type = ''D'' then fc_replace (field_string ExDestination_Tag ''DARK'') fs else fs)"


text \<open>Encoding stops at the first CheckSum, whatever follows it.\<close>

lemma replace_first_before:
  "\<not> P c \<Longrightarrow> \<exists>rest'. replace_first P y (xs @ c # rest) = replace_first P y xs @ c # rest'"
  by (induction xs) auto

lemma body_length_stops:
  "CheckSum_Tag \<notin> set (tags pre) \<Longrightarrow> m_tag cs = CheckSum_Tag \<Longrightarrow> body_length_loop (pre @ cs # rest) passed n = body_length_loop pre passed n"
  by (induction pre arbitrary: passed n) auto

definition encode_outcome :: "exn + string option \<Rightarrow> exn + nat \<times> string" where
  "encode_outcome r = map_sum id (\<lambda>out. case out of None \<Rightarrow> (0, []) | Some t \<Rightarrow> (length t, t)) r"

lemma encode_up_to_checksum:
  assumes "CheckSum_Tag \<notin> set (tags pre)" "m_tag cs = CheckSum_Tag"
  obtains r where "\<And>m rest. m_fields m = pre @ cs # rest \<Longrightarrow> fst (message_encode cap encode_standard m) = encode_outcome r"
proof -
  let ?bl = "field_string BodyLength_Tag (u32_to_string (body_length_loop pre False 0))"
  let ?pre = "replace_first (has_tag BodyLength_Tag) ?bl pre"
  have t: "CheckSum_Tag \<notin> set (tags ?pre)" using assms(1) tags_replace_first[of ?bl BodyLength_Tag pre] by simp
  have "fst (message_encode cap encode_standard m) = encode_outcome (if length (wire_text ?pre) \<le> cap then
      (case format_checksum (calculate_checksum (wire_text ?pre)) of Inl e \<Rightarrow> Inl e
       | Inr text \<Rightarrow> Inr (encode_field cap (wire_text ?pre) (field_string CheckSum_Tag text))) else Inr None)"
    if m: "m_fields m = pre @ cs # rest" for m rest
  proof -
    obtain rest' where "replace_first (has_tag BodyLength_Tag) ?bl (pre @ cs # rest) = ?pre @ cs # rest'"
      using replace_first_before[of "has_tag BodyLength_Tag" cs ?bl pre rest] assms(2) by auto
    then have "with_body_length encode_standard m = ?pre @ cs # rest'"
      using m assms by (simp add: with_body_length_conv calculate_body_length_def body_length_stops fc_set_Replace_first_conv)
    moreover have "CheckSum_Tag \<in> set (tags (?pre @ cs # rest'))" using assms(2) by simp
    ultimately show ?thesis
      unfolding message_encode_def Let_def
      by (simp only: encode_loop_checksum[OF t assms(2) standard_options(1)])
         (auto simp: encode_outcome_def split: sum.splits option.splits)
  qed
  then show thesis by (rule that)
qed

text \<open>
  C35: what a script appends is lost. A field that a script adds to a message with \<open>set_operation.append\<close> comes
  after CheckSum, where encoding stops: the message the script leaves has the field, and is written as if it
  had not.
\<close>

theorem appended_field_is_lost:
  assumes "CheckSum_Tag \<in> set (tags (m_fields m))"
  shows "\<exists>m'. call_fields ''set'' [Integer tag, Text v, enumerator ''set_operation'' ''append''] m = (Inr (Boolean True), m') \<and>
    m_fields m' = m_fields m @ [field_string tag v] \<and>
    fst (message_encode cap encode_standard m') = fst (message_encode cap encode_standard m)"
proof -
  obtain pre cs rest where f: "m_fields m = pre @ cs # rest" "m_tag cs = CheckSum_Tag" "CheckSum_Tag \<notin> set (tags pre)"
    using split_list_first_prop[of "m_fields m" "has_tag CheckSum_Tag"] assms by (auto simp: image_iff)
  obtain r where r: "\<And>m rest. m_fields m = pre @ cs # rest \<Longrightarrow> fst (message_encode cap encode_standard m) = encode_outcome r"
    using encode_up_to_checksum[OF f(3,2)] by blast
  let ?m = "m\<lparr> m_fields := m_fields m @ [field_string tag v] \<rparr>"
  have "enumerator ''set_operation'' ''append'' = Set_op Append" by (simp add: enumerator_def lua_enumerations_def)
  then have "call_fields ''set'' [Integer tag, Text v, enumerator ''set_operation'' ''append''] m = (Inr (Boolean True), ?m)"
    by (simp add: call_method_def field_collection_type_def change_fields_def fc_set_string_def fc_set_def)
  moreover have "m_fields ?m = pre @ cs # (rest @ [field_string tag v])" using f(1) by simp
  ultimately show ?thesis using r[OF f(1)] r[of ?m] by auto
qed

section \<open>The properties at a concrete order\<close>

definition order_fields :: "string \<Rightarrow> string \<Rightarrow> field_collection" where
  "order_fields dest checksum = [field_string 8 ''F'', field_string 35 ''D'', field_string 100 dest, field_string 10 checksum]"

abbreviation order_text :: string where
  "order_text \<equiv> ''8=F'' @ soh @ ''35=D'' @ soh @ ''100=LIT'' @ soh @ ''10=094'' @ soh"

lemma sample_order:
  "encoded_text plain_dict encode_standard order_text (order_fields ''LIT'' ''094'')" "\<forall>f \<in> set (order_fields ''LIT'' ''094''). text_field plain_dict f"
proof -
  let ?m = "empty_message\<lparr> m_fields := order_fields ''LIT'' [] \<rparr>"
  have enc: "message_encode 40 encode_standard ?m = (Inr (24, order_text), empty_message\<lparr> m_fields := order_fields ''LIT'' ''094'' \<rparr>)"
    by code_simp
  have "wire_ok plain_dict [] (order_fields ''LIT'' ''094'')" by code_simp
  with enc show "encoded_text plain_dict encode_standard order_text (order_fields ''LIT'' ''094'')"
    unfolding encoded_text_def
    by (intro exI[of _ ?m] exI[of _ "[field_string 8 ''F'', field_string 35 ''D'', field_string 100 ''LIT'']"] exI[of _ "field_string 10 []"]
        exI[of _ 40] exI[of _ 24] exI[of _ "empty_message\<lparr> m_fields := order_fields ''LIT'' ''094'' \<rparr>"])
       (simp add: standard_options order_fields_def)
  show "\<forall>f \<in> set (order_fields ''LIT'' ''094''). text_field plain_dict f" by code_simp
qed

theorem lua_fixture_roundtrip_witness:
  "\<exists>m. lua_parse plain_dict order_text = Some m \<and> m_fields m = order_fields ''LIT'' ''094'' \<and>
     lua_to_string encode_standard m = Some (Inr order_text, m)"
  by (rule lua_fixture_roundtrip[OF sample_order])


theorem appended_field_is_lost_witness:
  "\<exists>m'. call_fields ''set'' [Integer 100, Text ''DARK'', enumerator ''set_operation'' ''append'']
       (empty_message\<lparr> m_fields := order_fields ''LIT'' ''094'' \<rparr>) = (Inr (Boolean True), m') \<and>
     fst (message_encode 40 encode_standard m') = Inr (24, order_text)"
proof -
  let ?m = "empty_message\<lparr> m_fields := order_fields ''LIT'' ''094'' \<rparr>"
  have "CheckSum_Tag \<in> set (tags (m_fields ?m))" by code_simp
  moreover have "fst (message_encode 40 encode_standard ?m) = Inr (24, order_text)" by code_simp
  ultimately show ?thesis using appended_field_is_lost[of ?m 100 "''DARK''" 40] by auto
qed

end
